(* ===== verification/Prelude.thy ===== *)
theory Prelude
  imports Main "HOL-Library.Word" "HOL-Library.AList"
begin

text \<open>
  What every component of the development shares: the machine types of Go, error values,
  the outcome of a statement that may panic or block, big-endian byte encodings, Go maps
  that are iterated (association lists with distinct keys), and the lemmas about them.
\<close>

unbundle bit_operations_syntax

section \<open>Types\<close>

type_synonym byte = "8 word"
type_synonym bytes = "byte list"
type_synonym int64 = "64 word" \<comment> \<open>read with \<open>sint\<close>\<close>
type_synonym int32 = "32 word" \<comment> \<open>read with \<open>sint\<close>\<close>

text \<open>
  Error values. Go compares sentinel errors by identity (\<open>errors.Is\<close>), so a sentinel is a
  constructor of its own, named by the variable that holds it; \<open>Errorf\<close> is any other error,
  with its message.
\<close>

datatype go_error = Sentinel string | Errorf string

type_synonym 'a res = "go_error + 'a"

text \<open>A call that returns, panics, or blocks on a channel for ever.\<close>

datatype 'a run = Done 'a | Panic | Block

fun run_bind :: "'a run \<Rightarrow> ('a \<Rightarrow> 'b run) \<Rightarrow> 'b run" where
  "run_bind (Done x) f = f x"
| "run_bind Panic f = Panic"
| "run_bind Block f = Block"

fun run_fold :: "('a \<Rightarrow> 's \<Rightarrow> 's run) \<Rightarrow> 'a list \<Rightarrow> 's \<Rightarrow> 's run" where
  "run_fold f [] s = Done s"
| "run_fold f (x # xs) s = run_bind (f x s) (run_fold f xs)"

named_theorems go_defs \<open>definitions of the operations of the model, unfolded together\<close>
named_theorems wf_intros \<open>preservation of the well-formedness invariants\<close>

section \<open>Outcomes\<close>

lemma run_bind_Done [simp]: "run_bind m f = Done y \<longleftrightarrow> (\<exists>x. m = Done x \<and> f x = Done y)"
  by (cases m) auto

lemma run_bind_Block: "run_bind m f = Block \<longleftrightarrow> m = Block \<or> (\<exists>x. m = Done x \<and> f x = Block)"
  by (cases m) auto

lemma run_bind_Panic: "run_bind m f = Panic \<longleftrightarrow> m = Panic \<or> (\<exists>x. m = Done x \<and> f x = Panic)"
  by (cases m) auto

lemma run_fold_append:
  "run_fold f (xs @ ys) s = run_bind (run_fold f xs s) (run_fold f ys)"
proof (induction xs arbitrary: s)
  case Nil
  show ?case by simp
next
  case (Cons x xs)
  then show ?case by (cases "f x s") auto
qed

text \<open>
  An invariant that each element's step keeps, and that guarantees the step returns, holds
  after the loop, and the loop returns.
\<close>

lemma run_fold_Done:
  assumes step: "\<And>x s. x \<in> set xs \<Longrightarrow> I s \<Longrightarrow> \<exists>s'. f x s = Done s' \<and> I s'"
    and "I s"
  shows "\<exists>s'. run_fold f xs s = Done s' \<and> I s'"
  using assms
proof (induction xs arbitrary: s)
  case Nil
  then show ?case by simp
next
  case (Cons x xs)
  then obtain s1 where s1: "f x s = Done s1" "I s1"
    by (meson list.set_intros(1))
  from Cons.IH [OF _ s1(2)] Cons.prems(1) obtain s2
    where "run_fold f xs s1 = Done s2" "I s2"
    by (metis list.set_intros(2))
  with s1 show ?case by simp
qed

lemma run_fold_inv:
  assumes step: "\<And>x s s'. x \<in> set xs \<Longrightarrow> I s \<Longrightarrow> f x s = Done s' \<Longrightarrow> I s'"
    and "I s" and "run_fold f xs s = Done s'"
  shows "I s'"
  using assms
proof (induction xs arbitrary: s)
  case Nil
  then show ?case by simp
next
  case (Cons x xs)
  from Cons.prems(3) obtain s1 where s1: "f x s = Done s1" "run_fold f xs s1 = Done s'"
    by auto
  from Cons.prems(1) [OF _ Cons.prems(2) s1(1)] have "I s1" by simp
  with Cons.IH [OF _ _ s1(2)] Cons.prems(1) show ?case
    by (meson list.set_intros(2))
qed

lemma run_fold_not_Block:
  assumes "\<And>x s. x \<in> set xs \<Longrightarrow> I s \<Longrightarrow> f x s \<noteq> Block"
    and "\<And>x s s'. x \<in> set xs \<Longrightarrow> I s \<Longrightarrow> f x s = Done s' \<Longrightarrow> I s'"
    and "I s"
  shows "run_fold f xs s \<noteq> Block"
  using assms
proof (induction xs arbitrary: s)
  case Nil
  then show ?case by simp
next
  case (Cons x xs)
  show ?case
  proof (cases "f x s")
    case (Done s1)
    then have "I s1" using Cons.prems(2) [OF _ Cons.prems(3), of x] by simp
    then have "run_fold f xs s1 \<noteq> Block"
      using Cons.prems by (intro Cons.IH) (metis list.set_intros(2))+
    then show ?thesis by (simp add: Done)
  qed (use Cons.prems(1,3) in auto)
qed

section \<open>Errors as sums\<close>

fun is_ok :: "'e + 'a \<Rightarrow> bool" where
  "is_ok (Inr _) = True"
| "is_ok (Inl _) = False"

fun res_bind :: "'e + 'a \<Rightarrow> ('a \<Rightarrow> 'e + 'b) \<Rightarrow> 'e + 'b" where
  "res_bind (Inr x) f = f x"
| "res_bind (Inl e) f = Inl e"

lemma res_bind_Inr [simp]: "res_bind m f = Inr y \<longleftrightarrow> (\<exists>x. m = Inr x \<and> f x = Inr y)"
  by (cases m) auto

lemma res_bind_Inl: "res_bind m f = Inl e \<longleftrightarrow> m = Inl e \<or> (\<exists>x. m = Inr x \<and> f x = Inl e)"
  by (cases m) auto

section \<open>Big-endian bytes (encoding/binary)\<close>

text \<open>\<open>put_be n v\<close> is what \<open>binary.BigEndian.PutUint\<close> writes for an \<open>n\<close>-byte value.\<close>

fun put_be :: "nat \<Rightarrow> nat \<Rightarrow> bytes" where
  "put_be 0 v = []"
| "put_be (Suc n) v = put_be n (v div 256) @ [word_of_nat (v mod 256)]"

definition be_nat :: "bytes \<Rightarrow> nat" where
  "be_nat bs = foldl (\<lambda>a b. a * 256 + unat b) 0 bs"

lemma length_put_be [simp]: "length (put_be n v) = n"
  by (induction n arbitrary: v) auto

lemma put_be_nonempty [simp]: "put_be (Suc n) v \<noteq> []"
  by simp

lemma unat_byte_mod [simp]: "unat (word_of_nat (v mod 256) :: byte) = v mod 256"
  by (simp add: unat_of_nat)

lemma be_nat_put_be [simp]: "be_nat (put_be n v) = v mod 256 ^ n"
proof (induction n arbitrary: v)
  case 0
  show ?case by (simp add: be_nat_def)
next
  case (Suc n)
  have "be_nat (put_be (Suc n) v) = be_nat (put_be n (v div 256)) * 256 + v mod 256"
    by (simp add: be_nat_def)
  also have "\<dots> = (v div 256 mod 256 ^ n) * 256 + v mod 256"
    using Suc by simp
  also have "\<dots> = v mod 256 ^ Suc n"
    by (metis add.commute mod_mult2_eq mult.commute power_Suc)
  finally show ?case .
qed

lemma be_nat_bound: "be_nat bs < 256 ^ length bs"
proof (induction bs rule: rev_induct)
  case Nil
  show ?case by (simp add: be_nat_def)
next
  case (snoc b bs)
  have "unat b < 256" using unsigned_less [of b] by simp
  with snoc show ?case by (simp add: be_nat_def)
qed

text \<open>A conversion of a natural number to a byte, as \<open>byte(v)\<close> does.\<close>

definition byte_of :: "nat \<Rightarrow> byte" where
  "byte_of n = word_of_nat n"

lemma byte_of_unat [simp]: "byte_of (unat b) = b"
  by (simp add: byte_of_def)

lemma unat_byte_less: "unat (b :: byte) < 256"
  using unsigned_less [of b] by simp

section \<open>Signed words\<close>

lemma sint64_cases: "sint (w :: int64) = (if uint w < 2 ^ 63 then uint w else uint w - 2 ^ 64)"
proof -
  have "uint w = sint w mod 2 ^ 64"
    using uint_sint [of w] by (simp add: take_bit_eq_mod)
  moreover have b: "- (2 ^ 63) \<le> sint w" "sint w < 2 ^ 63"
    using sint_greater_eq [of w] sint_less [of w] by simp_all
  moreover have "sint w mod 2 ^ 64 = sint w + 2 ^ 64" if "sint w < 0"
  proof -
    have "sint w mod 2 ^ 64 = (sint w + 2 ^ 64) mod 2 ^ 64" by simp
    also have "\<dots> = sint w + 2 ^ 64" using b that by (intro mod_pos_pos_trivial) auto
    finally show ?thesis .
  qed
  moreover have "sint w mod 2 ^ 64 = sint w" if "0 \<le> sint w"
    using b that by (intro mod_pos_pos_trivial) auto
  ultimately show ?thesis by (cases "sint w < 0") auto
qed

section \<open>Iterated Go maps\<close>

text \<open>
  A Go map whose iteration the code observes is an association list with distinct keys; its
  order is one iteration order the runtime may choose. Lookup is \<open>map_of\<close>, an assignment
  \<open>AList.update\<close>, \<open>delete\<close> is \<open>AList.delete\<close>.
\<close>

type_synonym ('k, 'v) gomap = "('k \<times> 'v) list"

abbreviation gokeys :: "('k, 'v) gomap \<Rightarrow> 'k list" where
  "gokeys m \<equiv> map fst m"

definition gomap_ok :: "('k, 'v) gomap \<Rightarrow> bool" where
  "gomap_ok m \<longleftrightarrow> distinct (gokeys m)"

lemma gomap_ok_Nil [simp]: "gomap_ok []"
  by (simp add: gomap_ok_def)

lemma gomap_ok_update [simp]: "gomap_ok m \<Longrightarrow> gomap_ok (AList.update k v m)"
  by (simp add: gomap_ok_def distinct_update)

lemma gomap_ok_delete [simp]: "gomap_ok m \<Longrightarrow> gomap_ok (AList.delete k m)"
  by (simp add: gomap_ok_def distinct_delete)

lemma gomap_ok_in: "gomap_ok m \<Longrightarrow> (k, v) \<in> set m \<longleftrightarrow> map_of m k = Some v"
  by (simp add: gomap_ok_def)

lemma set_alist_update_subset:
  "set (AList.update k v m) \<subseteq> insert (k, v) (set m)"
  by (induction m) auto

lemma set_alist_delete_subset: "set (AList.delete k m) \<subseteq> set m"
  by (induction m) auto

lemma set_alist_delete: "set (AList.delete k m) = {p \<in> set m. fst p \<noteq> k}"
  by (induction m) auto

lemma length_alist_delete_le: "length (AList.delete k m) \<le> length m"
  by (simp add: AList.delete_eq)

section \<open>Lists\<close>

lemma filter_eq_Nil_iff_all: "filter P xs = [] \<longleftrightarrow> (\<forall>x \<in> set xs. \<not> P x)"
  by (simp add: filter_empty_conv)

end
