(* ===== verification/GoText.thy ===== *)
theory GoText
  imports Prelude "HOL-Library.Sublist" "HOL-Library.Char_ord" "HOL-Library.List_Lexorder"
begin

text \<open>
  The parts of Go's \<open>strings\<close>, \<open>encoding/hex\<close>, \<open>encoding/base64\<close>, \<open>strconv\<close> and \<open>fmt\<close>
  that the sources use, on byte strings (a \<open>char\<close> is a byte), with their round trips.
\<close>

section \<open>strings\<close>

subsection \<open>White space\<close>

text \<open>
  \<open>unicode.IsSpace\<close> on UTF-8 text: the ASCII spaces and the encodings of U+0085, U+00A0,
  U+1680, U+2000 to U+200A, U+2028, U+2029, U+202F, U+205F and U+3000.
\<close>

definition bstr :: "nat list \<Rightarrow> string" where
  "bstr ns = map char_of ns"

definition space_runes :: "string list" where
  "space_runes =
     map (\<lambda>n. bstr [n]) [9, 10, 11, 12, 13, 32] @
     map bstr ([[194, 133], [194, 160], [225, 154, 128]] @
       map (\<lambda>k. [226, 128, k]) ([128..<139] @ [168, 169, 175]) @
       [[226, 129, 159], [227, 128, 128]])"

function trim_left_with :: "string list \<Rightarrow> string \<Rightarrow> string" where
  "trim_left_with rs s =
     (case find (\<lambda>r. r \<noteq> [] \<and> prefix r s) rs of
        None \<Rightarrow> s
      | Some r \<Rightarrow> trim_left_with rs (drop (length r) s))"
  by pat_completeness auto
termination
proof (relation "measure (\<lambda>(rs, s). length s)")
  fix rs s r
  assume "find (\<lambda>r. r \<noteq> [] \<and> prefix r s) rs = Some r"
  then have "r \<noteq> [] \<and> prefix r s" by (auto simp: find_Some_iff)
  then have "0 < length r" "length r \<le> length s" "0 < length s"
    by (auto dest: prefix_length_le)
  then show "((rs, drop (length r) s), rs, s) \<in> measure (\<lambda>(rs, s). length s)" by simp
qed simp

declare trim_left_with.simps [simp del]

definition TrimSpace :: "string \<Rightarrow> string" where
  "TrimSpace s =
     rev (trim_left_with (map rev space_runes) (rev (trim_left_with space_runes s)))"

text \<open>A plain character is a printable ASCII one: no white space and no lead byte.\<close>

definition plain_char :: "char \<Rightarrow> bool" where
  "plain_char c \<longleftrightarrow> (32 :: nat) < of_char c \<and> of_char c < (128 :: nat)"

lemma space_runes_head: "r \<in> set space_runes \<Longrightarrow> r \<noteq> [] \<and> \<not> plain_char (hd r)"
  by (auto simp: space_runes_def bstr_def plain_char_def)

lemma space_runes_last: "r \<in> set space_runes \<Longrightarrow> r \<noteq> [] \<and> \<not> plain_char (last r)"
  by (auto simp: space_runes_def bstr_def plain_char_def)

lemma trim_left_plain:
  assumes "\<And>r. r \<in> set rs \<Longrightarrow> r \<noteq> [] \<and> \<not> plain_char (hd r)"
    and "s = [] \<or> plain_char (hd s)"
  shows "trim_left_with rs s = s"
proof -
  have "\<not> (r \<noteq> [] \<and> prefix r s)" if "r \<in> set rs" for r
    using assms(1) [OF that] assms(2) by (cases r; cases s) auto
  then have "find (\<lambda>r. r \<noteq> [] \<and> prefix r s) rs = None"
    by (auto simp: find_None_iff)
  then show ?thesis by (simp add: trim_left_with.simps [of rs s])
qed

lemma TrimSpace_plain_ends:
  assumes "s = [] \<or> plain_char (hd s) \<and> plain_char (last s)"
  shows "TrimSpace s = s"
proof -
  have "trim_left_with space_runes s = s"
    using assms by (intro trim_left_plain) (auto dest: space_runes_head)
  moreover have "trim_left_with (map rev space_runes) (rev s) = rev s"
    using assms
    by (intro trim_left_plain) (auto simp: hd_rev dest: space_runes_last)
  ultimately show ?thesis by (simp add: TrimSpace_def)
qed

lemma TrimSpace_plain [simp]: "\<forall>c \<in> set s. plain_char c \<Longrightarrow> TrimSpace s = s"
  by (rule TrimSpace_plain_ends) auto

lemma TrimSpace_Nil [simp]: "TrimSpace [] = []"
  by simp

subsection \<open>Split, Index, Join\<close>

text \<open>\<open>strings.Split(s, c)\<close> for a separator of one character.\<close>

fun Split :: "char \<Rightarrow> string \<Rightarrow> string list" where
  "Split c [] = [[]]"
| "Split c (x # xs) =
     (if x = c then [] # Split c xs
      else (case Split c xs of [] \<Rightarrow> [[x]] | y # ys \<Rightarrow> (x # y) # ys))"

text \<open>\<open>strings.Index(s, c)\<close>; \<open>None\<close> for -1.\<close>

fun Index :: "char \<Rightarrow> string \<Rightarrow> nat option" where
  "Index c [] = None"
| "Index c (x # xs) = (if x = c then Some 0 else map_option Suc (Index c xs))"

fun Join :: "char \<Rightarrow> string list \<Rightarrow> string" where
  "Join c [] = []"
| "Join c [s] = s"
| "Join c (s # ss) = s @ c # Join c ss"

lemma Split_nonempty [simp]: "Split c s \<noteq> []"
  by (induction s) (auto split: list.splits)

lemma Split_plain: "c \<notin> set s \<Longrightarrow> Split c s = [s]"
  by (induction s) auto

lemma Split_append: "c \<notin> set s \<Longrightarrow> Split c (s @ c # t) = s # Split c t"
  by (induction s) auto

lemma Split_Join:
  "ss \<noteq> [] \<Longrightarrow> \<forall>s \<in> set ss. c \<notin> set s \<Longrightarrow> Split c (Join c ss) = ss"
  by (induction c ss rule: Join.induct) (auto simp: Split_plain Split_append)

lemma Index_append: "c \<notin> set k \<Longrightarrow> Index c (k @ c # v) = Some (length k)"
  by (induction k) auto

lemma Index_None: "Index c s = None \<longleftrightarrow> c \<notin> set s"
  by (induction s) auto

lemma Join_eq_Nil: "Join c ss = [] \<longleftrightarrow> ss = [] \<or> ss = [[]]"
  by (cases "(c, ss)" rule: Join.cases) auto

text \<open>\<open>strings.ToLower\<close> and \<open>ToUpper\<close> on ASCII letters; other bytes are kept.\<close>

definition lower_char :: "char \<Rightarrow> char" where
  "lower_char c = (let n = of_char c :: nat in if 65 \<le> n \<and> n \<le> 90 then char_of (n + 32) else c)"

definition upper_char :: "char \<Rightarrow> char" where
  "upper_char c = (let n = of_char c :: nat in if 97 \<le> n \<and> n \<le> 122 then char_of (n - 32) else c)"

definition ToLower :: "string \<Rightarrow> string" where
  "ToLower s = map lower_char s"

definition ToUpper :: "string \<Rightarrow> string" where
  "ToUpper s = map upper_char s"

lemma ToLower_idem [simp]: "ToLower (ToLower s) = ToLower s"
  by (auto simp: ToLower_def lower_char_def Let_def)

section \<open>encoding/hex\<close>

definition hex_digit :: "nat \<Rightarrow> char" where
  "hex_digit n = (if n < 10 then char_of (48 + n) else char_of (87 + n))"

definition hex_value :: "char \<Rightarrow> nat option" where
  "hex_value c =
     (let n = of_char c :: nat in
      if 48 \<le> n \<and> n \<le> 57 then Some (n - 48)
      else if 97 \<le> n \<and> n \<le> 102 then Some (n - 87)
      else if 65 \<le> n \<and> n \<le> 70 then Some (n - 55) else None)"

fun hex_encode :: "bytes \<Rightarrow> string" where
  "hex_encode [] = []"
| "hex_encode (b # bs) =
     hex_digit (unat b div 16) # hex_digit (unat b mod 16) # hex_encode bs"

fun hex_decode :: "string \<Rightarrow> bytes res" where
  "hex_decode [] = Inr []"
| "hex_decode [p] =
     (case hex_value p of
        None \<Rightarrow> Inl (Errorf ''encoding/hex: invalid byte'')
      | Some _ \<Rightarrow> Inl (Errorf ''encoding/hex: odd length hex string''))"
| "hex_decode (p # q # s) =
     (case (hex_value p, hex_value q) of
        (Some a, Some b) \<Rightarrow> res_bind (hex_decode s) (\<lambda>bs. Inr (byte_of (a * 16 + b) # bs))
      | _ \<Rightarrow> Inl (Errorf ''encoding/hex: invalid byte''))"

lemma hex_value_digit: "n < 16 \<Longrightarrow> hex_value (hex_digit n) = Some n"
  by (auto simp: hex_value_def hex_digit_def Let_def)

lemma hex_decode_encode [simp]: "hex_decode (hex_encode bs) = Inr bs"
proof (induction bs)
  case Nil
  show ?case by simp
next
  case (Cons b bs)
  have "unat b div 16 < 16" using unat_byte_less [of b] by simp
  then show ?case using Cons by (simp add: hex_value_digit)
qed

lemma length_hex_encode [simp]: "length (hex_encode bs) = 2 * length bs"
  by (induction bs) auto

lemma of_char_hex_digit:
  "n < 16 \<Longrightarrow> of_char (hex_digit n) = (if n < 10 then 48 + n else 87 + n)"
  by (simp add: hex_digit_def)

lemma hex_digit_plain: "n < 16 \<Longrightarrow> plain_char (hex_digit n) \<and> hex_digit n \<noteq> CHR ''$''"
  using of_char_hex_digit [of n] by (auto simp: plain_char_def split: if_splits)

lemma hex_encode_plain:
  "c \<in> set (hex_encode bs) \<Longrightarrow> plain_char c \<and> c \<noteq> CHR ''$''"
proof (induction bs)
  case Nil
  then show ?case by simp
next
  case (Cons b bs)
  have "unat b div 16 < 16" "unat b mod 16 < 16" using unat_byte_less [of b] by simp_all
  then show ?case using Cons hex_digit_plain by auto
qed

end
