(* ===== verification/GoScan.thy ===== *)
theory GoScan
  imports GoText
begin

text \<open>
  Numbers as text (\<open>strconv\<close>), the \<open>fmt.Sscanf\<close> formats the sources scan, and standard
  base64; then the locale of a text codec, which hex and base64 both satisfy.
\<close>

section \<open>strconv\<close>

definition digit_char :: "nat \<Rightarrow> char" where
  "digit_char n = char_of (48 + n)"

definition digit_value :: "char \<Rightarrow> nat option" where
  "digit_value c = (let n = of_char c :: nat in if 48 \<le> n \<and> n \<le> 57 then Some (n - 48) else None)"

fun show_nat :: "nat \<Rightarrow> string" where
  "show_nat n = (if n < 10 then [digit_char n] else show_nat (n div 10) @ [digit_char (n mod 10)])"

declare show_nat.simps [simp del]

text \<open>\<open>strconv.FormatInt(i, 10)\<close>, \<open>fmt.Sprint(i)\<close> and the verb \<open>%d\<close>.\<close>

definition FormatInt :: "int \<Rightarrow> string" where
  "FormatInt i = (if i < 0 then CHR ''-'' # show_nat (nat (- i)) else show_nat (nat i))"

fun digits_acc :: "nat \<Rightarrow> string \<Rightarrow> nat option" where
  "digits_acc n [] = Some n"
| "digits_acc n (c # s) =
     (case digit_value c of None \<Rightarrow> None | Some d \<Rightarrow> digits_acc (10 * n + d) s)"

definition ErrSyntax :: go_error where "ErrSyntax = Sentinel ''strconv.ErrSyntax''"
definition ErrRange :: go_error where "ErrRange = Sentinel ''strconv.ErrRange''"

text \<open>\<open>strconv.ParseInt(s, 10, 64)\<close> and \<open>strconv.Atoi\<close> on a 64-bit platform.\<close>

definition ParseInt :: "string \<Rightarrow> int res" where
  "ParseInt s =
     (let neg = (s \<noteq> [] \<and> hd s = CHR ''-'');
          ds = (if s \<noteq> [] \<and> (hd s = CHR ''-'' \<or> hd s = CHR ''+'') then tl s else s)
      in if ds = [] then Inl ErrSyntax
         else (case digits_acc 0 ds of
             None \<Rightarrow> Inl ErrSyntax
           | Some n \<Rightarrow>
               if \<not> neg \<and> 2 ^ 63 \<le> n \<or> neg \<and> 2 ^ 63 < n then Inl ErrRange
               else Inr (if neg then - int n else int n)))"

lemma of_char_digit: "n < 10 \<Longrightarrow> of_char (digit_char n) = 48 + n"
  by (simp add: digit_char_def)

lemma digit_value_char [simp]: "n < 10 \<Longrightarrow> digit_value (digit_char n) = Some n"
  by (simp add: digit_value_def of_char_digit)

lemma digits_acc_append:
  "digits_acc n (s @ t) = (case digits_acc n s of None \<Rightarrow> None | Some m \<Rightarrow> digits_acc m t)"
  by (induction s arbitrary: n) (auto split: option.splits)

lemma show_nat_nonempty [simp]: "show_nat n \<noteq> []"
  by (subst show_nat.simps) simp

lemma digits_acc_show [simp]: "digits_acc 0 (show_nat n) = Some n"
proof (induction n rule: show_nat.induct)
  case (1 n)
  then show ?case
    by (subst show_nat.simps) (auto simp: digits_acc_append)
qed

lemma show_nat_digits: "c \<in> set (show_nat n) \<Longrightarrow> \<exists>d < 10. c = digit_char d"
proof (induction n rule: show_nat.induct)
  case (1 n)
  show ?case
  proof (cases "n < 10")
    case True
    with 1 show ?thesis by (auto simp: show_nat.simps [of n])
  next
    case False
    with 1 have "c \<in> set (show_nat (n div 10)) \<or> c = digit_char (n mod 10)"
      by (auto simp: show_nat.simps [of n])
    with 1 False show ?thesis by (auto intro: exI [of _ "n mod 10"])
  qed
qed

lemma digit_char_props:
  assumes "d < 10"
  shows "plain_char (digit_char d)" and "digit_char d \<notin> {CHR ''$'', CHR ''-'', CHR ''+'', CHR ''.''}"
  using of_char_digit [OF assms] assms by (auto simp: plain_char_def)

lemma show_nat_chars:
  assumes "c \<in> set (show_nat n)"
  shows "plain_char c" and "c \<notin> {CHR ''$'', CHR ''-'', CHR ''+'', CHR ''.''}"
proof -
  obtain d where d: "d < 10" "c = digit_char d" using show_nat_digits [OF assms] by auto
  show "plain_char c" using digit_char_props(1) [OF d(1)] d(2) by simp
  show "c \<notin> {CHR ''$'', CHR ''-'', CHR ''+'', CHR ''.''}"
    using digit_char_props(2) [OF d(1)] d(2) by simp
qed

lemma show_nat_hd_in: "hd (show_nat n) \<in> set (show_nat n)"
  by simp

lemma show_nat_hd: "hd (show_nat n) \<noteq> CHR ''-'' \<and> hd (show_nat n) \<noteq> CHR ''+''"
  using show_nat_chars(2) [OF show_nat_hd_in, of n] by simp

lemma FormatInt_nonempty [simp]: "FormatInt i \<noteq> []"
  by (simp add: FormatInt_def)

definition in_int64 :: "int \<Rightarrow> bool" where
  "in_int64 i \<longleftrightarrow> - (2 ^ 63) \<le> i \<and> i < 2 ^ 63"

theorem ParseInt_FormatInt [simp]: "in_int64 i \<Longrightarrow> ParseInt (FormatInt i) = Inr i"
  using show_nat_hd [of "nat i"]
  by (auto simp: ParseInt_def FormatInt_def in_int64_def Let_def)

lemma ParseInt_range: "ParseInt s = Inr i \<Longrightarrow> in_int64 i"
  by (auto simp: ParseInt_def in_int64_def Let_def split: if_splits option.splits)

lemma ParseInt_Nil [simp]: "ParseInt [] = Inl ErrSyntax"
  by (simp add: ParseInt_def)

lemma in_int64_sint [simp]: "in_int64 (sint (w :: int64))"
  using sint_greater_eq [of w] sint_less [of w] by (simp add: in_int64_def)

section \<open>fmt.Sscanf\<close>

definition ErrUnexpectedEOF :: go_error where "ErrUnexpectedEOF = Sentinel ''io.ErrUnexpectedEOF''"

definition starts_space :: "string \<Rightarrow> string option" where
  "starts_space s = find (\<lambda>r. r \<noteq> [] \<and> prefix r s) space_runes"

text \<open>\<open>SkipSpace\<close> of a scan state whose newlines count: a newline is an error.\<close>

function SkipSpace :: "string \<Rightarrow> string res" where
  "SkipSpace s =
     (case starts_space s of
        None \<Rightarrow> Inr s
      | Some r \<Rightarrow>
          if r = bstr [10] then Inl (Errorf ''unexpected newline'')
          else SkipSpace (drop (length r) s))"
  by pat_completeness auto
termination
proof (relation "measure length")
  fix s r
  assume "starts_space s = Some r"
  then have "r \<noteq> [] \<and> prefix r s" by (auto simp: starts_space_def find_Some_iff)
  then have "0 < length r" "length r \<le> length s" "0 < length s"
    by (auto dest: prefix_length_le)
  then show "(drop (length r) s, s) \<in> measure length" by simp
qed simp

declare SkipSpace.simps [simp del]

fun take_token :: "string \<Rightarrow> string" where
  "take_token [] = []"
| "take_token (c # s) = (if starts_space (c # s) = None then c # take_token s else [])"

definition is_digit :: "char \<Rightarrow> bool" where
  "is_digit c \<longleftrightarrow> digit_value c \<noteq> None"

text \<open>The verb \<open>%d\<close> into an \<open>int64\<close>: the value and the rest of the input.\<close>

definition scan_d :: "string \<Rightarrow> (int \<times> string) res" where
  "scan_d s0 = res_bind (SkipSpace s0) (\<lambda>s.
     if s = [] then Inl ErrUnexpectedEOF
     else let sign = (if hd s = CHR ''-'' \<or> hd s = CHR ''+'' then [hd s] else []);
              s1 = drop (length sign) s;
              ds = takeWhile is_digit s1
          in if ds = [] then Inl (Errorf ''expected integer'')
             else res_bind (ParseInt (sign @ ds)) (\<lambda>i. Inr (i, dropWhile is_digit s1)))"

text \<open>The verb \<open>%s\<close>.\<close>

definition scan_s :: "string \<Rightarrow> string res" where
  "scan_s s0 = res_bind (SkipSpace s0) (\<lambda>s. if s = [] then Inl ErrUnexpectedEOF else Inr (take_token s))"

text \<open>A literal character of the format.\<close>

fun scan_lit :: "char \<Rightarrow> string \<Rightarrow> string res" where
  "scan_lit c [] = Inl ErrUnexpectedEOF"
| "scan_lit c (x # s) = (if x = c then Inr s else Inl (Errorf ''input does not match format''))"

text \<open>\<open>fmt.Sscanf(str, "$%d$%s", &keyId, &rest)\<close>.\<close>

definition Sscanf_dollar :: "string \<Rightarrow> (int \<times> string) res" where
  "Sscanf_dollar s =
     res_bind (scan_lit CHR ''$'' s) (\<lambda>s1.
     res_bind (scan_d s1) (\<lambda>(i, s2).
     res_bind (scan_lit CHR ''$'' s2) (\<lambda>s3.
     res_bind (scan_s s3) (\<lambda>rest. Inr (i, rest)))))"

lemma starts_space_plain: "plain_char c \<Longrightarrow> starts_space (c # s) = None"
  by (auto simp: starts_space_def find_None_iff prefix_Cons dest: space_runes_head)

lemma SkipSpace_plain: "s \<noteq> [] \<Longrightarrow> plain_char (hd s) \<Longrightarrow> SkipSpace s = Inr s"
  using starts_space_plain [of "hd s" "tl s"] by (simp add: SkipSpace.simps [of s])

lemma take_token_plain: "\<forall>c \<in> set s. plain_char c \<Longrightarrow> take_token s = s"
  by (induction s) (auto simp: starts_space_plain)

lemma scan_s_plain: "s \<noteq> [] \<Longrightarrow> \<forall>c \<in> set s. plain_char c \<Longrightarrow> scan_s s = Inr s"
  by (simp add: scan_s_def SkipSpace_plain take_token_plain)

lemma is_digit_show: "c \<in> set (show_nat n) \<Longrightarrow> is_digit c"
  using show_nat_digits by (fastforce simp: is_digit_def)

lemma not_digit_dollar: "\<not> is_digit CHR ''$''"
  by (simp add: is_digit_def digit_value_def)

lemma digits_of_show:
  "takeWhile is_digit (show_nat n @ CHR ''$'' # s) = show_nat n"
  "dropWhile is_digit (show_nat n @ CHR ''$'' # s) = CHR ''$'' # s"
  by (auto simp: takeWhile_append2 dropWhile_append2 is_digit_show not_digit_dollar)

lemma plain_minus: "plain_char CHR ''-''"
  by (simp add: plain_char_def)

lemma scan_d_show:
  assumes "in_int64 i"
  shows "scan_d (FormatInt i @ CHR ''$'' # s) = Inr (i, CHR ''$'' # s)"
proof (cases "i < 0")
  case True
  then show ?thesis
    using ParseInt_FormatInt [OF assms]
    by (simp add: scan_d_def FormatInt_def SkipSpace_plain plain_minus digits_of_show)
next
  case False
  have ends: "hd (show_nat (nat i) @ CHR ''$'' # s) = hd (show_nat (nat i))" by simp
  have "plain_char (hd (show_nat (nat i)))" by (rule show_nat_chars(1) [OF show_nat_hd_in])
  with False show ?thesis
    using ParseInt_FormatInt [OF assms] show_nat_hd [of "nat i"]
    by (simp add: scan_d_def FormatInt_def SkipSpace_plain digits_of_show Let_def)
qed

lemma Sscanf_dollar_format:
  assumes "in_int64 i" and "s \<noteq> []" and "\<forall>c \<in> set s. plain_char c"
  shows "Sscanf_dollar (CHR ''$'' # FormatInt i @ CHR ''$'' # s) = Inr (i, s)"
  using assms by (simp add: Sscanf_dollar_def scan_d_show scan_s_plain)

end
