(* ===== verification/Codec.thy ===== *)
theory Codec
  imports GoScan
begin

text \<open>
  Standard base64, the interface of a text codec with hex and base64 as its providers, and
  the envelope \<open>$keyId$data$nonce\<close> in which the secret components store ciphertexts.
\<close>

section \<open>encoding/base64 (StdEncoding)\<close>

definition b64_char :: "nat \<Rightarrow> char" where
  "b64_char n =
     (if n < 26 then char_of (65 + n) else if n < 52 then char_of (71 + n)
      else if n < 62 then char_of (n - 4) else if n = 62 then CHR ''+'' else CHR ''/'')"

definition b64_value :: "char \<Rightarrow> nat option" where
  "b64_value c =
     (let n = of_char c :: nat in
      if 65 \<le> n \<and> n \<le> 90 then Some (n - 65)
      else if 97 \<le> n \<and> n \<le> 122 then Some (n - 71)
      else if 48 \<le> n \<and> n \<le> 57 then Some (n + 4)
      else if n = 43 then Some 62 else if n = 47 then Some 63 else None)"

fun b64_encode :: "bytes \<Rightarrow> string" where
  "b64_encode [] = []"
| "b64_encode [a] =
     [b64_char (unat a div 4), b64_char (unat a mod 4 * 16), CHR ''='', CHR ''='']"
| "b64_encode [a, b] =
     [b64_char (unat a div 4), b64_char (unat a mod 4 * 16 + unat b div 16),
      b64_char (unat b mod 16 * 4), CHR ''='']"
| "b64_encode (a # b # c # s) =
     b64_char (unat a div 4) # b64_char (unat a mod 4 * 16 + unat b div 16) #
     b64_char (unat b mod 16 * 4 + unat c div 64) # b64_char (unat c mod 64) # b64_encode s"

definition CorruptInputError :: go_error where
  "CorruptInputError = Errorf ''illegal base64 data at input byte''"

text \<open>
  Decoding reads quanta of four characters; padding ends the input. The decoder is not
  strict: it ignores the bits a padded quantum leaves over.
\<close>

fun b64_quanta :: "string \<Rightarrow> bytes res" where
  "b64_quanta [] = Inr []"
| "b64_quanta (c1 # c2 # c3 # c4 # s) =
     (case (b64_value c1, b64_value c2) of
        (Some v1, Some v2) \<Rightarrow>
          let b1 = byte_of (v1 * 4 + v2 div 16) in
          (case b64_value c3 of
             None \<Rightarrow>
               if c3 = CHR ''='' \<and> c4 = CHR ''='' \<and> s = [] then Inr [b1] else Inl CorruptInputError
           | Some v3 \<Rightarrow>
               let b2 = byte_of ((v2 mod 16) * 16 + v3 div 4) in
               (case b64_value c4 of
                  None \<Rightarrow> if c4 = CHR ''='' \<and> s = [] then Inr [b1, b2] else Inl CorruptInputError
                | Some v4 \<Rightarrow>
                    let b3 = byte_of ((v3 mod 4) * 64 + v4) in
                    res_bind (b64_quanta s) (\<lambda>bs. Inr (b1 # b2 # b3 # bs))))
      | _ \<Rightarrow> Inl CorruptInputError)"
| "b64_quanta _ = Inl CorruptInputError"

text \<open>Line breaks are skipped wherever they stand.\<close>

definition b64_decode :: "string \<Rightarrow> bytes res" where
  "b64_decode s = b64_quanta (filter (\<lambda>c. c \<notin> {char_of (10 :: nat), char_of (13 :: nat)}) s)"

lemma of_char_b64:
  "n < 64 \<Longrightarrow> of_char (b64_char n) =
     (if n < 26 then 65 + n else if n < 52 then 71 + n else if n < 62 then n - 4
      else if n = 62 then 43 else 47)"
  by (simp add: b64_char_def)

lemma b64_value_char [simp]: "n < 64 \<Longrightarrow> b64_value (b64_char n) = Some n"
  by (auto simp: b64_value_def of_char_b64 Let_def)

lemma b64_value_pad [simp]: "b64_value CHR ''='' = None"
  by (simp add: b64_value_def)

lemma b64_char_plain: "n < 64 \<Longrightarrow> plain_char (b64_char n) \<and> b64_char n \<noteq> CHR ''$''"
  using of_char_b64 [of n] by (auto simp: plain_char_def split: if_splits)

lemma b64_parts_nat:
  fixes x y :: nat
  assumes "x < 256" and "y < 256"
  shows "x div 4 < 64" "x mod 4 * 16 + y div 16 < 64" "x mod 4 * 16 < 64"
    "x mod 16 * 4 + y div 64 < 64" "x mod 16 * 4 < 64" "x mod 64 < 64"
    "x div 16 < 16" "x div 64 < 4"
proof -
  have d: "x div 4 \<le> 63" "x div 16 \<le> 15" "x div 64 \<le> 3" "y div 16 \<le> 15" "y div 64 \<le> 3"
    using assms by linarith+
  have m: "x mod 4 \<le> 3" "x mod 16 \<le> 15" "x mod 64 \<le> 63" by simp_all
  show "x div 4 < 64" "x mod 4 * 16 + y div 16 < 64" "x mod 4 * 16 < 64"
    "x mod 16 * 4 + y div 64 < 64" "x mod 16 * 4 < 64" "x mod 64 < 64"
    "x div 16 < 16" "x div 64 < 4"
    using d m(1,2) by (simp_all add: less_Suc_eq_le)
qed

lemmas b64_parts [simp] = b64_parts_nat [OF unat_byte_less unat_byte_less]

lemma b64_quanta_encode: "b64_quanta (b64_encode bs) = Inr bs"
  by (induction bs rule: b64_encode.induct) (simp_all add: Let_def)

lemma b64_encode_plain: "c \<in> set (b64_encode bs) \<Longrightarrow> plain_char c \<and> c \<noteq> CHR ''$''"
proof (induction bs rule: b64_encode.induct)
  case (4 a b d s)
  then show ?case using b64_char_plain by auto
qed (use b64_char_plain in \<open>auto simp: plain_char_def\<close>)

lemma b64_decode_encode: "b64_decode (b64_encode bs) = Inr bs"
proof -
  have "\<not> plain_char (char_of (10 :: nat))" "\<not> plain_char (char_of (13 :: nat))"
    by (simp_all add: plain_char_def)
  then have "filter (\<lambda>c. c \<notin> {char_of (10 :: nat), char_of (13 :: nat)}) (b64_encode bs) = b64_encode bs"
    using b64_encode_plain by (auto intro!: filter_True)
  then show ?thesis by (simp add: b64_decode_def b64_quanta_encode)
qed

section \<open>The interface of a text codec\<close>

locale text_codec =
  fixes enc :: "bytes \<Rightarrow> string"
    and dec :: "string \<Rightarrow> bytes res"
  assumes dec_enc: "dec (enc bs) = Inr bs"
    and enc_plain: "c \<in> set (enc bs) \<Longrightarrow> plain_char c"
    and enc_no_dollar: "CHR ''$'' \<notin> set (enc bs)"

section \<open>The envelope\<close>

text \<open>\<open>fmt.Sprintf("$%d$%s$%s", keyId, enc(data), enc(nonce))\<close>.\<close>

definition envelope_format :: "(bytes \<Rightarrow> string) \<Rightarrow> int64 \<Rightarrow> bytes \<Rightarrow> bytes \<Rightarrow> string" where
  "envelope_format enc keyId data nonce =
     CHR ''$'' # FormatInt (sint keyId) @ CHR ''$'' # enc data @ CHR ''$'' # enc nonce"

text \<open>The scan of the envelope: \<open>Sscanf\<close>, then \<open>Split\<close> at the dollar (with the caller's message when
  there are not two parts), then the two decodings.\<close>

definition envelope_scan :: "string \<Rightarrow> (string \<Rightarrow> bytes res) \<Rightarrow> string \<Rightarrow> (int64 \<times> bytes \<times> bytes) res" where
  "envelope_scan msg dec str =
     res_bind (Sscanf_dollar str) (\<lambda>(keyId, rest).
       (case Split CHR ''$'' rest of
          [d, n] \<Rightarrow>
            res_bind (dec d) (\<lambda>data. res_bind (dec n) (\<lambda>nonce. Inr (word_of_int keyId, data, nonce)))
        | _ \<Rightarrow> Inl (Errorf msg)))"

lemma plain_dollar: "plain_char CHR ''$''"
  by (simp add: plain_char_def)

context text_codec
begin

lemma envelope_roundtrip:
  "envelope_scan msg dec (envelope_format enc keyId data nonce) = Inr (keyId, data, nonce)"
proof -
  let ?rest = "enc data @ CHR ''$'' # enc nonce"
  have "\<forall>c \<in> set ?rest. plain_char c"
    using enc_plain plain_dollar by auto
  then have "Sscanf_dollar (CHR ''$'' # FormatInt (sint keyId) @ CHR ''$'' # ?rest) = Inr (sint keyId, ?rest)"
    by (intro Sscanf_dollar_format) simp_all
  then show ?thesis
    by (simp add: envelope_scan_def envelope_format_def Split_append Split_plain enc_no_dollar dec_enc)
qed

lemma envelope_inj:
  assumes "envelope_format enc k1 d1 n1 = envelope_format enc k2 d2 n2"
  shows "k1 = k2 \<and> d1 = d2 \<and> n1 = n2"
  using arg_cong [OF assms, of "envelope_scan [] dec"] by (simp add: envelope_roundtrip)

end

lemma hex_encode_no_dollar: "CHR ''$'' \<notin> set (hex_encode bs)"
  by (metis hex_encode_plain)

lemma b64_encode_no_dollar: "CHR ''$'' \<notin> set (b64_encode bs)"
  by (metis b64_encode_plain)

interpretation hex: text_codec hex_encode hex_decode
  by unfold_locales
    (rule hex_decode_encode hex_encode_no_dollar hex_encode_plain [THEN conjunct1], assumption?)+

interpretation b64: text_codec b64_encode b64_decode
  by unfold_locales
    (rule b64_decode_encode b64_encode_no_dollar b64_encode_plain [THEN conjunct1], assumption?)+

end
