(* ===== verification/IdGen.thy ===== *)
theory IdGen
  imports Codec
begin

text \<open>
  The id generator (\<open>utility/idgen/id.go\<close>): 48 bits of time, 16 bits of node, 32 bits of
  element and 32 bits of sequence. The clock is the argument of the operations: the reading
  taken before the lock, and the further readings of the wait loop.
\<close>

section \<open>Ids\<close>

type_synonym IdType = "int64 \<times> int64"

definition CompareTo :: "IdType \<Rightarrow> IdType \<Rightarrow> int" where
  "CompareTo i id2 =
     (if fst id2 <s fst i then 1
      else if fst i <s fst id2 then -1
      else if snd id2 <s snd i then 1
      else if snd i <s snd id2 then -1
      else 0)"

definition Bytes :: "IdType \<Rightarrow> bytes" where
  "Bytes i = put_be 8 (unat (fst i)) @ put_be 8 (unat (snd i))"

definition HexString :: "IdType \<Rightarrow> string" where
  "HexString i = hex_encode (Bytes i)"

definition FromHexString :: "string \<Rightarrow> IdType res" where
  "FromHexString str =
     res_bind (hex_decode str) (\<lambda>b.
       if length b \<noteq> 16 then Inl (Errorf ''raw string length is not 16'')
       else Inr (word_of_nat (be_nat (take 8 b)), word_of_nat (be_nat (drop 8 b))))"

section \<open>The generator\<close>

record IdGenOption =
  DoNotRewindElementIdBefore :: int32
  StartTimeMillis :: int64

record IdGen =
  ig_time :: int64
  ig_seq :: int32
  nodeIdMask :: int64
  elementIdMask :: int64
  ig_opt :: IdGenOption

definition startTimeMillis_default :: int64 where
  "startTimeMillis_default = 1521639000000"

definition maxValueInt32 :: int32 where
  "maxValueInt32 = 0x7fffffff"

definition ErrClockBackward :: go_error where
  "ErrClockBackward = Sentinel ''ErrClockBackward''"

definition NewIdGen :: "16 word \<Rightarrow> int32 \<Rightarrow> IdGenOption \<Rightarrow> IdGen" where
  "NewIdGen nodeId elementId opt =
     \<lparr>ig_time = 0, ig_seq = 0,
      nodeIdMask = scast nodeId AND 0xFFFF,
      elementIdMask = push_bit 32 (scast elementId AND 0xFFFFFFFF),
      ig_opt = (if StartTimeMillis opt = 0
                then opt\<lparr>StartTimeMillis := startTimeMillis_default\<rparr> else opt)\<rparr>"

text \<open>\<open>getTimeMillis\<close>, from the seconds and nanoseconds of \<open>time.Now()\<close>.\<close>

definition getTimeMillis :: "int64 \<Rightarrow> nat \<Rightarrow> int64" where
  "getTimeMillis unix nanos =
     (unix * 1000 + word_of_nat (nanos mod 1000000000 div 1000000)) AND 0x7fffffffffffffff"

definition makeId :: "int64 \<Rightarrow> int64 \<Rightarrow> int64 \<Rightarrow> int32 \<Rightarrow> int64 \<Rightarrow> IdType" where
  "makeId time nodeMask elementId sq start =
     (push_bit 16 (time - start) OR nodeMask, elementId OR (scast sq AND 0xffffffff))"

text \<open>The loop of \<open>makeIdRange\<close>; a write past the slice panics.\<close>

function makeIdRange ::
  "int64 \<Rightarrow> int64 \<Rightarrow> int64 \<Rightarrow> IdType list \<Rightarrow> nat \<Rightarrow> int32 \<Rightarrow> int32 \<Rightarrow> int64 \<Rightarrow> IdType list run" where
  "makeIdRange time nodeMask elementId result idx start seqEnd st =
     (if start <=s seqEnd then
        if idx < length result then
          makeIdRange time nodeMask elementId
            (result[idx := makeId time nodeMask elementId start st]) (Suc idx) (start + 1) seqEnd st
        else Panic
      else Done result)"
  by pat_completeness auto
termination
  by (relation "measure (\<lambda>(t, n, e, r, idx, s, se, st). length r - idx)") auto

declare makeIdRange.simps [simp del]

text \<open>\<open>tillNextMillisecond\<close> polls the clock; \<open>None\<close> while no reading given is late enough.\<close>

fun tillNextMillisecond :: "int64 list \<Rightarrow> int64 \<Rightarrow> int64 option" where
  "tillNextMillisecond [] time = None"
| "tillNextMillisecond (newtime # ts) time =
     (if time <s newtime then Some newtime else tillNextMillisecond ts time)"

definition rewind_seq :: "IdGen \<Rightarrow> int32" where
  "rewind_seq g = (if DoNotRewindElementIdBefore (ig_opt g) <s ig_seq g then 0 else ig_seq g)"

text \<open>\<open>Next\<close>: the result and the new state; \<open>None\<close> while it still waits for the clock.\<close>

definition Next :: "int64 \<Rightarrow> int64 list \<Rightarrow> IdGen \<Rightarrow> (IdType res \<times> IdGen) option" where
  "Next t polls g =
     (let mk = (\<lambda>tm sq. makeId tm (nodeIdMask g) (elementIdMask g) sq (StartTimeMillis (ig_opt g)))
      in if ig_time g <s t then
           Some (Inr (mk t 0), g\<lparr>ig_time := t, ig_seq := rewind_seq g\<rparr>)
         else if t = ig_time g then
           if ig_seq g <s maxValueInt32 then
             Some (Inr (mk t (ig_seq g + 1)), g\<lparr>ig_seq := ig_seq g + 1\<rparr>)
           else (case tillNextMillisecond polls t of
               None \<Rightarrow> None
             | Some newtime \<Rightarrow>
                 Some (Inr (mk newtime 0), g\<lparr>ig_time := newtime, ig_seq := rewind_seq g\<rparr>))
         else Some (Inl ErrClockBackward, g))"

text \<open>
  \<open>NextN\<close>: \<open>make([]IdType, cnt)\<close> panics for a negative count; the range may panic; the
  sequence is advanced without being rewound.
\<close>

definition NextN :: "int64 \<Rightarrow> int64 \<Rightarrow> int64 list \<Rightarrow> IdGen \<Rightarrow> (IdType list res \<times> IdGen) run option" where
  "NextN cnt t polls g =
     (if cnt <s 0 then Some Panic else
      let result = replicate (unat cnt) (0, 0);
          n1 = ucast (cnt - 1) :: int32;
          range = (\<lambda>tm s e g'. run_bind
            (makeIdRange tm (nodeIdMask g) (elementIdMask g) result 0 s e (StartTimeMillis (ig_opt g)))
            (\<lambda>r. Done (Inr r, g')))
      in if ig_time g <s t then
           Some (range t 0 n1 (g\<lparr>ig_time := t, ig_seq := ig_seq g + n1\<rparr>))
         else if t = ig_time g then
           let newSeq = ig_seq g + n1 in
           if newSeq <s maxValueInt32 then
             Some (range t (ig_seq g) (newSeq - 1) (g\<lparr>ig_seq := newSeq\<rparr>))
           else (case tillNextMillisecond polls t of
               None \<Rightarrow> None
             | Some newtime \<Rightarrow>
                 Some (range newtime 0 n1 (g\<lparr>ig_time := newtime, ig_seq := ig_seq g + n1\<rparr>)))
         else Some (Done (Inl ErrClockBackward, g)))"

text \<open>A sequence of calls of \<open>Next\<close>: the ids issued, in order; a call that still waits holds the lock.\<close>

fun next_ids :: "(int64 \<times> int64 list) list \<Rightarrow> IdGen \<Rightarrow> IdType list" where
  "next_ids [] g = []"
| "next_ids ((t, polls) # cs) g =
     (case Next t polls g of
        None \<Rightarrow> []
      | Some (Inl e, g') \<Rightarrow> next_ids cs g'
      | Some (Inr i, g') \<Rightarrow> i # next_ids cs g')"

section \<open>Lemmas: polling, words, the ids of one call\<close>

lemma tillNextMillisecond_Some:
  "tillNextMillisecond polls t = Some n \<Longrightarrow> n \<in> set polls \<and> t <s n"
  by (induction polls t rule: tillNextMillisecond.induct) (auto split: if_splits)

lemma tillNextMillisecond_returns:
  "\<exists>n \<in> set polls. t <s n \<Longrightarrow> \<exists>n. tillNextMillisecond polls t = Some n"
  by (induction polls t rule: tillNextMillisecond.induct) auto

lemma scast_and_mask32: "(scast (sq :: int32) :: int64) AND 0xffffffff = ucast sq"
proof -
  have m: "(0xffffffff :: int64) = mask 32" by (simp add: mask_eq_exp_minus_1)
  show ?thesis unfolding m
  proof (rule bit_word_eqI)
    fix i :: nat
    show "bit (scast sq AND mask 32 :: int64) i = bit (ucast sq :: int64) i"
      by (cases "i < 31"; cases "i = 31") (auto simp: bit_simps min_def dest: bit_imp_le_length)
  qed
qed

lemma scast_and_mask16: "(scast (n :: 16 word) :: int64) AND 0xffff = ucast n"
proof -
  have m: "(0xffff :: int64) = mask 16" by (simp add: mask_eq_exp_minus_1)
  show ?thesis unfolding m
  proof (rule bit_word_eqI)
    fix i :: nat
    show "bit (scast n AND mask 16 :: int64) i = bit (ucast n :: int64) i"
      by (cases "i < 15"; cases "i = 15") (auto simp: bit_simps min_def dest: bit_imp_le_length)
  qed
qed

lemma uint_push_or:
  fixes x n :: int64
  assumes "uint x < 2 ^ (64 - k)" and "uint n < 2 ^ k" and "k < 64"
  shows "uint (push_bit k x OR n) = uint x * 2 ^ k + uint n"
proof -
  have "uint (push_bit k x OR n) = (take_bit 64 (push_bit k (uint x)) OR uint n)"
    by (simp add: uint_or unsigned_push_bit_eq)
  also have "take_bit 64 (push_bit k (uint x)) = push_bit k (uint x)"
  proof (rule take_bit_int_eq_self)
    have "uint x * 2 ^ k < 2 ^ (64 - k) * 2 ^ k" using assms(1) by simp
    then show "push_bit k (uint x) < 2 ^ 64"
      using assms(3) by (simp add: push_bit_eq_mult flip: power_add)
  qed (simp add: push_bit_eq_mult)
  also have "push_bit k (uint x) OR uint n = push_bit k (uint x) + uint n"
  proof (rule disjunctive_add_eq_or [symmetric], rule bit_eqI)
    fix i
    have "\<not> bit (uint n) i" if "k \<le> i"
    proof -
      have "take_bit k (uint n) = uint n" using assms(2) by (simp add: take_bit_int_eq_self)
      then show ?thesis using that by (metis bit_take_bit_iff linorder_not_less)
    qed
    then show "bit (push_bit k (uint x) AND uint n) i = bit (0 :: int) i"
      by (auto simp: bit_simps)
  qed
  finally show ?thesis by (simp add: push_bit_eq_mult)
qed

text \<open>The generator's own invariant, and the readings for which 47 bits of time suffice.\<close>

definition gen_ok :: "IdGen \<Rightarrow> bool" where
  "gen_ok g \<longleftrightarrow> uint (nodeIdMask g) < 2 ^ 16 \<and>
     (\<exists>e. elementIdMask g = push_bit 32 e \<and> uint e < 2 ^ 32) \<and> 0 \<le> sint (ig_seq g)"

definition time_ok :: "IdGen \<Rightarrow> int64 \<Rightarrow> bool" where
  "time_ok g t \<longleftrightarrow> sint (StartTimeMillis (ig_opt g)) \<le> sint t \<and>
     sint t < sint (StartTimeMillis (ig_opt g)) + 2 ^ 47"

lemma NewIdGen_ok: "gen_ok (NewIdGen n e opt)"
proof -
  have n: "uint (ucast n :: int64) < 2 ^ 16"
    using unsigned_less [of n] by (simp add: uint_up_ucast is_up del: unsigned_ucast_eq)
  have e: "uint (ucast e :: int64) < 2 ^ 32"
    using unsigned_less [of e] by (simp add: uint_up_ucast is_up del: unsigned_ucast_eq)
  show ?thesis
    unfolding gen_ok_def NewIdGen_def scast_and_mask16 scast_and_mask32
    using n e by (auto simp del: unsigned_ucast_eq intro!: exI [of _ "ucast e"])
qed

lemma fst_makeId:
  assumes "gen_ok g" and "time_ok g t"
  shows "sint (fst (makeId t (nodeIdMask g) el sq (StartTimeMillis (ig_opt g)))) =
    (sint t - sint (StartTimeMillis (ig_opt g))) * 2 ^ 16 + uint (nodeIdMask g)"
proof -
  let ?st = "StartTimeMillis (ig_opt g)"
  let ?d = "sint t - sint ?st"
  have d: "0 \<le> ?d" "?d < 2 ^ 47" using assms(2) by (auto simp: time_ok_def)
  have "t - ?st = word_of_int ?d" by simp
  then have "uint (t - ?st) = take_bit 64 ?d" using uint_word_of_int_eq [of ?d, where 'a = 64] by simp
  then have u: "uint (t - ?st) = ?d" using d by (simp add: take_bit_int_eq_self)
  have "uint (push_bit 16 (t - ?st) OR nodeIdMask g) = ?d * 2 ^ 16 + uint (nodeIdMask g)"
    using uint_push_or [of "t - ?st" 16 "nodeIdMask g"] d assms(1) u by (simp add: gen_ok_def)
  moreover have "?d * 2 ^ 16 + uint (nodeIdMask g) < 2 ^ 63"
    using d(2) assms(1) by (simp add: gen_ok_def)
  ultimately show ?thesis unfolding makeId_def fst_conv by (simp add: sint64_cases)
qed

lemma snd_makeId:
  assumes "uint e < 2 ^ 32"
  shows "uint (snd (makeId t n (push_bit 32 e) sq st)) = uint e * 2 ^ 32 + uint sq"
proof -
  have "uint (ucast sq :: int64) = uint sq" by (simp add: uint_up_ucast is_up)
  moreover have "uint sq < 2 ^ 32" using unsigned_less [of sq] by simp
  ultimately show ?thesis
    using uint_push_or [of e 32 "ucast sq"] assms by (simp add: makeId_def scast_and_mask32)
qed

lemma uint32_sint: "0 \<le> sint (s :: int32) \<Longrightarrow> uint s = sint s"
proof -
  assume s: "0 \<le> sint s"
  have "uint s = sint s mod 2 ^ 32" using uint_sint [of s] by (simp add: take_bit_eq_mod)
  also have "\<dots> = sint s" using s sint_less [of s] by (intro mod_pos_pos_trivial) auto
  finally show "uint s = sint s" .
qed

lemma makeId_seq_less:
  assumes "gen_ok g" and "0 \<le> sint s1" and "sint s1 < sint s2"
  shows "snd (makeId t n (elementIdMask g) s1 st) <s snd (makeId t n (elementIdMask g) s2 st)"
proof -
  obtain e where e: "elementIdMask g = push_bit 32 e" "uint e < 2 ^ 32"
    using assms(1) by (auto simp: gen_ok_def)
  have s: "uint s1 = sint s1" "uint s2 = sint s2" using assms by (auto intro!: uint32_sint)
  have b: "sint s2 < 2 ^ 31" using sint_less [of s2] by simp
  show ?thesis
    unfolding word_sless_alt sint64_cases e(1) snd_makeId [OF e(2)] s
    using b assms(2,3) e(2) by (cases "uint e < 2 ^ 31") auto
qed

lemma CompareTo_less:
  "CompareTo i j = -1 \<longleftrightarrow>
     sint (fst i) < sint (fst j) \<or> fst i = fst j \<and> sint (snd i) < sint (snd j)"
  by (auto simp: CompareTo_def word_sless_alt dest: signed_word_eqI)

section \<open>Ids are issued in increasing order\<close>

text \<open>What one call of \<open>Next\<close> does: the id issued belongs to the new state.\<close>

definition issued :: "IdGen \<Rightarrow> IdType \<Rightarrow> bool" where
  "issued g i \<longleftrightarrow> (\<exists>s. 0 \<le> sint s \<and> sint s \<le> sint (ig_seq g) \<and>
     i = makeId (ig_time g) (nodeIdMask g) (elementIdMask g) s (StartTimeMillis (ig_opt g)))"

lemma Next_frame:
  assumes "Next t polls g = Some (r, g')"
  shows "ig_opt g' = ig_opt g" "nodeIdMask g' = nodeIdMask g" "elementIdMask g' = elementIdMask g"
  using assms by (auto simp: Next_def Let_def split: if_splits option.splits)

lemma rewind_seq_nonneg: "gen_ok g \<Longrightarrow> 0 \<le> sint (rewind_seq g)"
  by (simp add: rewind_seq_def gen_ok_def)

lemma seq_incr: "0 \<le> sint s \<Longrightarrow> s <s maxValueInt32 \<Longrightarrow> sint (s + 1 :: int32) = sint s + 1"
proof -
  assume s: "0 \<le> sint s" "s <s maxValueInt32"
  then have b: "sint s < 2 ^ 31 - 1" by (simp add: maxValueInt32_def word_sless_alt)
  have "sint (s + 1) = signed_take_bit 31 (sint s + 1)"
    using sint_word_ariths(1) [of s 1] by simp
  also have "\<dots> = sint s + 1" using s(1) b by (simp add: signed_take_bit_int_eq_self)
  finally show ?thesis .
qed

lemma Next_ok: "Next t polls g = Some (r, g') \<Longrightarrow> gen_ok g \<Longrightarrow> gen_ok g'"
  by (auto simp: Next_def Let_def gen_ok_def rewind_seq_nonneg [unfolded gen_ok_def] seq_incr rewind_seq_def
    split: if_splits option.splits)

lemma Next_Inl: "Next t polls g = Some (Inl e, g') \<Longrightarrow> g' = g"
  by (auto simp: Next_def Let_def split: if_splits option.splits)

lemma Next_issued:
  assumes n: "Next t polls g = Some (Inr i, g')" and g: "gen_ok g"
  shows "issued g' i"
proof -
  have new: "issued (g\<lparr>ig_time := x, ig_seq := rewind_seq g\<rparr>)
      (makeId x (nodeIdMask g) (elementIdMask g) 0 (StartTimeMillis (ig_opt g)))" for x
    using rewind_seq_nonneg [OF g] by (auto simp: issued_def intro!: exI [of _ 0])
  have same: "issued (g\<lparr>ig_seq := ig_seq g + 1\<rparr>)
      (makeId (ig_time g) (nodeIdMask g) (elementIdMask g) (ig_seq g + 1) (StartTimeMillis (ig_opt g)))"
    if "ig_seq g <s maxValueInt32"
    using seq_incr [OF _ that] g by (auto simp: issued_def gen_ok_def intro!: exI [of _ "ig_seq g + 1"])
  show ?thesis using n new same
    by (auto simp: Next_def Let_def split: if_splits option.splits)
qed

lemma Next_time:
  "Next t polls g = Some (Inr i, g') \<Longrightarrow> ig_time g' \<in> insert t (set polls)"
  by (auto simp: Next_def Let_def dest: tillNextMillisecond_Some split: if_splits option.splits)

lemma Next_above:
  assumes n: "Next t polls g = Some (Inr i, g')" and g: "gen_ok g"
    and t: "\<forall>x \<in> insert t (set polls). time_ok g x" "time_ok g (ig_time g)"
    and l: "issued g l"
  shows "CompareTo l i = -1"
proof -
  let ?mk = "\<lambda>t s. makeId t (nodeIdMask g) (elementIdMask g) s (StartTimeMillis (ig_opt g))"
  obtain s where s: "0 \<le> sint s" "sint s \<le> sint (ig_seq g)" "l = ?mk (ig_time g) s"
    using l by (auto simp: issued_def)
  have later: "CompareTo l (?mk x 0) = -1" if "time_ok g x" "ig_time g <s x" for x
    using that t(2) g s by (simp add: CompareTo_less fst_makeId word_sless_alt)
  have same: "CompareTo l (?mk (ig_time g) (ig_seq g + 1)) = -1" if "ig_seq g <s maxValueInt32"
  proof -
    have "sint s < sint (ig_seq g + 1)"
      using that s seq_incr [of "ig_seq g"] g by (simp add: gen_ok_def)
    from makeId_seq_less [OF g s(1) this] show ?thesis
      unfolding CompareTo_less s(3) by (auto simp: makeId_def word_sless_alt)
  qed
  show ?thesis using n later same t
    by (auto simp: Next_def Let_def dest!: tillNextMillisecond_Some split: if_splits option.splits)
qed

lemma time_ok_cong: "ig_opt g' = ig_opt g \<Longrightarrow> time_ok g' = time_ok g"
  by (simp add: time_ok_def fun_eq_iff)

lemma CompareTo_trans: "CompareTo a b = -1 \<Longrightarrow> CompareTo b c = -1 \<Longrightarrow> CompareTo a c = -1"
  by (auto simp: CompareTo_less)

definition readings_ok :: "IdGen \<Rightarrow> (int64 \<times> int64 list) list \<Rightarrow> bool" where
  "readings_ok g cs \<longleftrightarrow> (\<forall>(t, polls) \<in> set cs. \<forall>x \<in> insert t (set polls). time_ok g x)"

lemma next_ids_above:
  assumes "gen_ok g" "readings_ok g cs" "time_ok g (ig_time g)" "issued g l"
  shows "\<forall>i \<in> set (next_ids cs g). CompareTo l i = -1"
  using assms
proof (induction cs arbitrary: g l)
  case (Cons c cs)
  obtain t polls where c: "c = (t, polls)" by (cases c)
  show ?case
  proof (cases "Next t polls g")
    case (Some p)
    obtain r g' where p: "p = (r, g')" by (cases p)
    note n = Some [unfolded p]
    have ok: "gen_ok g'" "time_ok g' = time_ok g"
      using Next_ok [OF n Cons.prems(1)] time_ok_cong [OF Next_frame(1) [OF n]] by auto
    have rest: "readings_ok g' cs" "\<forall>x \<in> insert t (set polls). time_ok g x"
      using Cons.prems(2) ok unfolding readings_ok_def c by auto
    show ?thesis
    proof (cases r)
      case (Inl e)
      with Cons n c rest Next_Inl [OF n [unfolded Inl]] show ?thesis by simp
    next
      case (Inr i)
      note n' = n [unfolded Inr]
      have li: "CompareTo l i = -1" using Next_above [OF n' Cons.prems(1) rest(2) Cons.prems(3,4)] .
      have "time_ok g' (ig_time g')" using Next_time [OF n'] rest(2) ok(2) by auto
      from Cons.IH [OF ok(1) rest(1) this Next_issued [OF n' Cons.prems(1)]]
      have "\<forall>j \<in> set (next_ids cs g'). CompareTo i j = -1" .
      with li n' c show ?thesis by (simp add: CompareTo_trans)
    qed
  qed (simp add: c)
qed simp

lemma next_ids_sorted:
  assumes "gen_ok g" "readings_ok g cs"
  shows "sorted_wrt (\<lambda>i j. CompareTo i j = -1) (next_ids cs g)"
  using assms
proof (induction cs arbitrary: g)
  case (Cons c cs)
  obtain t polls where c: "c = (t, polls)" by (cases c)
  show ?case
  proof (cases "Next t polls g")
    case (Some p)
    obtain r g' where p: "p = (r, g')" by (cases p)
    note n = Some [unfolded p]
    have ok: "gen_ok g'" "time_ok g' = time_ok g"
      using Next_ok [OF n Cons.prems(1)] time_ok_cong [OF Next_frame(1) [OF n]] by auto
    have rest: "readings_ok g' cs" "\<forall>x \<in> insert t (set polls). time_ok g x"
      using Cons.prems(2) ok unfolding readings_ok_def c by auto
    show ?thesis
    proof (cases r)
      case (Inl e)
      with Cons n c rest Next_Inl [OF n [unfolded Inl]] show ?thesis by simp
    next
      case (Inr i)
      note n' = n [unfolded Inr]
      have "time_ok g' (ig_time g')" using Next_time [OF n'] rest(2) ok(2) by auto
      from next_ids_above [OF ok(1) rest(1) this Next_issued [OF n' Cons.prems(1)]]
      show ?thesis using Cons.IH [OF ok(1) rest(1)] n' c by simp
    qed
  qed (simp add: c)
qed simp

text \<open>C36. The ids that a sequence of calls of \<open>Next\<close> issues are strictly increasing under
  \<open>CompareTo\<close>, whatever the clock does between the calls (it may stand still or go back): no
  id is issued twice. The readings only have to lie in the 47 bits of milliseconds the id has.\<close>

theorem Next_ids_increasing:
  assumes "readings_ok (NewIdGen nodeId elementId opt) calls"
  shows "sorted_wrt (\<lambda>i j. CompareTo i j = -1) (next_ids calls (NewIdGen nodeId elementId opt))"
  by (rule next_ids_sorted [OF NewIdGen_ok assms])

theorem Next_ids_increasing_witness:
  "sorted_wrt (\<lambda>i j. CompareTo i j = -1)
     (next_ids [(1521639000005, []), (1521639000005, []), (1521639000003, []), (1521639000009, [])]
        (NewIdGen 7 9 \<lparr>DoNotRewindElementIdBefore = 5, StartTimeMillis = 0\<rparr>))"
  by (rule Next_ids_increasing) (simp add: readings_ok_def time_ok_def NewIdGen_def startTimeMillis_default_def)


section \<open>The fields of an id\<close>

lemma node_field: "ucast (push_bit 16 (x :: int64) OR (scast (n :: 16 word) AND 0xFFFF)) = n"
proof -
  have m: "(0xFFFF :: int64) = mask 16" by (simp add: mask_eq_exp_minus_1)
  show ?thesis unfolding m by (intro bit_word_eqI) (auto simp: bit_simps)
qed

lemma element_field: "ucast (drop_bit 32 (push_bit 32 (scast (e :: int32) AND 0xFFFFFFFF) OR (scast (s :: int32) AND 0xffffffff) :: int64)) = e"
proof -
  have m: "(0xFFFFFFFF :: int64) = mask 32" by (simp add: mask_eq_exp_minus_1)
  show ?thesis unfolding m by (intro bit_word_eqI) (auto simp: bit_simps)
qed

lemma seq_field: "ucast (push_bit 32 (scast (e :: int32) AND 0xFFFFFFFF) OR (scast (s :: int32) AND 0xffffffff) :: int64) = s"
proof -
  have m: "(0xFFFFFFFF :: int64) = mask 32" by (simp add: mask_eq_exp_minus_1)
  show ?thesis unfolding m by (intro bit_word_eqI) (auto simp: bit_simps)
qed

lemma nonneg_bound: "0 \<le> sint (s :: int32) \<Longrightarrow> unat s < 2 ^ 31"
proof -
  assume s: "0 \<le> sint s"
  have "sint s < 2 ^ 31" using sint_less [of s] by simp
  then have "uint s < 2 ^ 31" unfolding uint32_sint [OF s] .
  then show "unat s < 2 ^ 31" by (simp add: nat_less_iff flip: nat_uint_eq)
qed

definition made_by :: "16 word \<Rightarrow> int32 \<Rightarrow> IdGen \<Rightarrow> bool" where
  "made_by n e g \<longleftrightarrow> nodeIdMask g = scast n AND 0xFFFF \<and> elementIdMask g = push_bit 32 (scast e AND 0xFFFFFFFF)"

lemma issued_fields:
  assumes "issued g i" "made_by n e g"
  shows "ucast (fst i) = n" "ucast (drop_bit 32 (snd i)) = e" "0 \<le> sint (ucast (snd i) :: int32)"
proof -
  obtain s where s: "0 \<le> sint s" "i = makeId (ig_time g) (nodeIdMask g) (elementIdMask g) s (StartTimeMillis (ig_opt g))"
    using assms(1) by (auto simp: issued_def)
  then have i: "fst i = push_bit 16 (ig_time g - StartTimeMillis (ig_opt g)) OR (scast n AND 0xFFFF)"
    "snd i = push_bit 32 (scast e AND 0xFFFFFFFF) OR (scast s AND 0xffffffff)"
    using assms(2) by (simp_all only: made_by_def makeId_def fst_conv snd_conv)
  show "ucast (fst i) = n" unfolding i by (rule node_field)
  show "ucast (drop_bit 32 (snd i)) = e" unfolding i by (rule element_field)
  show "0 \<le> sint (ucast (snd i) :: int32)" unfolding i seq_field by (rule s(1))
qed

lemma next_ids_issued:
  "i \<in> set (next_ids cs g) \<Longrightarrow> gen_ok g \<Longrightarrow> made_by n e g \<Longrightarrow> \<exists>g'. issued g' i \<and> made_by n e g'"
proof (induction cs arbitrary: g)
  case (Cons c cs)
  obtain t polls where c: "c = (t, polls)" by (cases c)
  obtain r g' where p: "Next t polls g = Some (r, g')" using Cons.prems(1) c by (cases "Next t polls g") auto
  have g': "gen_ok g'" "made_by n e g'"
    using Next_ok [OF p Cons.prems(2)] Next_frame [OF p] Cons.prems(3) by (simp_all add: made_by_def)
  show ?case
  proof (cases r)
    case (Inl x)
    then show ?thesis using Cons.IH [OF _ g'] Cons.prems(1) c p by simp
  next
    case (Inr j)
    then show ?thesis using Cons.IH [OF _ g'] Cons.prems(1) c p Next_issued [OF p [unfolded Inr] Cons.prems(2)] g'(2) by auto
  qed
qed simp



text \<open>Parsing the hexadecimal form of an id gives the id back.\<close>

theorem FromHexString_HexString: "FromHexString (HexString i) = Inr i"
proof -
  have b: "unat (w :: int64) < 256 ^ 8" for w using unsigned_less [of w] by simp
  show ?thesis
    using b [of "fst i"] b [of "snd i"]
    by (simp add: FromHexString_def HexString_def Bytes_def del: put_be.simps)
qed

section \<open>Ranges of ids\<close>

lemma makeIdRange_Done:
  assumes "sint s + int n = sint e + 1" and "idx + n \<le> length r" and "sint e < 2 ^ 31 - 1"
  shows "makeIdRange t nm el r idx s e st =
    Done (take idx r @ map (\<lambda>k. makeId t nm el (s + word_of_nat k) st) [0..<n] @ drop (idx + n) r)"
  using assms
proof (induction n arbitrary: s idx r)
  case 0
  then show ?case by (simp add: makeIdRange.simps word_sle_eq)
next
  case (Suc n)
  have se: "s <=s e" using Suc.prems(1) by (simp add: word_sle_eq)
  have "sint (s + 1) = sint s + 1"
  proof -
    have "- (2 ^ 31) \<le> sint s" using sint_greater_eq [of s] by simp
    then have "signed_take_bit 31 (sint s + 1) = sint s + 1"
      using Suc.prems by (intro signed_take_bit_int_eq_self) auto
    then show ?thesis using sint_word_ariths(1) [of s 1] by simp
  qed
  then have "sint (s + 1) + int n = sint e + 1" using Suc.prems by simp
  from Suc.IH [OF this, of "Suc idx" "r[idx := makeId t nm el s st]"] Suc.prems(2,3)
  have "makeIdRange t nm el (r[idx := makeId t nm el s st]) (Suc idx) (s + 1) e st =
    Done (take (Suc idx) (r[idx := makeId t nm el s st]) @
      map (\<lambda>k. makeId t nm el (s + 1 + word_of_nat k) st) [0..<n] @ drop (Suc idx + n) (r[idx := makeId t nm el s st]))"
    by simp
  moreover have "take (Suc idx) (r[idx := x]) = take idx r @ [x]" for x
    using Suc.prems(2) by (simp add: take_Suc_conv_app_nth)
  moreover have "map (\<lambda>k. makeId t nm el (s + word_of_nat k) st) [0..<Suc n] =
     makeId t nm el s st # map (\<lambda>k. makeId t nm el (s + 1 + word_of_nat k) st) [0..<n]"
    by (simp add: upt_conv_Cons map_Suc_upt [symmetric] del: upt_Suc) (simp add: algebra_simps)
  ultimately show ?case
    using Suc.prems(2) se by (subst makeIdRange.simps) simp
qed

lemma unat_sint64: "0 \<le> sint (c :: int64) \<Longrightarrow> int (unat c) = sint c"
  using unsigned_less [of c, where 'a = int] by (simp add: sint64_cases split: if_splits)

lemma sint_int32_of_int: "- (2 ^ 31) \<le> i \<Longrightarrow> i < 2 ^ 31 \<Longrightarrow> sint (word_of_int i :: int32) = i"
  using sint_sbintrunc' [of i, where 'a = 32] by (simp add: signed_take_bit_int_eq_self)

lemma int32_of_int64: "(ucast (w :: int64) :: int32) = word_of_int (sint w)"
proof -
  have "(ucast w :: int32) = scast w"
    using down_cast_same [where 'a = 64 and 'b = 32] by (simp add: is_down)
  then show ?thesis by (simp only: scast_eq)
qed

lemma int32_count:
  assumes "0 < sint (cnt :: int64)" "sint cnt < 2 ^ 31"
  shows "(ucast (cnt - 1) :: int32) = word_of_int (sint cnt - 1)"
proof -
  have "sint (cnt - 1) = sint cnt - 1"
    using assms sint_word_ariths(2) [of cnt 1] by (simp add: signed_take_bit_int_eq_self)
  then show ?thesis by (simp only: int32_of_int64)
qed

lemma seq_plus_count:
  assumes "0 < sint (cnt :: int64)" "sint cnt < 2 ^ 31"
  shows "(s :: int32) + ucast (cnt - 1) = word_of_int (sint s + sint cnt - 1)"
proof -
  have "word_of_int (sint s) = s" by simp
  then have "s + ucast (cnt - 1) = word_of_int (sint s) + word_of_int (sint cnt - 1)"
    by (simp only: int32_count [OF assms])
  then show ?thesis by (simp only: wi_hom_syms) (simp add: algebra_simps)
qed

text \<open>In a millisecond later than its last one, \<open>NextN(cnt)\<close> issues exactly \<open>cnt\<close> ids, with the sequence numbers 0 to \<open>cnt - 1\<close>, and advances the stored time.\<close>

theorem NextN_new_millisecond:
  assumes "0 < sint cnt" "sint cnt < 2 ^ 31" and "ig_time g <s t"
  shows "NextN cnt t polls g =
    Some (Done (Inr (map (\<lambda>k. makeId t (nodeIdMask g) (elementIdMask g) (word_of_nat k) (StartTimeMillis (ig_opt g)))
                       [0..<unat cnt]),
      g\<lparr>ig_time := t, ig_seq := ig_seq g + ucast (cnt - 1)\<rparr>))"
proof -
  have "\<not> cnt <s 0" using assms by (simp add: word_sless_alt)
  moreover have "makeIdRange t nm el (replicate (unat cnt) (0, 0)) 0 0 (ucast (cnt - 1)) st =
    Done (map (\<lambda>k. makeId t nm el (word_of_nat k) st) [0..<unat cnt])" for nm el st
    using assms int32_count [of cnt] sint_int32_of_int [of "sint cnt - 1"] unat_sint64 [of cnt]
      makeIdRange_Done [of 0 "unat cnt" "ucast (cnt - 1)" 0 "replicate (unat cnt) (0, 0)" t nm el st]
    by simp
  ultimately show ?thesis using assms(3) by (simp add: NextN_def Let_def)
qed

theorem NextN_new_millisecond_witness:
  "NextN 3 7 [] (NewIdGen 1 2 \<lparr>DoNotRewindElementIdBefore = 5, StartTimeMillis = 3\<rparr>) =
     Some (Done (Inr [(262145, 8589934592), (262145, 8589934593), (262145, 8589934594)],
       (NewIdGen 1 2 \<lparr>DoNotRewindElementIdBefore = 5, StartTimeMillis = 3\<rparr>)\<lparr>ig_time := 7, ig_seq := 2\<rparr>))"
  by (subst NextN_new_millisecond) (simp_all add: NewIdGen_def makeId_def upt_conv_Cons word_sless_alt)



end
