(* ===== verification/ConfigApi.thy ===== *)
theory ConfigApi
  imports GoText
begin

text \<open>
  The data of the configuration service (\<open>configure/configapi\<close>): selectors with their
  cached canonical form, configurations with their signature, and the request types.
\<close>

section \<open>Selectors\<close>

text \<open>\<open>Data\<close> is a Go map, its list order one iteration order; \<open>cached\<close> the canonical text or empty.\<close>

record selectors =
  s_Data :: "(string, string) gomap"
  s_cached :: string

definition selectors_zero :: selectors where
  "selectors_zero = \<lparr>s_Data = [], s_cached = []\<rparr>"

definition sel_text :: "(string, string) gomap \<Rightarrow> string" where
  "sel_text m =
     Join (CHR '','') (map (\<lambda>k. k @ CHR ''='' # the (map_of m k)) (sort (gokeys m)))"

definition cache :: "selectors \<Rightarrow> selectors" where
  "cache s =
     (if s_Data s = [] then s
      else if s_cached s = [] then s\<lparr>s_cached := sel_text (s_Data s)\<rparr>
      else s)"

definition SelectorsHelperCache :: "selectors \<Rightarrow> selectors" where
  "SelectorsHelperCache s = cache s"

definition SelectorsHelperCacheValue :: "selectors \<Rightarrow> string \<times> selectors" where
  "SelectorsHelperCacheValue s = (s_cached (cache s), cache s)"

text \<open>
  \<open>Fill\<close>: the position of the equals sign is taken in the trimmed item and applied to the
  item as it stands in the text. On an error the selectors keep their value.
\<close>

fun Fill_items :: "string list \<Rightarrow> (string, string) gomap \<Rightarrow> (string, string) gomap res" where
  "Fill_items [] m = Inr m"
| "Fill_items (v # vs) m =
     (case Index (CHR ''='') (TrimSpace v) of
        None \<Rightarrow> Inl (Errorf ''invalid selectors string'')
      | Some idx \<Rightarrow>
          Fill_items vs (AList.update (TrimSpace (take idx v)) (TrimSpace (drop (idx + 1) v)) m))"

definition Fill :: "selectors \<Rightarrow> string \<Rightarrow> selectors res" where
  "Fill s str =
     (let str = TrimSpace str in
      if str = [] then Inr \<lparr>s_Data = [], s_cached = []\<rparr>
      else res_bind (Fill_items (Split (CHR '','') str) [])
             (\<lambda>m. Inr \<lparr>s_Data = m, s_cached = []\<rparr>))"

section \<open>Configurations and requests\<close>

record configuration =
  cfg_Group :: string
  cfg_Key :: string
  cfg_Version :: string
  cfg_Value :: bytes
  cfg_Signature :: string
  cfg_Selectors :: selectors
  cfg_OptionalSelectors :: selectors
  cfg_Timestamp :: int64

definition configuration_zero :: configuration where
  "configuration_zero =
     \<lparr>cfg_Group = [], cfg_Key = [], cfg_Version = [], cfg_Value = [], cfg_Signature = [],
      cfg_Selectors = selectors_zero, cfg_OptionalSelectors = selectors_zero, cfg_Timestamp = 0\<rparr>"

text \<open>The hash \<open>sha256.Sum256\<close> is the parameter \<open>sha\<close>.\<close>

definition GenerateSignature :: "(bytes \<Rightarrow> bytes) \<Rightarrow> configuration \<Rightarrow> string" where
  "GenerateSignature sha c = ''sha256:'' @ hex_encode (sha (cfg_Value c))"

definition ValidateSignature :: "(bytes \<Rightarrow> bytes) \<Rightarrow> configuration \<Rightarrow> bool" where
  "ValidateSignature sha c \<longleftrightarrow> cfg_Signature c = GenerateSignature sha c"

record RequestedConfigurationKey =
  rk_Group :: string
  rk_Key :: string
  rk_Version :: string

record RawConfiguration =
  raw_Group :: string
  raw_Key :: string
  raw_Version :: string
  raw_Value :: bytes

record event =
  ev_Configuration :: "configuration option" \<comment> \<open>\<open>None\<close> is the nil pointer\<close>
  ev_Created :: bool
  ev_Modified :: bool
  ev_Deleted :: bool

record AcquireConfigurationReq =
  aq_Requested :: "RequestedConfigurationKey list"
  aq_Selectors :: selectors
  aq_OptionalSelectors :: selectors

record AcquireConfigurationFailRes =
  af_Code :: string
  af_Message :: string
  af_InfoList :: "string list"

record GetConfigurationRes =
  gc_Code :: string
  gc_Message :: string
  gc_Configuration :: configuration

record PublishReq =
  pr_Configuration :: RawConfiguration
  pr_Selectors :: selectors
  pr_OptionalSelectors :: selectors
  pr_Operator :: string
  pr_Description :: string

record PublishRes =
  ps_Success :: bool
  ps_Code :: string
  ps_Message :: string

section \<open>The canonical text\<close>

lemma TrimSpace_blank: "TrimSpace (CHR '' '' # s) = TrimSpace s"
proof -
  have "find (\<lambda>r. r \<noteq> [] \<and> prefix r (CHR '' '' # s)) space_runes = Some '' ''"
    by (simp add: space_runes_def bstr_def char_of_eq_iff)
  then show ?thesis by (simp add: TrimSpace_def trim_left_with.simps [of space_runes "CHR '' '' # s"])
qed

lemma cache_idem [simp]: "cache (cache s) = cache s"
  by (simp add: cache_def)

lemma cache_Data [simp]: "s_Data (cache s) = s_Data s"
  by (simp add: cache_def)

lemma sort_keys_perm:
  "set m = set m' \<Longrightarrow> gomap_ok m \<Longrightarrow> gomap_ok m' \<Longrightarrow> sort (gokeys m) = sort (gokeys m')"
  unfolding gomap_ok_def
  by (rule sorted_distinct_set_unique) (auto simp: image_def)

text \<open>The canonical text does not depend on the order in which the runtime iterates the map.\<close>

lemma sel_text_perm:
  assumes "set m = set m'" "gomap_ok m" "gomap_ok m'"
  shows "sel_text m = sel_text m'"
proof -
  have "map_of m = map_of m'"
    using assms by (intro map_of_inject_set [THEN iffD2]) (auto simp: gomap_ok_def)
  then show ?thesis using sort_keys_perm [OF assms] by (simp add: sel_text_def)
qed

text \<open>Selector keys and values the text format can carry.\<close>

definition sel_word :: "string \<Rightarrow> bool" where
  "sel_word w \<longleftrightarrow> (\<forall>c \<in> set w. plain_char c \<and> c \<noteq> CHR '','' \<and> c \<noteq> CHR ''='')"

definition sel_plain :: "(string, string) gomap \<Rightarrow> bool" where
  "sel_plain m \<longleftrightarrow> (\<forall>(k, v) \<in> set m. sel_word k \<and> sel_word v)"

lemma sel_item_plain:
  assumes "sel_word k" "sel_word v"
  shows "\<forall>c \<in> set (k @ CHR ''='' # v). plain_char c \<and> c \<noteq> CHR '',''"
  using assms unfolding sel_word_def by (auto simp: plain_char_def)

lemma sel_word_plain: "sel_word w \<Longrightarrow> \<forall>c \<in> set w. plain_char c"
  by (simp add: sel_word_def)

lemma sel_word_no_eq: "sel_word w \<Longrightarrow> CHR ''='' \<notin> set w"
  unfolding sel_word_def by blast

lemma Fill_items_plain:
  assumes "\<forall>k \<in> set ks. sel_word k \<and> sel_word (f k)"
  shows "Fill_items (map (\<lambda>k. k @ CHR ''='' # f k) ks) m =
    Inr (fold (\<lambda>k. AList.update k (f k)) ks m)"
  using assms
proof (induction ks arbitrary: m)
  case (Cons k ks)
  have w: "sel_word k" "sel_word (f k)" using Cons.prems by simp_all
  have "\<forall>c \<in> set (k @ CHR ''='' # f k). plain_char c" using sel_item_plain [OF w] by blast
  note t = TrimSpace_plain [OF this] TrimSpace_plain [OF sel_word_plain [OF w(1)]]
    TrimSpace_plain [OF sel_word_plain [OF w(2)]] sel_word_no_eq [OF w(1)]
  have "Fill_items ((k @ CHR ''='' # f k) # xs) m = Fill_items xs (AList.update k (f k) m)" for xs
    by (simp add: t Index_append [OF t(4)] del: append_Cons)
  then show ?case using Cons.IH Cons.prems by simp
qed simp

lemma map_of_fold_update:
  "map_of (fold (\<lambda>k. AList.update k (f k)) ks m) x = (if x \<in> set ks then Some (f x) else map_of m x)"
  by (induction ks arbitrary: m) (auto simp: update_conv')

lemma gomap_ok_fold_update:
  "gomap_ok m \<Longrightarrow> gomap_ok (fold (\<lambda>k. AList.update k (f k)) ks m)"
  by (induction ks arbitrary: m) auto

lemma Join_plain: "\<forall>s \<in> set ss. \<forall>c \<in> set s. plain_char c \<Longrightarrow> plain_char d \<Longrightarrow> \<forall>c \<in> set (Join d ss). plain_char c"
  by (induction d ss rule: Join.induct) auto

lemma Fill_sel_text:
  assumes "gomap_ok m" "sel_plain m" "m \<noteq> []"
  shows "\<exists>m'. Fill s (sel_text m) = Inr \<lparr>s_Data = m', s_cached = []\<rparr> \<and> gomap_ok m' \<and> map_of m' = map_of m"
proof -
  let ?f = "\<lambda>k. the (map_of m k)"
  let ?items = "map (\<lambda>k. k @ CHR ''='' # ?f k) (sort (gokeys m))"
  have w: "sel_word k \<and> sel_word (?f k)" if k: "k \<in> set (sort (gokeys m))" for k
  proof -
    obtain v where "(k, v) \<in> set m" using k by force
    then have "map_of m k = Some v" using assms(1) by (simp add: gomap_ok_in)
    with \<open>(k, v) \<in> set m\<close> assms(2) show ?thesis by (auto simp: sel_plain_def)
  qed
  have items: "\<forall>s \<in> set ?items. \<forall>c \<in> set s. plain_char c \<and> c \<noteq> CHR '',''"
    using w sel_item_plain by auto
  have comma: "plain_char CHR '',''" by (simp add: plain_char_def)
  have trim: "TrimSpace (sel_text m) = sel_text m"
    using Join_plain [of ?items "CHR '',''"] items comma by (auto simp: sel_text_def)
  have "sort (gokeys m) \<noteq> []" using assms(3) by (metis length_sort length_map length_0_conv)
  then have ne: "?items \<noteq> []" by simp
  then have "Split (CHR '','') (sel_text m) = ?items"
    using items unfolding sel_text_def by (intro Split_Join) auto
  moreover have "sel_text m \<noteq> []"
    using ne by (auto simp: sel_text_def Join_eq_Nil map_eq_Cons_conv)
  moreover have "Fill_items ?items [] = Inr (fold (\<lambda>k. AList.update k (?f k)) (sort (gokeys m)) [])"
    using w by (intro Fill_items_plain) simp
  moreover have "map_of (fold (\<lambda>k. AList.update k (?f k)) (sort (gokeys m)) []) x = map_of m x" for x
    using map_of_eq_None_iff [of m x] unfolding map_of_fold_update by (cases "map_of m x") auto
  ultimately have "Fill s (sel_text m) =
      Inr \<lparr>s_Data = fold (\<lambda>k. AList.update k (?f k)) (sort (gokeys m)) [], s_cached = []\<rparr>"
    and "map_of (fold (\<lambda>k. AList.update k (?f k)) (sort (gokeys m)) []) = map_of m"
    using trim by (simp_all add: Fill_def fun_eq_iff)
  then show ?thesis
    by (intro exI [of _ "fold (\<lambda>k. AList.update k (?f k)) (sort (gokeys m)) []"] conjI
        gomap_ok_fold_update gomap_ok_Nil)
qed


lemma s_wit:
  "gomap_ok [(''env'', ''2''), (''dc'', ''1'')]" "sel_plain [(''env'', ''2''), (''dc'', ''1'')]"
  "[(''env'', ''2''), (''dc'', ''1'')] \<noteq> []"
  by (simp_all add: gomap_ok_def sel_plain_def sel_word_def plain_char_def)


text \<open>An item with a blank before its key is cut at the wrong place: the text
  \<open>dc=1, env=2\<close> is accepted, and its second selector gets the key \<open>en\<close> and the value \<open>=2\<close>.\<close>

theorem Fill_blank_item:
  "Fill s ''dc=1, env=2'' = Inr \<lparr>s_Data = [(''dc'', ''1''), (''en'', ''=2'')], s_cached = []\<rparr>"
proof -
  have t: "TrimSpace '' env=2'' = ''env=2''" "TrimSpace '' en'' = ''en''" "TrimSpace ''dc=1, env=2'' = ''dc=1, env=2''"
    by (simp_all add: TrimSpace_blank TrimSpace_plain TrimSpace_plain_ends plain_char_def)
  show ?thesis by (simp add: Fill_def Let_def t plain_char_def)
qed

end
