(* ===== verification/KvTable.thy ===== *)
theory KvTable
  imports Prelude
begin

text \<open>
  The interface of a keyed table, as the configuration stores and the tables of the simple
  store provide it: what a lookup returns after a put and after a delete. Inside the
  locale: what a lookup returns after any sequence of writes (the last write of the key wins,
  and writes of other keys do not matter).
\<close>

datatype ('k, 'v) kv_op = KvPut 'k 'v | KvDel 'k

fun kv_key :: "('k, 'v) kv_op \<Rightarrow> 'k" where
  "kv_key (KvPut k v) = k"
| "kv_key (KvDel k) = k"

fun kv_effect :: "('k, 'v) kv_op \<Rightarrow> 'v option" where
  "kv_effect (KvPut k v) = Some v"
| "kv_effect (KvDel k) = None"

text \<open>The abstract table: the value of \<open>k\<close> is the effect of the last operation on \<open>k\<close>.\<close>

definition kv_last :: "('k, 'v) kv_op list \<Rightarrow> 'k \<Rightarrow> 'v option \<Rightarrow> 'v option" where
  "kv_last ops k v0 =
     (case filter (\<lambda>p. kv_key p = k) ops of [] \<Rightarrow> v0 | q # qs \<Rightarrow> kv_effect (last (q # qs)))"

lemma kv_last_Nil [simp]: "kv_last [] k v0 = v0"
  by (simp add: kv_last_def)

lemma kv_last_Cons:
  "kv_last (p # ps) k v0 = kv_last ps k (if kv_key p = k then kv_effect p else v0)"
  by (auto simp: kv_last_def split: list.splits)

lemma kv_last_snoc:
  "kv_last (ps @ [p]) k v0 = (if kv_key p = k then kv_effect p else kv_last ps k v0)"
  by (induction ps arbitrary: v0) (auto simp: kv_last_Cons)

locale kv_table =
  fixes get :: "'s \<Rightarrow> 'k \<Rightarrow> 'v option"
    and put :: "'k \<Rightarrow> 'v \<Rightarrow> 's \<Rightarrow> 's"
    and del :: "'k \<Rightarrow> 's \<Rightarrow> 's"
    and ok :: "'s \<Rightarrow> bool"
  assumes get_put: "ok s \<Longrightarrow> get (put k v s) k' = (if k' = k then Some v else get s k')"
    and get_del: "ok s \<Longrightarrow> get (del k s) k' = (if k' = k then None else get s k')"
    and ok_put: "ok s \<Longrightarrow> ok (put k v s)"
    and ok_del: "ok s \<Longrightarrow> ok (del k s)"
begin

fun apply_op :: "('k, 'v) kv_op \<Rightarrow> 's \<Rightarrow> 's" where
  "apply_op (KvPut k v) s = put k v s"
| "apply_op (KvDel k) s = del k s"

lemma get_apply_op:
  "ok s \<Longrightarrow> get (apply_op p s) k = (if kv_key p = k then kv_effect p else get s k)"
  by (cases p) (auto simp: get_put get_del)

lemma ok_apply_op: "ok s \<Longrightarrow> ok (apply_op p s)"
  by (cases p) (auto simp: ok_put ok_del)

lemma ok_fold: "ok s \<Longrightarrow> ok (fold apply_op ops s)"
  by (induction ops arbitrary: s) (auto simp: ok_apply_op)

lemma get_fold: "ok s \<Longrightarrow> get (fold apply_op ops s) k = kv_last ops k (get s k)"
  by (induction ops arbitrary: s) (auto simp: kv_last_Cons get_apply_op ok_apply_op)

lemma fold_frame:
  "ok s \<Longrightarrow> k \<notin> kv_key ` set ops \<Longrightarrow> get (fold apply_op ops s) k = get s k"
  by (induction ops arbitrary: s) (auto simp: get_apply_op ok_apply_op)

end

end
