(* ===== verification/ConfigStore.thy ===== *)
theory ConfigStore
  imports ConfigApi KvTable
begin

text \<open>
  The stores of the configuration server (\<open>configserver/server.core.go\<close>): notification
  channels, \<open>selectorsStore\<close> with its listeners, and the two-level \<open>selectorsMap\<close>.
\<close>

section \<open>Notification channels\<close>

record NotifyEvent =
  ne_Configuration :: configuration

text \<open>A buffered channel; channels live in a heap, a \<open>NotifyChannel\<close> is its index.\<close>

record chan =
  ch_buf :: "NotifyEvent list"
  ch_cap :: nat
  ch_closed :: bool

type_synonym chans = "chan list"
type_synonym NotifyChannel = nat

definition chan_make :: "nat \<Rightarrow> chans \<Rightarrow> NotifyChannel \<times> chans" where
  "chan_make n h = (length h, h @ [\<lparr>ch_buf = [], ch_cap = n, ch_closed = False\<rparr>])"

definition chan_send :: "NotifyChannel \<Rightarrow> NotifyEvent \<Rightarrow> chans \<Rightarrow> chans run" where
  "chan_send c v h =
     (if length h \<le> c then Block
      else if ch_closed (h ! c) then Panic
      else if length (ch_buf (h ! c)) < ch_cap (h ! c)
        then Done (h[c := (h ! c)\<lparr>ch_buf := ch_buf (h ! c) @ [v]\<rparr>])
      else Block)"

definition chan_close :: "NotifyChannel \<Rightarrow> chans \<Rightarrow> chans run" where
  "chan_close c h =
     (if length h \<le> c \<or> ch_closed (h ! c) then Panic
      else Done (h[c := (h ! c)\<lparr>ch_closed := True\<rparr>]))"

text \<open>A receive: \<open>Some (Some v)\<close> a value, \<open>Some None\<close> the end of a closed channel, \<open>None\<close> waits.\<close>

definition chan_recv :: "NotifyChannel \<Rightarrow> chans \<Rightarrow> (NotifyEvent option \<times> chans) option" where
  "chan_recv c h =
     (if length h \<le> c then None
      else case ch_buf (h ! c) of
        v # vs \<Rightarrow> Some (Some v, h[c := (h ! c)\<lparr>ch_buf := vs\<rparr>])
      | [] \<Rightarrow> if ch_closed (h ! c) then Some (None, h) else None)"

section \<open>selectorsStore\<close>

record selectorsStore =
  ss_data :: "string \<Rightarrow> configuration option"
  ss_listeners :: "string \<Rightarrow> (int64, NotifyChannel) gomap option"

definition newSelectorsStore :: selectorsStore where
  "newSelectorsStore = \<lparr>ss_data = (\<lambda>_. None), ss_listeners = (\<lambda>_. None)\<rparr>"

definition cfgKey :: "string \<Rightarrow> string \<Rightarrow> string" where
  "cfgKey grp key = grp @ ''||'' @ key"

definition GetConfiguration :: "selectorsStore \<Rightarrow> string \<Rightarrow> string \<Rightarrow> configuration option" where
  "GetConfiguration s grp key = ss_data s (cfgKey grp key)"

definition RegisterListener ::
  "int64 \<Rightarrow> string \<Rightarrow> string \<Rightarrow> NotifyChannel \<Rightarrow> selectorsStore \<Rightarrow> selectorsStore" where
  "RegisterListener reqid grp key ch s =
     (let k = cfgKey grp key;
          m = (case ss_listeners s k of None \<Rightarrow> [] | Some m \<Rightarrow> m)
      in s\<lparr>ss_listeners := (ss_listeners s)(k \<mapsto> AList.update reqid ch m)\<rparr>)"

text \<open>\<open>delete\<close> on the nil map of a key without listeners does nothing.\<close>

fun CancelWait :: "int64 \<Rightarrow> (string \<times> string) list \<Rightarrow> selectorsStore \<Rightarrow> selectorsStore" where
  "CancelWait reqid [] s = s"
| "CancelWait reqid ((g, k) # vs) s =
     CancelWait reqid vs
       (case ss_listeners s (cfgKey g k) of
          None \<Rightarrow> s
        | Some m \<Rightarrow> s\<lparr>ss_listeners := (ss_listeners s)(cfgKey g k \<mapsto> AList.delete reqid m)\<rparr>)"

text \<open>The loop over the listeners of a key: a send and an entry of \<open>chMap\<close> for each.\<close>

definition notify ::
  "configuration \<Rightarrow> (int64, NotifyChannel) gomap \<Rightarrow> (int64, NotifyChannel) gomap \<Rightarrow> chans \<Rightarrow>
   (chans \<times> (int64, NotifyChannel) gomap) run" where
  "notify c lm chMap h =
     run_fold (\<lambda>(k, ch) (h, chMap).
        run_bind (chan_send ch \<lparr>ne_Configuration = c\<rparr> h) (\<lambda>h'. Done (h', AList.update k ch chMap)))
       lm (h, chMap)"

definition SaveConfigurationWithNotification ::
  "configuration \<Rightarrow> selectorsStore \<Rightarrow> chans \<Rightarrow> (int64, NotifyChannel) gomap \<Rightarrow>
   (selectorsStore \<times> chans \<times> (int64, NotifyChannel) gomap) run" where
  "SaveConfigurationWithNotification c s h chMap =
     (let key = cfgKey (cfg_Group c) (cfg_Key c);
          s = s\<lparr>ss_data := (ss_data s)(key \<mapsto> c)\<rparr>
      in case ss_listeners s key of
           None \<Rightarrow> Done (s, h, chMap)
         | Some lm \<Rightarrow>
             run_bind (notify c lm chMap h) (\<lambda>(h, chMap).
               Done (s\<lparr>ss_listeners := (ss_listeners s)(key := None)\<rparr>, h, chMap)))"

definition DeleteConfiguration :: "configuration \<Rightarrow> selectorsStore \<Rightarrow> selectorsStore" where
  "DeleteConfiguration c s =
     (let key = cfgKey (cfg_Group c) (cfg_Key c)
      in s\<lparr>ss_listeners := (ss_listeners s)(key := None), ss_data := (ss_data s)(key := None)\<rparr>)"

section \<open>selectorsMap\<close>

text \<open>
  A store pointer is written at one place of the map and never replaced, so the pair of the
  keys under which it was created names it: \<open>(sel, [])\<close> is the \<open>SelectorsStore\<close> of the entry
  of \<open>sel\<close>, \<open>(sel, opt)\<close> its \<open>OptSelectorsStore[opt]\<close>.
\<close>

record sel_entry =
  SelectorsStore :: selectorsStore
  OptSelectorsStore :: "string \<Rightarrow> selectorsStore option"

type_synonym selectorsMap = "string \<Rightarrow> sel_entry option"
type_synonym store_ref = "string \<times> string"

fun store_at :: "selectorsMap \<Rightarrow> store_ref \<Rightarrow> selectorsStore option" where
  "store_at m (sel, opt) =
     (case m sel of None \<Rightarrow> None
      | Some v \<Rightarrow> if opt = [] then Some (SelectorsStore v) else OptSelectorsStore v opt)"

fun set_store :: "selectorsMap \<Rightarrow> store_ref \<Rightarrow> selectorsStore \<Rightarrow> selectorsMap" where
  "set_store m (sel, opt) st =
     (case m sel of None \<Rightarrow> m
      | Some v \<Rightarrow>
          m(sel \<mapsto> (if opt = [] then v\<lparr>SelectorsStore := st\<rparr>
                    else v\<lparr>OptSelectorsStore := (OptSelectorsStore v)(opt \<mapsto> st)\<rparr>)))"

definition GetSelectorsGeneral :: "selectorsMap \<Rightarrow> string \<Rightarrow> string \<Rightarrow> store_ref option" where
  "GetSelectorsGeneral m sel opt =
     (case m sel of
        None \<Rightarrow> None
      | Some v \<Rightarrow>
          if opt = [] then Some (sel, [])
          else if OptSelectorsStore v opt \<noteq> None then Some (sel, opt)
          else Some (sel, []))"

definition GetOrCreateSelectorsGeneral ::
  "selectorsMap \<Rightarrow> string \<Rightarrow> string \<Rightarrow> store_ref \<times> selectorsMap" where
  "GetOrCreateSelectorsGeneral m sel opt =
     (case m sel of
        Some v \<Rightarrow>
          if opt = [] then ((sel, []), m)
          else if OptSelectorsStore v opt \<noteq> None then ((sel, opt), m)
          else ((sel, opt),
            m(sel \<mapsto> v\<lparr>OptSelectorsStore := (OptSelectorsStore v)(opt \<mapsto> newSelectorsStore)\<rparr>))
      | None \<Rightarrow>
          let v = \<lparr>SelectorsStore = newSelectorsStore, OptSelectorsStore = (\<lambda>_. None)\<rparr> in
          if opt \<noteq> [] then
            ((sel, opt), m(sel \<mapsto> v\<lparr>OptSelectorsStore := (OptSelectorsStore v)(opt \<mapsto> newSelectorsStore)\<rparr>))
          else ((sel, []), m(sel \<mapsto> v)))"

section \<open>Lemmas: stores as tables\<close>

lemma cfgKey_inj_key: "cfgKey g k = cfgKey g k' \<longleftrightarrow> k = k'"
  by (simp add: cfgKey_def)

lemma store_at_set_store:
  "store_at m r \<noteq> None \<Longrightarrow> store_at (set_store m r st) r' = (if r' = r then Some st else store_at m r')"
  by (cases r; cases r') (auto split: option.splits if_splits)

lemma GetOrCreate_ref: "GetOrCreateSelectorsGeneral m sel opt = (r, m') \<Longrightarrow> r = (sel, opt)"
  by (auto simp: GetOrCreateSelectorsGeneral_def Let_def split: option.splits if_splits)

text \<open>Creation adds empty stores only: the one asked for, and the default one of a new entry.\<close>

lemma store_at_GetOrCreate:
  assumes "GetOrCreateSelectorsGeneral m sel opt = (r, m')"
  shows "store_at m' r' =
    (case store_at m r' of
       Some st \<Rightarrow> Some st
     | None \<Rightarrow> if r' = (sel, opt) \<or> r' = (sel, []) then Some newSelectorsStore else None)"
  using assms
  by (cases r') (auto simp: GetOrCreateSelectorsGeneral_def Let_def split: option.splits if_splits)

lemma GetSelectorsGeneral_store:
  "GetSelectorsGeneral m sel opt = Some r \<Longrightarrow> store_at m r \<noteq> None"
  by (auto simp: GetSelectorsGeneral_def split: option.splits if_splits)

lemma GetSelectorsGeneral_exact:
  "store_at m (sel, opt) \<noteq> None \<Longrightarrow> GetSelectorsGeneral m sel opt = Some (sel, opt)"
  by (auto simp: GetSelectorsGeneral_def split: option.splits if_splits)

lemma GetSelectorsGeneral_fallback:
  "store_at m (sel, opt) = None \<Longrightarrow>
   GetSelectorsGeneral m sel opt = (if store_at m (sel, []) = None then None else Some (sel, []))"
  by (auto simp: GetSelectorsGeneral_def split: option.splits if_splits)

declare store_at.simps [simp del] set_store.simps [simp del]

text \<open>The data of a store is a keyed table.\<close>

definition ss_put :: "string \<Rightarrow> configuration \<Rightarrow> selectorsStore \<Rightarrow> selectorsStore" where
  "ss_put k c s = s\<lparr>ss_data := (ss_data s)(k \<mapsto> c), ss_listeners := (ss_listeners s)(k := None)\<rparr>"

definition ss_del :: "string \<Rightarrow> selectorsStore \<Rightarrow> selectorsStore" where
  "ss_del k s = s\<lparr>ss_data := (ss_data s)(k := None), ss_listeners := (ss_listeners s)(k := None)\<rparr>"

interpretation store_tab: kv_table ss_data ss_put ss_del "\<lambda>_. True"
  by unfold_locales (auto simp: ss_put_def ss_del_def)

lemma Save_store:
  "SaveConfigurationWithNotification c s h chMap = Done (s', h', chMap') \<Longrightarrow>
   s' = ss_put (cfgKey (cfg_Group c) (cfg_Key c)) c s"
  by (cases s) (auto simp: SaveConfigurationWithNotification_def Let_def ss_put_def fun_upd_idem split: option.splits)

lemma Delete_store:
  "DeleteConfiguration c s = ss_del (cfgKey (cfg_Group c) (cfg_Key c)) s"
  by (simp add: DeleteConfiguration_def ss_del_def Let_def)

end
