(* ===== verification/ConfigServer.thy ===== *)
theory ConfigServer
  imports ConfigStore
begin

text \<open>
  The configuration server (\<open>configserver/server.core.go\<close>): retrieval or waiting, and the
  pump loop. Every function under the write or read lock is one atomic operation; a retrieval
  is two of them (the read-locked check, then the write-locked check that registers the
  listeners), with any other operation in between.
\<close>

section \<open>Versions\<close>

locale version_comparator =
  fixes HasUpdate :: "string \<Rightarrow> string \<Rightarrow> bool"
  assumes no_self_update: "\<not> HasUpdate v v"
    and update_asym: "HasUpdate v w \<Longrightarrow> \<not> HasUpdate w v"

definition DefaultHasUpdate :: "string \<Rightarrow> string \<Rightarrow> bool" where
  "DefaultHasUpdate requestVersion dataVersion \<longleftrightarrow> requestVersion < dataVersion"

interpretation default_version: version_comparator DefaultHasUpdate
  by unfold_locales (auto simp: DefaultHasUpdate_def)

section \<open>The server\<close>

definition ErrHasUnknownConfiguration :: go_error where
  "ErrHasUnknownConfiguration = Sentinel ''ErrHasUnknownConfiguration''"

record server =
  sv_cachedId :: int64
  sv_map :: selectorsMap
  sv_chans :: chans

definition newServer :: server where
  "newServer = \<lparr>sv_cachedId = 0, sv_map = (\<lambda>_. None), sv_chans = []\<rparr>"

definition nextId :: "server \<Rightarrow> int64 \<times> server" where
  "nextId s = (sv_cachedId s + 1, s\<lparr>sv_cachedId := sv_cachedId s + 1\<rparr>)"

abbreviation the_store :: "server \<Rightarrow> store_ref \<Rightarrow> selectorsStore" where
  "the_store s r \<equiv> the (store_at (sv_map s) r)"

definition sel_key :: "selectors \<Rightarrow> string" where
  "sel_key s = fst (SelectorsHelperCacheValue s)"

subsection \<open>RetrieveOrWait\<close>

text \<open>The loop over the requested keys; \<open>None\<close> is an unknown configuration.\<close>

fun check_requested ::
  "(string \<Rightarrow> string \<Rightarrow> bool) \<Rightarrow> selectorsStore \<Rightarrow> RequestedConfigurationKey list \<Rightarrow>
   configuration list option" where
  "check_requested hu st [] = Some []"
| "check_requested hu st (v # vs) =
     (case GetConfiguration st (rk_Group v) (rk_Key v) of
        None \<Rightarrow> None
      | Some cfg \<Rightarrow>
          (case check_requested hu st vs of
             None \<Rightarrow> None
           | Some r \<Rightarrow> Some (if hu (rk_Version v) (cfg_Version cfg) then cfg # r else r)))"

text \<open>A closed channel holding the results: \<open>make\<close> with room for them, the sends, \<open>close\<close>.\<close>

definition respond_now :: "configuration list \<Rightarrow> chans \<Rightarrow> (NotifyChannel \<times> chans) run" where
  "respond_now r h =
     (let (ch, h) = chan_make (length r) h in
      run_bind (run_fold (\<lambda>cfg. chan_send ch \<lparr>ne_Configuration = cfg\<rparr>) r h) (\<lambda>h.
      run_bind (chan_close ch h) (\<lambda>h. Done (ch, h))))"

text \<open>A cancel function: nothing, or the store, the request and the keys it was registered for.\<close>

datatype cancel_fn = CancelNothing | CancelListeners store_ref int64 "(string \<times> string) list"

datatype retrieval = RetErr go_error | RetChan NotifyChannel cancel_fn | RetWait

definition req_keys :: "AcquireConfigurationReq \<Rightarrow> (string \<times> string) list" where
  "req_keys req = map (\<lambda>v. (rk_Group v, rk_Key v)) (aq_Requested req)"

text \<open>Step 1, with the read lock held: results, an error, or the wish to wait.\<close>

definition RetrieveCheck ::
  "(string \<Rightarrow> string \<Rightarrow> bool) \<Rightarrow> AcquireConfigurationReq \<Rightarrow> server \<Rightarrow> (retrieval \<times> server) run" where
  "RetrieveCheck hu req s =
     (case GetSelectorsGeneral (sv_map s) (sel_key (aq_Selectors req)) (sel_key (aq_OptionalSelectors req)) of
        None \<Rightarrow> Done (RetErr ErrHasUnknownConfiguration, s)
      | Some r \<Rightarrow>
          (case check_requested hu (the_store s r) (aq_Requested req) of
             None \<Rightarrow> Done (RetErr ErrHasUnknownConfiguration, s)
           | Some [] \<Rightarrow> Done (RetWait, s)
           | Some (c # cs) \<Rightarrow>
               run_bind (respond_now (c # cs) (sv_chans s)) (\<lambda>(ch, h).
                 Done (RetChan ch CancelNothing, s\<lparr>sv_chans := h\<rparr>))))"

text \<open>Step 2, with the write lock held: the same check again, then the registration.\<close>

definition RetrieveRegister ::
  "(string \<Rightarrow> string \<Rightarrow> bool) \<Rightarrow> int64 \<Rightarrow> AcquireConfigurationReq \<Rightarrow> server \<Rightarrow> (retrieval \<times> server) run" where
  "RetrieveRegister hu reqid req s =
     (case GetSelectorsGeneral (sv_map s) (sel_key (aq_Selectors req)) (sel_key (aq_OptionalSelectors req)) of
        None \<Rightarrow> Done (RetErr ErrHasUnknownConfiguration, s)
      | Some r \<Rightarrow>
          (case check_requested hu (the_store s r) (aq_Requested req) of
             None \<Rightarrow> Done (RetErr ErrHasUnknownConfiguration, s)
           | Some (c # cs) \<Rightarrow>
               run_bind (respond_now (c # cs) (sv_chans s)) (\<lambda>(ch, h).
                 Done (RetChan ch CancelNothing, s\<lparr>sv_chans := h\<rparr>))
           | Some [] \<Rightarrow>
               let (notifyCh, h) = chan_make (length (aq_Requested req)) (sv_chans s);
                   st = fold (\<lambda>(g, k). RegisterListener reqid g k notifyCh) (req_keys req) (the_store s r)
               in Done (RetChan notifyCh (CancelListeners r reqid (req_keys req)),
                        s\<lparr>sv_map := set_store (sv_map s) r st, sv_chans := h\<rparr>)))"

fun run_cancel :: "cancel_fn \<Rightarrow> server \<Rightarrow> server" where
  "run_cancel CancelNothing s = s"
| "run_cancel (CancelListeners r reqid wl) s =
     s\<lparr>sv_map := set_store (sv_map s) r (CancelWait reqid wl (the_store s r))\<rparr>"

text \<open>The whole call when nothing runs between its two steps.\<close>

definition RetrieveOrWait ::
  "(string \<Rightarrow> string \<Rightarrow> bool) \<Rightarrow> AcquireConfigurationReq \<Rightarrow> server \<Rightarrow> (retrieval \<times> server) run" where
  "RetrieveOrWait hu req s =
     (let (reqid, s) = nextId s in
      run_bind (RetrieveCheck hu req s) (\<lambda>(r, s).
        if r = RetWait then RetrieveRegister hu reqid req s else Done (r, s)))"

definition GetConfigurationViaPlainRequest ::
  "string \<Rightarrow> string \<Rightarrow> string \<Rightarrow> string \<Rightarrow> server \<Rightarrow> configuration res" where
  "GetConfigurationViaPlainRequest grp key sel opt s =
     (case GetSelectorsGeneral (sv_map s) sel opt of
        None \<Rightarrow> Inl ErrHasUnknownConfiguration
      | Some r \<Rightarrow>
          (case GetConfiguration (the_store s r) grp key of
             None \<Rightarrow> Inl ErrHasUnknownConfiguration
           | Some cfg \<Rightarrow> Inr cfg))"

subsection \<open>The pump\<close>

definition cache_cfg :: "configuration \<Rightarrow> configuration" where
  "cache_cfg c =
     c\<lparr>cfg_Selectors := SelectorsHelperCache (cfg_Selectors c),
       cfg_OptionalSelectors := SelectorsHelperCache (cfg_OptionalSelectors c)\<rparr>"

definition cache_event :: "event \<Rightarrow> event" where
  "cache_event ev = ev\<lparr>ev_Configuration := map_option cache_cfg (ev_Configuration ev)\<rparr>"

definition cfg_store :: "configuration \<Rightarrow> store_ref" where
  "cfg_store c = (sel_key (cfg_Selectors c), sel_key (cfg_OptionalSelectors c))"

abbreviation cfg_id :: "configuration \<Rightarrow> string" where
  "cfg_id c \<equiv> cfgKey (cfg_Group c) (cfg_Key c)"

type_synonym pump_state = "selectorsMap \<times> chans \<times> (int64, NotifyChannel) gomap"

text \<open>\<open>GetOrCreateSelectorsGeneral\<close> and the save or the deletion in the store it gives.\<close>

definition save_event :: "configuration \<Rightarrow> pump_state \<Rightarrow> pump_state run" where
  "save_event c = (\<lambda>(m, h, chMap).
     let (r, m) = GetOrCreateSelectorsGeneral m (sel_key (cfg_Selectors c)) (sel_key (cfg_OptionalSelectors c)) in
     run_bind (SaveConfigurationWithNotification c (the (store_at m r)) h chMap) (\<lambda>(st, h, chMap).
       Done (set_store m r st, h, chMap)))"

definition delete_event :: "configuration \<Rightarrow> pump_state \<Rightarrow> pump_state run" where
  "delete_event c = (\<lambda>(m, h, chMap).
     let (r, m) = GetOrCreateSelectorsGeneral m (sel_key (cfg_Selectors c)) (sel_key (cfg_OptionalSelectors c)) in
     Done (set_store m r (DeleteConfiguration c (the (store_at m r))), h, chMap))"

definition apply_event :: "event \<Rightarrow> pump_state \<Rightarrow> pump_state run" where
  "apply_event ev p =
     (if ev_Created ev \<or> ev_Modified ev then
        (case ev_Configuration ev of None \<Rightarrow> Panic | Some c \<Rightarrow> save_event c p)
      else if ev_Deleted ev then
        (case ev_Configuration ev of None \<Rightarrow> Panic | Some c \<Rightarrow> delete_event c p)
      else Done p)"

text \<open>
  \<open>dedupFn\<close> fills \<open>dedupMap\<close> with the last event of a key, but then copies \<open>events\<close>, not the
  map: it only dereferences every configuration.
\<close>

definition dedup :: "event list \<Rightarrow> event list run" where
  "dedup evs =
     run_bind
       (run_fold (\<lambda>ev dm. case ev_Configuration ev of
            None \<Rightarrow> Panic
          | Some c \<Rightarrow> Done (AList.update (cfg_Group c @ ''||'' @ cfg_Key c) ev dm)) evs [])
       (\<lambda>dedupMap. Done evs)"

definition close_all :: "(int64, NotifyChannel) gomap \<Rightarrow> chans \<Rightarrow> chans run" where
  "close_all chMap h = run_fold (\<lambda>(k, ch). chan_close ch) chMap h"

definition maxCnt :: nat where
  "maxCnt = 50"

text \<open>One turn of the loop: the events waiting in the channel, at most \<open>maxCnt\<close>, and their batch.\<close>

definition pump_batch :: "event list \<Rightarrow> server \<Rightarrow> server run" where
  "pump_batch evs s =
     run_bind (dedup (map cache_event evs)) (\<lambda>evs.
     run_bind (run_fold apply_event evs (sv_map s, sv_chans s, [])) (\<lambda>(m, h, chMap).
     run_bind (close_all chMap h) (\<lambda>h.
       Done (s\<lparr>sv_map := m, sv_chans := h\<rparr>))))"

definition pump_turn :: "event list \<Rightarrow> server \<Rightarrow> (event list \<times> server) run" where
  "pump_turn queue s =
     run_bind (pump_batch (take maxCnt queue) s) (\<lambda>s. Done (drop maxCnt queue, s))"

text \<open>The full dump at the start-up: every event is saved, whatever its kind.\<close>

definition dumpFromPump :: "event list \<Rightarrow> server \<Rightarrow> server run" where
  "dumpFromPump evs s =
     run_bind
       (run_fold (\<lambda>ev p. case ev_Configuration ev of None \<Rightarrow> Panic | Some c \<Rightarrow> save_event (cache_cfg c) p)
          evs (sv_map s, sv_chans s, []))
       (\<lambda>(m, h, chMap). Done (s\<lparr>sv_map := m, sv_chans := h\<rparr>))"

text \<open>\<open>Startup\<close>, with the outcome of the pump's own start-up.\<close>

definition server_Startup :: "unit res \<Rightarrow> event list \<Rightarrow> server \<Rightarrow> (unit res \<times> server) run" where
  "server_Startup pump dump s =
     (case pump of
        Inl e \<Rightarrow> Done (Inl e, s)
      | Inr _ \<Rightarrow> run_bind (dumpFromPump dump s) (\<lambda>s. Done (Inr (), s)))"

section \<open>The abstract content of the stores\<close>

type_synonym contents = "store_ref \<Rightarrow> (string \<Rightarrow> configuration option) option"

definition contents :: "selectorsMap \<Rightarrow> contents" where
  "contents m r = map_option ss_data (store_at m r)"

text \<open>The specification of a batch: a fold of these updates.\<close>

definition abs_open :: "store_ref \<Rightarrow> contents \<Rightarrow> contents" where
  "abs_open r A r' =
     (case A r' of
        Some d \<Rightarrow> Some d
      | None \<Rightarrow> if r' = r \<or> r' = (fst r, []) then Some (\<lambda>_. None) else None)"

definition abs_set :: "configuration \<Rightarrow> configuration option \<Rightarrow> contents \<Rightarrow> contents" where
  "abs_set c v A =
     (let A1 = abs_open (cfg_store c) A
      in A1(cfg_store c \<mapsto> (the (A1 (cfg_store c)))(cfg_id c := v)))"

definition abs_event :: "event \<Rightarrow> contents \<Rightarrow> contents" where
  "abs_event ev A =
     (case ev_Configuration ev of
        None \<Rightarrow> A
      | Some c \<Rightarrow>
          if ev_Created ev \<or> ev_Modified ev then abs_set c (Some c) A
          else if ev_Deleted ev then abs_set c None A
          else A)"

lemma contents_GetOrCreate:
  "GetOrCreateSelectorsGeneral m sel opt = (r, m') \<Longrightarrow> contents m' = abs_open (sel, opt) (contents m)"
  by (rule ext) (auto simp: contents_def abs_open_def store_at_GetOrCreate newSelectorsStore_def
      split: option.splits)

lemma contents_set_store:
  "store_at m r \<noteq> None \<Longrightarrow> contents (set_store m r st) = (contents m)(r \<mapsto> ss_data st)"
  by (rule ext) (simp add: contents_def store_at_set_store)

lemma GetOrCreate_store:
  "GetOrCreateSelectorsGeneral m sel opt = (r, m') \<Longrightarrow> r = (sel, opt) \<and> store_at m' r \<noteq> None"
  using GetOrCreate_ref [of m sel opt r m'] store_at_GetOrCreate [of m sel opt r m' "(sel, opt)"]
  by (auto split: option.splits)

lemma save_event_contents:
  assumes "save_event c (m, h, cm) = Done (m', h', cm')"
  shows "contents m' = abs_set c (Some c) (contents m)"
proof -
  obtain r m1 where g: "GetOrCreateSelectorsGeneral m (sel_key (cfg_Selectors c)) (sel_key (cfg_OptionalSelectors c)) = (r, m1)"
    by (cases "GetOrCreateSelectorsGeneral m (sel_key (cfg_Selectors c)) (sel_key (cfg_OptionalSelectors c))")
  note r = GetOrCreate_store [OF g]
  from assms obtain st where st: "SaveConfigurationWithNotification c (the (store_at m1 r)) h cm = Done (st, h', cm')"
    and m': "m' = set_store m1 r st"
    by (auto simp: save_event_def g)
  have "ss_data (the (store_at m1 r)) = the (contents m1 r)" using r by (auto simp: contents_def)
  then have "ss_data st = (the (contents m1 r))(cfg_id c \<mapsto> c)"
    using Save_store [OF st] by (simp add: ss_put_def)
  then show ?thesis
    using r contents_GetOrCreate [OF g] by (auto simp: m' contents_set_store abs_set_def Let_def cfg_store_def)
qed

lemma delete_event_contents:
  assumes "delete_event c (m, h, cm) = Done (m', h', cm')"
  shows "contents m' = abs_set c None (contents m) \<and> h' = h \<and> cm' = cm"
proof -
  obtain r m1 where g: "GetOrCreateSelectorsGeneral m (sel_key (cfg_Selectors c)) (sel_key (cfg_OptionalSelectors c)) = (r, m1)"
    by (cases "GetOrCreateSelectorsGeneral m (sel_key (cfg_Selectors c)) (sel_key (cfg_OptionalSelectors c))")
  note r = GetOrCreate_store [OF g]
  from assms have m': "m' = set_store m1 r (ss_del (cfg_id c) (the (store_at m1 r)))" "h' = h" "cm' = cm"
    by (auto simp: delete_event_def g Delete_store)
  have "ss_data (the (store_at m1 r)) = the (contents m1 r)" using r by (auto simp: contents_def)
  then show ?thesis
    using r contents_GetOrCreate [OF g] m'
    by (auto simp: contents_set_store abs_set_def Let_def cfg_store_def ss_del_def)
qed

lemma apply_event_contents:
  "apply_event ev (m, h, cm) = Done (m', h', cm') \<Longrightarrow> contents m' = abs_event ev (contents m)"
  by (auto simp: apply_event_def abs_event_def dest: save_event_contents delete_event_contents
      split: if_splits option.splits)

lemma run_events_contents:
  "run_fold apply_event evs (m, h, cm) = Done (m', h', cm') \<Longrightarrow> contents m' = fold abs_event evs (contents m)"
proof (induction evs arbitrary: m h cm)
  case (Cons ev evs)
  then obtain p where p: "apply_event ev (m, h, cm) = Done p" "run_fold apply_event evs p = Done (m', h', cm')"
    by auto
  obtain m1 h1 cm1 where "p = (m1, h1, cm1)" by (cases p)
  with p Cons.IH show ?case by (auto simp: apply_event_contents)
qed simp

lemma dedup_Done: "dedup evs = Done evs' \<Longrightarrow> evs' = evs"
  by (auto simp: dedup_def)

lemma pump_batch_contents:
  assumes "pump_batch evs s = Done s'"
  shows "contents (sv_map s') = fold abs_event (map cache_event evs) (contents (sv_map s))"
  using assms by (auto simp: pump_batch_def dest!: dedup_Done run_events_contents)


section \<open>Channels and their registrations\<close>

lemma chan_send_Done:
  "chan_send c v h = Done h' \<longleftrightarrow> c < length h \<and> \<not> ch_closed (h ! c) \<and> length (ch_buf (h ! c)) < ch_cap (h ! c) \<and>
     h' = h[c := (h ! c)\<lparr>ch_buf := ch_buf (h ! c) @ [v]\<rparr>]"
  by (auto simp: chan_send_def)

text \<open>The channels before and after a loop of sends: only buffers grow.\<close>

definition sent :: "NotifyEvent \<Rightarrow> (int64 \<times> NotifyChannel) list \<Rightarrow> chans \<Rightarrow> chans \<Rightarrow> bool" where
  "sent v lm h h' \<longleftrightarrow> length h' = length h \<and>
     (\<forall>c < length h. h' ! c = (h ! c)\<lparr>ch_buf := ch_buf (h ! c) @ replicate (count_list (map snd lm) c) v\<rparr>)"

definition room :: "(int64 \<times> NotifyChannel) list \<Rightarrow> chans \<Rightarrow> bool" where
  "room lm h \<longleftrightarrow> (\<forall>c \<in> set (map snd lm). c < length h \<and>
     length (ch_buf (h ! c)) + count_list (map snd lm) c \<le> ch_cap (h ! c))"

lemma notify_Cons:
  "notify c ((q, ch) # lm) cm h =
     run_bind (chan_send ch \<lparr>ne_Configuration = c\<rparr> h) (\<lambda>h'. notify c lm (AList.update q ch cm) h')"
  by (cases "chan_send ch \<lparr>ne_Configuration = c\<rparr> h") (simp_all add: notify_def)

lemma notify_Nil: "notify c [] cm h = Done (h, cm)"
  by (simp add: notify_def)

lemma room_Cons:
  assumes "room ((q, ch) # lm) h"
  shows "ch < length h" "length (ch_buf (h ! ch)) < ch_cap (h ! ch)"
    "room lm (h[ch := (h ! ch)\<lparr>ch_buf := ch_buf (h ! ch) @ [v]\<rparr>])"
  using assms by (force simp: room_def nth_list_update)+

lemma notify_not_Block: "room lm h \<Longrightarrow> notify c lm cm h \<noteq> Block"
proof (induction lm arbitrary: h cm)
  case (Cons p lm)
  obtain q ch where p: "p = (q, ch)" by (cases p)
  note r = room_Cons [OF Cons.prems [unfolded p]]
  show ?case
  proof (cases "ch_closed (h ! ch)")
    case True
    then show ?thesis using r by (simp add: p notify_Cons chan_send_def)
  next
    case False
    then show ?thesis using r Cons.IH by (simp add: p notify_Cons chan_send_def)
  qed
qed (simp add: notify_Nil)

lemma notify_Done:
  assumes "room lm h" "\<forall>c \<in> set (map snd lm). \<not> ch_closed (h ! c)"
  shows "\<exists>h'. notify c lm cm h = Done (h', fold (\<lambda>(q, ch). AList.update q ch) lm cm) \<and>
     sent \<lparr>ne_Configuration = c\<rparr> lm h h'"
  using assms
proof (induction lm arbitrary: h cm)
  case (Cons p lm)
  obtain q ch where p: "p = (q, ch)" by (cases p)
  note r = room_Cons [OF Cons.prems(1) [unfolded p]]
  let ?h1 = "h[ch := (h ! ch)\<lparr>ch_buf := ch_buf (h ! ch) @ [\<lparr>ne_Configuration = c\<rparr>]\<rparr>]"
  have s: "chan_send ch \<lparr>ne_Configuration = c\<rparr> h = Done ?h1"
    using r Cons.prems(2) by (simp add: chan_send_Done p)
  have "\<forall>c \<in> set (map snd lm). \<not> ch_closed (?h1 ! c)"
    using Cons.prems r(1) by (auto simp: p nth_list_update)
  from Cons.IH [OF r(3) this] obtain h' where
    h': "notify c lm (AList.update q ch cm) ?h1 = Done (h', fold (\<lambda>(q, ch). AList.update q ch) lm (AList.update q ch cm))"
    "sent \<lparr>ne_Configuration = c\<rparr> lm ?h1 h'" by blast
  have "sent \<lparr>ne_Configuration = c\<rparr> (p # lm) h h'"
    using h'(2) r(1) by (auto simp: sent_def p nth_list_update)
  with s h'(1) show ?case by (simp add: p notify_Cons)
qed (auto simp: notify_Nil sent_def)

lemma notify_sent: "notify c lm cm h = Done (h', cm') \<Longrightarrow> sent \<lparr>ne_Configuration = c\<rparr> lm h h' \<and>
   cm' = fold (\<lambda>(q, ch). AList.update q ch) lm cm"
proof (induction lm arbitrary: h cm)
  case (Cons p lm)
  obtain q ch where p: "p = (q, ch)" by (cases p)
  let ?h1 = "h[ch := (h ! ch)\<lparr>ch_buf := ch_buf (h ! ch) @ [\<lparr>ne_Configuration = c\<rparr>]\<rparr>]"
  have r: "ch < length h" "notify c lm (AList.update q ch cm) ?h1 = Done (h', cm')"
    using Cons.prems by (auto simp: p notify_Cons chan_send_Done)
  from Cons.IH [OF r(2)] r(1) show ?case by (auto simp: p sent_def nth_list_update)
qed (auto simp: notify_Nil sent_def)

text \<open>Who listens: channel \<open>c\<close> is registered for the key \<open>k\<close> of the store \<open>r\<close> under the request \<open>q\<close>.\<close>

definition listeners_of :: "selectorsMap \<Rightarrow> store_ref \<Rightarrow> string \<Rightarrow> (int64, NotifyChannel) gomap" where
  "listeners_of m r k =
     (case store_at m r of None \<Rightarrow> []
      | Some st \<Rightarrow> (case ss_listeners st k of None \<Rightarrow> [] | Some lm \<Rightarrow> lm))"

definition regs :: "selectorsMap \<Rightarrow> NotifyChannel \<Rightarrow> (store_ref \<times> string \<times> int64) set" where
  "regs m c = {(r, k, q). (q, c) \<in> set (listeners_of m r k)}"

lemma listeners_set_store:
  "store_at m r \<noteq> None \<Longrightarrow> listeners_of (set_store m r st) r' k =
    (if r' = r then (case ss_listeners st k of None \<Rightarrow> [] | Some lm \<Rightarrow> lm) else listeners_of m r' k)"
  by (auto simp: listeners_of_def store_at_set_store)

lemma listeners_GetOrCreate:
  "GetOrCreateSelectorsGeneral m sel opt = (r, m') \<Longrightarrow> listeners_of m' = listeners_of m"
  by (auto simp: fun_eq_iff listeners_of_def store_at_GetOrCreate newSelectorsStore_def split: option.splits)

lemma save_event_listeners:
  assumes "save_event c (m, h, cm) = Done (m', h', cm')"
  shows "listeners_of m' r k = (if r = cfg_store c \<and> k = cfg_id c then [] else listeners_of m r k)"
    and "notify c (listeners_of m (cfg_store c) (cfg_id c)) cm h = Done (h', cm')"
proof -
  obtain r0 m1 where g: "GetOrCreateSelectorsGeneral m (sel_key (cfg_Selectors c)) (sel_key (cfg_OptionalSelectors c)) = (r0, m1)"
    by (cases "GetOrCreateSelectorsGeneral m (sel_key (cfg_Selectors c)) (sel_key (cfg_OptionalSelectors c))")
  note r0 = GetOrCreate_store [OF g]
  obtain st0 where st0: "store_at m1 (cfg_store c) = Some st0" using r0 by (auto simp: cfg_store_def)
  have r: "r0 = cfg_store c" using r0 by (simp add: cfg_store_def)
  from assms obtain st where st: "SaveConfigurationWithNotification c st0 h cm = Done (st, h', cm')"
    and m': "m' = set_store m1 (cfg_store c) st"
    by (auto simp: save_event_def g r st0)
  have l: "listeners_of m = listeners_of m1" using listeners_GetOrCreate [OF g] by simp
  show "listeners_of m' r k = (if r = cfg_store c \<and> k = cfg_id c then [] else listeners_of m r k)"
    using Save_store [OF st] st0 unfolding m' l
    by (auto simp: listeners_set_store ss_put_def) (simp add: listeners_of_def)
  have "listeners_of m (cfg_store c) (cfg_id c) = (case ss_listeners st0 (cfg_id c) of None \<Rightarrow> [] | Some lm \<Rightarrow> lm)"
    unfolding l by (simp add: listeners_of_def st0)
  with st show "notify c (listeners_of m (cfg_store c) (cfg_id c)) cm h = Done (h', cm')"
    by (auto simp: SaveConfigurationWithNotification_def Let_def notify_Nil split: option.splits)
qed

lemma save_event_outcome:
  "save_event c (m, h, cm) = Panic \<longleftrightarrow> notify c (listeners_of m (cfg_store c) (cfg_id c)) cm h = Panic"
  "save_event c (m, h, cm) = Block \<longleftrightarrow> notify c (listeners_of m (cfg_store c) (cfg_id c)) cm h = Block"
proof -
  obtain r0 m1 where g: "GetOrCreateSelectorsGeneral m (sel_key (cfg_Selectors c)) (sel_key (cfg_OptionalSelectors c)) = (r0, m1)"
    by (cases "GetOrCreateSelectorsGeneral m (sel_key (cfg_Selectors c)) (sel_key (cfg_OptionalSelectors c))")
  note r0 = GetOrCreate_store [OF g]
  obtain st0 where st0: "store_at m1 (cfg_store c) = Some st0" using r0 by (auto simp: cfg_store_def)
  have r: "r0 = cfg_store c" using r0 by (simp add: cfg_store_def)
  have "listeners_of m (cfg_store c) (cfg_id c) = (case ss_listeners st0 (cfg_id c) of None \<Rightarrow> [] | Some lm \<Rightarrow> lm)"
    using listeners_GetOrCreate [OF g, symmetric] by (simp add: listeners_of_def st0)
  then show "save_event c (m, h, cm) = Panic \<longleftrightarrow> notify c (listeners_of m (cfg_store c) (cfg_id c)) cm h = Panic"
    "save_event c (m, h, cm) = Block \<longleftrightarrow> notify c (listeners_of m (cfg_store c) (cfg_id c)) cm h = Block"
    by (auto simp: save_event_def g r st0 SaveConfigurationWithNotification_def Let_def notify_Nil
        run_bind_Panic run_bind_Block split: option.splits)
qed

lemma delete_event_listeners:
  assumes "delete_event c (m, h, cm) = Done (m', h', cm')"
  shows "listeners_of m' r k = (if r = cfg_store c \<and> k = cfg_id c then [] else listeners_of m r k)"
proof -
  obtain r0 m1 where g: "GetOrCreateSelectorsGeneral m (sel_key (cfg_Selectors c)) (sel_key (cfg_OptionalSelectors c)) = (r0, m1)"
    by (cases "GetOrCreateSelectorsGeneral m (sel_key (cfg_Selectors c)) (sel_key (cfg_OptionalSelectors c))")
  note r0 = GetOrCreate_store [OF g]
  obtain st0 where st0: "store_at m1 (cfg_store c) = Some st0" using r0 by (auto simp: cfg_store_def)
  have r: "r0 = cfg_store c" using r0 by (simp add: cfg_store_def)
  have m': "m' = set_store m1 (cfg_store c) (ss_del (cfg_id c) st0)"
    using assms by (auto simp: delete_event_def g r st0 Delete_store)
  have l: "listeners_of m = listeners_of m1" using listeners_GetOrCreate [OF g] by simp
  show ?thesis unfolding m' l using st0
    by (auto simp: listeners_set_store ss_del_def) (simp add: listeners_of_def)
qed

end
