(* ===== verification/ConfigChannels.thy ===== *)
theory ConfigChannels
  imports ConfigServer
begin

text \<open>
  The notification channels of the configuration server during a pump batch: every channel has
  room for all its registrations, so no send blocks; while the registered channels are open and
  each belongs to one request, no send and no close panics.
\<close>

section \<open>The room in the channels\<close>

definition chan_inv :: "selectorsMap \<Rightarrow> chans \<Rightarrow> bool" where
  "chan_inv m h \<longleftrightarrow>
     (\<forall>r k. gomap_ok (listeners_of m r k)) \<and>
     (\<forall>c. finite (regs m c)) \<and>
     (\<forall>c. regs m c \<noteq> {} \<longrightarrow> c < length h) \<and>
     (\<forall>c < length h. length (ch_buf (h ! c)) + card (regs m c) \<le> ch_cap (h ! c))"

lemma chan_invD:
  assumes "chan_inv m h"
  shows "gomap_ok (listeners_of m r k)" "finite (regs m c)" "regs m c \<noteq> {} \<Longrightarrow> c < length h"
    "c < length h \<Longrightarrow> length (ch_buf (h ! c)) + card (regs m c) \<le> ch_cap (h ! c)"
  using assms unfolding chan_inv_def by blast+

lemma chan_invI:
  assumes "\<And>r k. gomap_ok (listeners_of m r k)" "\<And>c. finite (regs m c)"
    "\<And>c. regs m c \<noteq> {} \<Longrightarrow> c < length h"
    "\<And>c. c < length h \<Longrightarrow> length (ch_buf (h ! c)) + card (regs m c) \<le> ch_cap (h ! c)"
  shows "chan_inv m h"
  using assms unfolding chan_inv_def by blast

lemma count_listeners:
  "gomap_ok lm \<Longrightarrow> count_list (map snd lm) c = card {q. (q, c) \<in> set lm}"
proof (induction lm)
  case (Cons p lm)
  obtain q d where p: "p = (q, d)" by (cases p)
  have g: "gomap_ok lm" "q \<notin> fst ` set lm" using Cons.prems by (auto simp: gomap_ok_def p)
  have "finite {q. (q, c) \<in> set lm}"
    by (rule finite_subset [of _ "fst ` set lm"]) force+
  moreover have "{x. (x, c) \<in> set (p # lm)} = (if d = c then insert q {x. (x, c) \<in> set lm} else {x. (x, c) \<in> set lm})"
    by (auto simp: p)
  moreover have "q \<notin> {x. (x, c) \<in> set lm}" using g(2) by force
  ultimately show ?case using Cons.IH g(1) by (simp add: p)
qed simp

lemma regs_removed:
  assumes "\<And>r k. listeners_of m' r k = (if r = r0 \<and> k = k0 then [] else listeners_of m r k)"
  shows "regs m c = regs m' c \<union> (\<lambda>q. (r0, k0, q)) ` {q. (q, c) \<in> set (listeners_of m r0 k0)}"
    and "regs m' c \<inter> (\<lambda>q. (r0, k0, q)) ` {q. (q, c) \<in> set (listeners_of m r0 k0)} = {}"
    and "regs m' c \<subseteq> regs m c"
  by (auto simp: regs_def assms split: if_splits)

lemma card_regs_removed:
  assumes "chan_inv m h"
    and l: "\<And>r k. listeners_of m' r k = (if r = r0 \<and> k = k0 then [] else listeners_of m r k)"
  shows "card (regs m c) = card (regs m' c) + count_list (map snd (listeners_of m r0 k0)) c"
proof -
  have f: "finite (regs m c)" using assms(1) by (simp add: chan_inv_def)
  note r = regs_removed [OF l]
  have "card (regs m c) = card (regs m' c) + card ((\<lambda>q. (r0, k0, q)) ` {q. (q, c) \<in> set (listeners_of m r0 k0)})"
    using f r [of c] by (metis card_Un_disjoint finite_Un)
  also have "card ((\<lambda>q. (r0, k0, q)) ` {q. (q, c) \<in> set (listeners_of m r0 k0)}) =
      card {q. (q, c) \<in> set (listeners_of m r0 k0)}"
    by (intro card_image inj_onI) simp
  also have "\<dots> = count_list (map snd (listeners_of m r0 k0)) c"
    by (rule count_listeners [OF chan_invD(1) [OF assms(1)], symmetric])
  finally show ?thesis .
qed

lemma chan_inv_less:
  assumes "chan_inv m h" and "(q, c) \<in> set (listeners_of m r k)"
  shows "c < length h"
proof -
  have "(r, k, q) \<in> regs m c" using assms(2) by (simp add: regs_def)
  then show ?thesis using chan_invD(3) [OF assms(1)] by blast
qed

lemma chan_inv_room:
  assumes "chan_inv m h"
  shows "room (listeners_of m r k) h"
  unfolding room_def
proof
  fix c assume c: "c \<in> set (map snd (listeners_of m r k))"
  then obtain q where "(q, c) \<in> set (listeners_of m r k)" by force
  then have len: "c < length h" by (rule chan_inv_less [OF assms])
  have "count_list (map snd (listeners_of m r k)) c = card {q. (q, c) \<in> set (listeners_of m r k)}"
    by (rule count_listeners [OF chan_invD(1) [OF assms]])
  also have "\<dots> = card ((\<lambda>q. (r, k, q)) ` {q. (q, c) \<in> set (listeners_of m r k)})"
    by (intro card_image [symmetric] inj_onI) simp
  also have "\<dots> \<le> card (regs m c)"
    by (rule card_mono [OF chan_invD(2) [OF assms]]) (auto simp: regs_def)
  finally have "length (ch_buf (h ! c)) + count_list (map snd (listeners_of m r k)) c \<le> ch_cap (h ! c)"
    using chan_invD(4) [OF assms len] by simp
  with len show "c < length h \<and> length (ch_buf (h ! c)) + count_list (map snd (listeners_of m r k)) c \<le> ch_cap (h ! c)"
    by simp
qed

lemma chan_inv_removed:
  assumes i: "chan_inv m h"
    and l: "\<And>r k. listeners_of m' r k = (if r = r0 \<and> k = k0 then [] else listeners_of m r k)"
    and s: "sent v (listeners_of m r0 k0) h h'"
  shows "chan_inv m' h'"
proof (rule chan_invI)
  show "gomap_ok (listeners_of m' r k)" for r k using chan_invD(1) [OF i, of r k] by (simp add: l)
  note sub = regs_removed(3) [OF l]
  show "finite (regs m' c)" for c using sub chan_invD(2) [OF i] by (rule finite_subset)
  show "c < length h'" if "regs m' c \<noteq> {}" for c
    using that sub [of c] chan_invD(3) [OF i, of c] s by (auto simp: sent_def)
  show "length (ch_buf (h' ! c)) + card (regs m' c) \<le> ch_cap (h' ! c)" if "c < length h'" for c
  proof -
    have c: "c < length h" using that s by (simp add: sent_def)
    have "h' ! c = (h ! c)\<lparr>ch_buf := ch_buf (h ! c) @ replicate (count_list (map snd (listeners_of m r0 k0)) c) v\<rparr>"
      using s c unfolding sent_def by blast
    then show ?thesis using chan_invD(4) [OF i c] card_regs_removed [OF i l, of c] by simp
  qed
qed

lemma chan_inv_dropped:
  assumes i: "chan_inv m h"
    and l: "\<And>r k. listeners_of m' r k = (if r = r0 \<and> k = k0 then [] else listeners_of m r k)"
  shows "chan_inv m' h"
proof (rule chan_invI)
  show "gomap_ok (listeners_of m' r k)" for r k using chan_invD(1) [OF i, of r k] by (simp add: l)
  note sub = regs_removed(3) [OF l]
  show "finite (regs m' c)" for c using sub chan_invD(2) [OF i] by (rule finite_subset)
  show "c < length h" if "regs m' c \<noteq> {}" for c
    using that sub [of c] chan_invD(3) [OF i, of c] by auto
  show "length (ch_buf (h ! c)) + card (regs m' c) \<le> ch_cap (h ! c)" if "c < length h" for c
    using chan_invD(4) [OF i that] card_regs_removed [OF i l, of c] by simp
qed

definition pump_inv :: "pump_state \<Rightarrow> bool" where
  "pump_inv = (\<lambda>(m, h, cm). chan_inv m h)"

lemma apply_event_chan_inv:
  assumes "chan_inv m h" and "apply_event ev (m, h, cm) = Done (m', h', cm')"
  shows "chan_inv m' h'"
proof -
  have s: "chan_inv m' h'" if "save_event c (m, h, cm) = Done (m', h', cm')" for c
    using chan_inv_removed [OF assms(1) save_event_listeners(1) [OF that]]
      notify_sent [OF save_event_listeners(2) [OF that]] by blast
  have d: "chan_inv m' h'" if "delete_event c (m, h, cm) = Done (m', h', cm')" for c
    using chan_inv_dropped [OF assms(1) delete_event_listeners [OF that]] delete_event_contents [OF that] by simp
  show ?thesis using assms s d by (auto simp: apply_event_def split: if_splits option.splits)
qed

lemma delete_event_Done: "\<exists>p. delete_event c s = Done p"
  by (cases s) (auto simp: delete_event_def split: prod.splits)

lemma apply_event_not_Block: "chan_inv m h \<Longrightarrow> apply_event ev (m, h, cm) \<noteq> Block"
  using notify_not_Block [OF chan_inv_room] delete_event_Done [of _ "(m, h, cm)"]
  by (auto simp: apply_event_def save_event_outcome split: if_splits option.splits)
    (metis run.distinct(3))

lemma close_all_not_Block: "close_all cm h \<noteq> Block"
proof -
  have "run_fold (\<lambda>(k, ch). chan_close ch) cm h \<noteq> Block"
    by (rule run_fold_not_Block [where I = "\<lambda>_. True"]) (auto simp: chan_close_def split: if_splits)
  then show ?thesis by (simp add: close_all_def)
qed

lemma dedup_not_Block: "dedup evs \<noteq> Block"
proof -
  have "run_fold f evs [] \<noteq> Block" if "\<And>ev dm. f ev dm \<noteq> Block" for f :: "event \<Rightarrow> (string \<times> event) list \<Rightarrow> _"
    by (rule run_fold_not_Block [where I = "\<lambda>_. True"]) (auto simp: that)
  then show ?thesis by (auto simp: dedup_def run_bind_Block split: option.splits)
qed

lemma pump_batch_not_Block:
  assumes "chan_inv (sv_map s) (sv_chans s)"
  shows "pump_batch evs s \<noteq> Block"
proof -
  have "run_fold apply_event xs (sv_map s, sv_chans s, []) \<noteq> Block" for xs
    by (rule run_fold_not_Block [where I = pump_inv])
      (auto simp: pump_inv_def assms apply_event_not_Block dest: apply_event_chan_inv)
  then show ?thesis
    using dedup_not_Block close_all_not_Block
    by (auto simp: pump_batch_def run_bind_Block split: prod.splits)
qed

section \<open>Open channels: no panic\<close>

definition owners :: "selectorsMap \<Rightarrow> bool" where
  "owners m \<longleftrightarrow> (\<forall>c. \<forall>t \<in> regs m c. \<forall>u \<in> regs m c. snd (snd t) = snd (snd u))"

definition open_regs :: "selectorsMap \<Rightarrow> chans \<Rightarrow> bool" where
  "open_regs m h \<longleftrightarrow> (\<forall>c. regs m c \<noteq> {} \<longrightarrow> \<not> ch_closed (h ! c))"

text \<open>A channel of \<open>chMap\<close>: open, and registered, if at all, under the request of its entry.\<close>

definition closing :: "selectorsMap \<Rightarrow> chans \<Rightarrow> int64 \<Rightarrow> NotifyChannel \<Rightarrow> bool" where
  "closing m h q c \<longleftrightarrow> c < length h \<and> \<not> ch_closed (h ! c) \<and> (\<forall>t \<in> regs m c. snd (snd t) = q)"

definition to_close_ok :: "selectorsMap \<Rightarrow> chans \<Rightarrow> (int64, NotifyChannel) gomap \<Rightarrow> bool" where
  "to_close_ok m h cm \<longleftrightarrow> gomap_ok cm \<and>
     (\<forall>p \<in> set cm. closing m h (fst p) (snd p)) \<and>
     (\<forall>p \<in> set cm. \<forall>p' \<in> set cm. snd p = snd p' \<longrightarrow> fst p = fst p')"

lemma gomap_ok_updates: "gomap_ok cm \<Longrightarrow> gomap_ok (fold (\<lambda>(q, ch). AList.update q ch) lm cm)"
  by (induction lm arbitrary: cm) auto

lemma set_updates: "set (fold (\<lambda>(q, ch). AList.update q ch) lm cm) \<subseteq> set lm \<union> set cm"
proof (induction lm arbitrary: cm)
  case (Cons p lm)
  obtain q c where "p = (q, c)" by (cases p)
  then show ?case using Cons.IH [of "AList.update q c cm"] set_alist_update_subset [of q c cm] by auto
qed simp

definition batch_inv :: "pump_state \<Rightarrow> bool" where
  "batch_inv = (\<lambda>(m, h, cm). chan_inv m h \<and> owners m \<and> open_regs m h \<and> to_close_ok m h cm)"

lemma regs_shrink:
  assumes "\<And>r k. listeners_of m' r k = (if r = r0 \<and> k = k0 then [] else listeners_of m r k)"
  shows "owners m \<Longrightarrow> owners m'" "open_regs m h \<Longrightarrow> open_regs m' h"
    "closing m h q c \<Longrightarrow> closing m' h q c"
proof -
  have sub: "regs m' c \<subseteq> regs m c" for c by (rule regs_removed(3) [OF assms])
  show "owners m \<Longrightarrow> owners m'" unfolding owners_def using sub by blast
  show "open_regs m h \<Longrightarrow> open_regs m' h" unfolding open_regs_def using sub by blast
  show "closing m h q c \<Longrightarrow> closing m' h q c" unfolding closing_def using sub by blast
qed

lemma closing_listener:
  assumes "chan_inv m h" "owners m" "open_regs m h" "p \<in> set (listeners_of m r k)"
  shows "closing m h (fst p) (snd p)"
proof -
  have t: "(r, k, fst p) \<in> regs m (snd p)" using assms(4) by (simp add: regs_def)
  have "snd (snd u) = fst p" if "u \<in> regs m (snd p)" for u
  proof -
    have "snd (snd u) = snd (snd (r, k, fst p))" using that t assms(2) unfolding owners_def by blast
    then show ?thesis by simp
  qed
  moreover have ne: "regs m (snd p) \<noteq> {}" using t by blast
  moreover have "snd p < length h" by (rule chan_invD(3) [OF assms(1) ne])
  moreover have "\<not> ch_closed (h ! snd p)" using ne assms(3) unfolding open_regs_def by blast
  ultimately show ?thesis unfolding closing_def by blast
qed

lemma to_close_updates:
  assumes "chan_inv m h" "owners m" "open_regs m h" "to_close_ok m h cm"
  shows "to_close_ok m h (fold (\<lambda>(q, ch). AList.update q ch) (listeners_of m r k) cm)"
proof -
  let ?lm = "listeners_of m r k" and ?cm = "fold (\<lambda>(q, ch). AList.update q ch) (listeners_of m r k) cm"
  have sub: "p \<in> set ?lm \<or> p \<in> set cm" if "p \<in> set ?cm" for p
    using that set_updates [of ?lm cm] by blast
  have cl: "closing m h (fst p) (snd p)" if "p \<in> set ?cm" for p
    using sub [OF that] closing_listener [OF assms(1-3)] assms(4) unfolding to_close_ok_def by blast
  have own: "fst p = fst p'" if "p \<in> set ?lm" "closing m h (fst p') (snd p')" "snd p = snd p'" for p p'
  proof -
    have "(r, k, fst p) \<in> regs m (snd p')" using that(1,3) by (simp add: regs_def flip: that(3))
    then have "snd (snd (r, k, fst p)) = fst p'" using that(2) unfolding closing_def by blast
    then show ?thesis by simp
  qed
  have "fst p = fst p'" if "p \<in> set ?cm" "p' \<in> set ?cm" "snd p = snd p'" for p p'
  proof (cases "p \<in> set ?lm")
    case True
    then show ?thesis using own cl [OF that(2)] that(3) by blast
  next
    case False
    then have p: "p \<in> set cm" using sub [OF that(1)] by blast
    show ?thesis
    proof (cases "p' \<in> set ?lm")
      case True
      then have "fst p' = fst p" using own cl [OF that(1)] that(3) [symmetric] by blast
      then show ?thesis by (rule sym)
    next
      case False
      then have "p' \<in> set cm" using sub [OF that(2)] by blast
      then show ?thesis using p assms(4) that(3) unfolding to_close_ok_def by blast
    qed
  qed
  then show ?thesis
    using cl gomap_ok_updates [of cm ?lm] assms(4) unfolding to_close_ok_def by blast
qed

lemma sent_closed:
  "sent v lm h h' \<Longrightarrow> length h' = length h \<and> (\<forall>c < length h. ch_closed (h' ! c) = ch_closed (h ! c))"
  by (simp add: sent_def)

lemma save_event_Done:
  assumes "batch_inv (m, h, cm)"
  shows "\<exists>p. save_event c (m, h, cm) = Done p \<and> batch_inv p"
proof -
  let ?lm = "listeners_of m (cfg_store c) (cfg_id c)"
  let ?cm = "fold (\<lambda>(q, ch). AList.update q ch) ?lm cm"
  have i: "chan_inv m h" "owners m" "open_regs m h" "to_close_ok m h cm"
    using assms by (simp_all add: batch_inv_def)
  have "\<not> ch_closed (h ! snd p)" if "p \<in> set ?lm" for p
    using closing_listener [OF i(1-3) that] by (simp add: closing_def)
  then have op: "\<forall>d \<in> set (map snd ?lm). \<not> ch_closed (h ! d)" by auto
  obtain h' where n: "notify c ?lm cm h = Done (h', ?cm)"
    and s: "sent \<lparr>ne_Configuration = c\<rparr> ?lm h h'"
    using notify_Done [OF chan_inv_room [OF i(1)] op] by blast
  have "save_event c (m, h, cm) \<noteq> Panic" "save_event c (m, h, cm) \<noteq> Block"
    using n by (simp_all add: save_event_outcome)
  then obtain p where p: "save_event c (m, h, cm) = Done p" by (cases "save_event c (m, h, cm)") auto
  obtain m' h2 cm2 where pe: "p = (m', h2, cm2)" by (cases p)
  note l = save_event_listeners [OF p [unfolded pe]]
  have e: "h2 = h'" "cm2 = ?cm" using l(2) n by simp_all
  note cl = sent_closed [OF s]
  have ci: "chan_inv m' h'" by (rule chan_inv_removed [OF i(1) l(1) s])
  have t: "to_close_ok m h ?cm" by (rule to_close_updates [OF i])
  have "closing m' h' (fst p) (snd p)" if "p \<in> set ?cm" for p
  proof -
    have "closing m' h (fst p) (snd p)"
      using t that regs_shrink(3) [OF l(1)] unfolding to_close_ok_def by blast
    then show ?thesis using cl by (simp add: closing_def)
  qed
  then have "to_close_ok m' h' ?cm" using t unfolding to_close_ok_def by blast
  moreover have "open_regs m' h'"
    using regs_shrink(2) [OF l(1) i(3)] cl chan_invD(3) [OF ci] unfolding open_regs_def by metis
  ultimately have "batch_inv p"
    using ci regs_shrink(1) [OF l(1) i(2)] by (simp add: batch_inv_def pe e)
  with p show ?thesis by blast
qed

lemma delete_event_inv:
  assumes "batch_inv (m, h, cm)" and "delete_event c (m, h, cm) = Done p"
  shows "batch_inv p"
proof -
  obtain m' h' cm' where p: "p = (m', h', cm')" by (cases p)
  note l = delete_event_listeners [OF assms(2) [unfolded p]]
  have e: "h' = h" "cm' = cm" using delete_event_contents [OF assms(2) [unfolded p]] by simp_all
  have i: "chan_inv m h" "owners m" "open_regs m h" "to_close_ok m h cm"
    using assms by (simp_all add: batch_inv_def)
  have "to_close_ok m' h cm" using i(4) regs_shrink(3) [OF l] unfolding to_close_ok_def by blast
  then show ?thesis
    using chan_inv_dropped [OF i(1) l] regs_shrink(1,2) [OF l] i by (simp add: batch_inv_def p e)
qed

definition no_nil :: "event list \<Rightarrow> bool" where
  "no_nil evs \<longleftrightarrow> (\<forall>ev \<in> set evs. ev_Configuration ev \<noteq> None)"

lemma apply_event_Done:
  assumes "ev_Configuration ev \<noteq> None" "batch_inv p"
  shows "\<exists>p'. apply_event ev p = Done p' \<and> batch_inv p'"
proof -
  obtain m h cm where p: "p = (m, h, cm)" by (cases p)
  obtain c where c: "ev_Configuration ev = Some c" using assms(1) by auto
  show ?thesis
    using save_event_Done [OF assms(2) [unfolded p], of c] delete_event_Done [of c "(m, h, cm)"]
      delete_event_inv [OF assms(2) [unfolded p], of c] assms(2)
    by (auto simp: apply_event_def c p)
qed

lemma dedup_no_nil: "no_nil evs \<Longrightarrow> dedup evs = Done evs"
proof -
  assume n: "no_nil evs"
  have "\<exists>dm. run_fold (\<lambda>ev dm. case ev_Configuration ev of None \<Rightarrow> Panic
      | Some c \<Rightarrow> Done (AList.update (cfg_Group c @ ''||'' @ cfg_Key c) ev dm)) evs [] = Done dm \<and> True"
    using n by (intro run_fold_Done) (auto simp: no_nil_def)
  then show ?thesis by (auto simp: dedup_def)
qed

text \<open>Closing the collected channels: only the flags of those channels change.\<close>

lemma close_all_Done:
  assumes "distinct (map snd cm)" "\<forall>c \<in> set (map snd cm). c < length h \<and> \<not> ch_closed (h ! c)"
  shows "\<exists>h'. close_all cm h = Done h' \<and> length h' = length h \<and>
    (\<forall>c < length h. h' ! c = (h ! c)\<lparr>ch_closed := ch_closed (h ! c) \<or> c \<in> set (map snd cm)\<rparr>)"
  using assms
proof (induction cm arbitrary: h)
  case (Cons p cm)
  obtain q d where p: "p = (q, d)" by (cases p)
  let ?h = "h[d := (h ! d)\<lparr>ch_closed := True\<rparr>]"
  have "\<forall>c \<in> set (map snd cm). c < length ?h \<and> \<not> ch_closed (?h ! c)"
    using Cons.prems by (auto simp: p nth_list_update)
  with Cons.IH [of ?h] Cons.prems obtain h' where h': "close_all cm ?h = Done h'" "length h' = length h"
    "\<forall>c < length h. h' ! c = (?h ! c)\<lparr>ch_closed := ch_closed (?h ! c) \<or> c \<in> set (map snd cm)\<rparr>"
    by auto
  have "close_all (p # cm) h = Done h'"
    using h'(1) Cons.prems by (simp add: close_all_def p chan_close_def)
  moreover have "h' ! c = (h ! c)\<lparr>ch_closed := ch_closed (h ! c) \<or> c \<in> set (map snd (p # cm))\<rparr>" if "c < length h" for c
    using h'(3) that Cons.prems by (auto simp: p nth_list_update)
  ultimately show ?case using h'(2) by auto
qed (simp add: close_all_def)

lemma to_close_distinct:
  assumes "to_close_ok m h cm"
  shows "distinct (map snd cm)"
proof -
  have "distinct (map fst cm)" using assms by (simp add: to_close_ok_def gomap_ok_def)
  then have d: "distinct cm" "inj_on fst (set cm)" by (simp_all add: distinct_map)
  have "inj_on snd (set cm)"
  proof (rule inj_onI)
    fix p p' assume "p \<in> set cm" "p' \<in> set cm" "snd p = snd p'"
    moreover from this have "fst p = fst p'" using assms unfolding to_close_ok_def by blast
    ultimately show "p = p'" by (metis prod.collapse)
  qed
  with d show ?thesis by (simp add: distinct_map)
qed

lemma no_nil_cache: "no_nil evs \<Longrightarrow> no_nil (map cache_event evs)"
  by (simp add: no_nil_def cache_event_def)

lemma pump_batch_Done:
  assumes "chan_inv (sv_map s) (sv_chans s)" "owners (sv_map s)" "open_regs (sv_map s) (sv_chans s)" "no_nil evs"
  shows "\<exists>m h cm h'. run_fold apply_event (map cache_event evs) (sv_map s, sv_chans s, []) = Done (m, h, cm) \<and>
    batch_inv (m, h, cm) \<and> length h' = length h \<and>
    (\<forall>c < length h. h' ! c = (h ! c)\<lparr>ch_closed := ch_closed (h ! c) \<or> c \<in> set (map snd cm)\<rparr>) \<and>
    pump_batch evs s = Done (s\<lparr>sv_map := m, sv_chans := h'\<rparr>)"
proof -
  let ?evs = "map cache_event evs"
  have n: "no_nil ?evs" by (rule no_nil_cache [OF assms(4)])
  have "batch_inv (sv_map s, sv_chans s, [])" using assms by (simp add: batch_inv_def to_close_ok_def)
  then have "\<exists>p. run_fold apply_event ?evs (sv_map s, sv_chans s, []) = Done p \<and> batch_inv p"
    using n apply_event_Done by (intro run_fold_Done) (auto simp: no_nil_def)
  then obtain m h cm where r: "run_fold apply_event ?evs (sv_map s, sv_chans s, []) = Done (m, h, cm)"
    and b: "batch_inv (m, h, cm)" by (metis prod_cases3)
  have t: "to_close_ok m h cm" using b by (simp add: batch_inv_def)
  then have "\<forall>c \<in> set (map snd cm). c < length h \<and> \<not> ch_closed (h ! c)"
    by (auto simp: to_close_ok_def closing_def)
  from close_all_Done [OF to_close_distinct [OF t] this] obtain h' where "close_all cm h = Done h'" "length h' = length h"
    "\<forall>c < length h. h' ! c = (h ! c)\<lparr>ch_closed := ch_closed (h ! c) \<or> c \<in> set (map snd cm)\<rparr>"
    by blast
  with r b dedup_no_nil [OF n] show ?thesis by (auto simp: pump_batch_def)
qed

definition wait_keys :: "(string \<times> string) list \<Rightarrow> string list" where
  "wait_keys wl = map (\<lambda>p. cfgKey (fst p) (snd p)) wl"

lemma wait_keys_simps [simp]:
  "wait_keys [] = []" "wait_keys ((g, k) # wl) = cfgKey g k # wait_keys wl" "length (wait_keys wl) = length wl"
  by (simp_all add: wait_keys_def)

end
