(* ===== verification/ConfigWaits.thy ===== *)
theory ConfigWaits
  imports ConfigChannels
begin

text \<open>
  The configuration server as a transition system: retrievals (each in its two locked steps),
  pump batches, cancellations and receives in any order. The invariant of its reachable states:
  room in the channels, one request per channel, a pending cancel function for every
  registration. From it: who is notified, the servers of one-key requests, and what a
  retrieval returns.
\<close>

section \<open>The operations and the listeners\<close>

lemma run_sends_fresh:
  assumes "length (ch_buf ch) + length r \<le> ch_cap ch" "\<not> ch_closed ch"
  shows "run_fold (\<lambda>cfg. chan_send (length h) \<lparr>ne_Configuration = cfg\<rparr>) r (h @ [ch]) =
    Done (h @ [ch\<lparr>ch_buf := ch_buf ch @ map (\<lambda>cfg. \<lparr>ne_Configuration = cfg\<rparr>) r\<rparr>])"
  using assms
proof (induction r arbitrary: ch)
  case (Cons c r)
  have "chan_send (length h) \<lparr>ne_Configuration = c\<rparr> (h @ [ch]) = Done (h @ [ch\<lparr>ch_buf := ch_buf ch @ [\<lparr>ne_Configuration = c\<rparr>]\<rparr>])"
    using Cons.prems by (simp add: chan_send_def)
  then show ?case using Cons.IH [of "ch\<lparr>ch_buf := ch_buf ch @ [\<lparr>ne_Configuration = c\<rparr>]\<rparr>"] Cons.prems by simp
qed simp

lemma respond_now_Done:
  "respond_now r h = Done (length h,
     h @ [\<lparr>ch_buf = map (\<lambda>cfg. \<lparr>ne_Configuration = cfg\<rparr>) r, ch_cap = length r, ch_closed = True\<rparr>])"
  using run_sends_fresh [of "\<lparr>ch_buf = [], ch_cap = length r, ch_closed = False\<rparr>" r h]
  by (simp add: respond_now_def chan_make_def chan_close_def)

lemma listeners_Register:
  "(case ss_listeners (RegisterListener q g k ch st) k' of None \<Rightarrow> [] | Some lm \<Rightarrow> lm) =
    (let lm = (case ss_listeners st k' of None \<Rightarrow> [] | Some lm \<Rightarrow> lm)
     in if k' = cfgKey g k then AList.update q ch lm else lm)"
  by (auto simp: RegisterListener_def Let_def split: option.splits)

lemma alist_update_twice: "AList.update k v (AList.update k v m) = AList.update k v m"
  by (induction m) auto

lemma listeners_Registers:
  "(case ss_listeners (fold (\<lambda>(g, k). RegisterListener q g k ch) ks st) k' of None \<Rightarrow> [] | Some lm \<Rightarrow> lm) =
    (let lm = (case ss_listeners st k' of None \<Rightarrow> [] | Some lm \<Rightarrow> lm)
     in if k' \<in> set (wait_keys ks) then AList.update q ch lm else lm)"
proof (induction ks arbitrary: st)
  case (Cons p ks)
  obtain g k where "p = (g, k)" by (cases p)
  then show ?case
    by (simp add: Cons.IH listeners_Register Let_def alist_update_twice)
qed simp

lemma alist_delete_twice: "AList.delete k (AList.delete k m) = AList.delete k m"
  by (induction m) auto

definition slis :: "selectorsStore \<Rightarrow> string \<Rightarrow> (int64, NotifyChannel) gomap" where
  "slis st k = (case ss_listeners st k of None \<Rightarrow> [] | Some lm \<Rightarrow> lm)"

lemma slis_cancel_one:
  "slis (case ss_listeners st k0 of None \<Rightarrow> st
      | Some m \<Rightarrow> st\<lparr>ss_listeners := (ss_listeners st)(k0 \<mapsto> AList.delete q m)\<rparr>) k =
    (if k = k0 then AList.delete q (slis st k) else slis st k)"
  by (auto simp: slis_def split: option.splits)

lemma slis_CancelWait:
  "slis (CancelWait q wl st) k' =
    (if k' \<in> set (wait_keys wl) then AList.delete q (slis st k') else slis st k')"
  by (induction q wl st rule: CancelWait.induct) (simp_all add: slis_cancel_one alist_delete_twice)

lemmas listeners_CancelWait = slis_CancelWait [unfolded slis_def]

lemma listeners_run_cancel:
  assumes "store_at (sv_map s) r \<noteq> None"
  shows "listeners_of (sv_map (run_cancel (CancelListeners r q wl) s)) r' k =
    (if r' = r \<and> k \<in> set (wait_keys wl) then AList.delete q (listeners_of (sv_map s) r' k)
     else listeners_of (sv_map s) r' k)"
  using assms by (auto simp: listeners_set_store listeners_CancelWait Let_def) (auto simp: listeners_of_def)

lemma chan_inv_mono:
  assumes i: "chan_inv m h" and "\<And>r k. gomap_ok (listeners_of m' r k)"
    and sub: "\<And>c. regs m' c \<subseteq> regs m c" and len: "length h' = length h"
    and buf: "\<And>c. c < length h \<Longrightarrow> length (ch_buf (h' ! c)) \<le> length (ch_buf (h ! c)) \<and> ch_cap (h' ! c) = ch_cap (h ! c)"
  shows "chan_inv m' h'"
proof (rule chan_invI)
  show "finite (regs m' c)" for c using sub chan_invD(2) [OF i] by (rule finite_subset)
  show "c < length h'" if "regs m' c \<noteq> {}" for c
    using that sub [of c] chan_invD(3) [OF i, of c] len by auto
  show "length (ch_buf (h' ! c)) + card (regs m' c) \<le> ch_cap (h' ! c)" if "c < length h'" for c
    using chan_invD(4) [OF i, of c] buf [of c] card_mono [OF chan_invD(2) [OF i] sub [of c]] that len by simp
qed (rule assms(2))

lemma chan_inv_append:
  assumes i: "chan_inv m h" and "length (ch_buf ch) \<le> ch_cap ch"
  shows "chan_inv m (h @ [ch])"
proof (rule chan_invI)
  show "gomap_ok (listeners_of m r k)" "finite (regs m c)" for r k c by (rule chan_invD [OF i])+
  show "c < length (h @ [ch])" if "regs m c \<noteq> {}" for c using chan_invD(3) [OF i that] by simp
  have "regs m (length h) = {}" using chan_invD(3) [OF i, of "length h"] by blast
  then show "length (ch_buf ((h @ [ch]) ! c)) + card (regs m c) \<le> ch_cap ((h @ [ch]) ! c)"
    if "c < length (h @ [ch])" for c
    using that assms(2) chan_invD(4) [OF i, of c] by (cases "c = length h") (auto simp: nth_append)
qed

section \<open>The transition system\<close>

text \<open>
  Beside the server: the retrievals between their two steps, and the pairs of channel and
  cancel function handed out and not yet called.
\<close>

record sys =
  sy_srv :: server
  sy_pending :: "(int64 \<times> AcquireConfigurationReq) list"
  sy_waits :: "(NotifyChannel \<times> cancel_fn) list"

definition sys_init :: sys where
  "sys_init = \<lparr>sy_srv = newServer, sy_pending = [], sy_waits = []\<rparr>"

fun track :: "int64 \<Rightarrow> AcquireConfigurationReq \<Rightarrow> retrieval \<Rightarrow> sys \<Rightarrow> sys" where
  "track q req (RetErr e) sy = sy"
| "track q req (RetChan ch f) sy = sy\<lparr>sy_waits := (ch, f) # sy_waits sy\<rparr>"
| "track q req RetWait sy = sy\<lparr>sy_pending := (q, req) # sy_pending sy\<rparr>"

text \<open>\<open>hu\<close> is the version comparator, \<open>P\<close> a restriction on the requests the clients send.\<close>

inductive sstep ::
  "(string \<Rightarrow> string \<Rightarrow> bool) \<Rightarrow> (AcquireConfigurationReq \<Rightarrow> bool) \<Rightarrow> sys \<Rightarrow> sys \<Rightarrow> bool"
  for hu P where
  call: "P req \<Longrightarrow> nextId (sy_srv sy) = (q, s1) \<Longrightarrow> RetrieveCheck hu req s1 = Done (r, s2) \<Longrightarrow>
    sstep hu P sy (track q req r (sy\<lparr>sy_srv := s2\<rparr>))"
| register: "(q, req) \<in> set (sy_pending sy) \<Longrightarrow> RetrieveRegister hu q req (sy_srv sy) = Done (r, s2) \<Longrightarrow>
    sstep hu P sy (track q req r (sy\<lparr>sy_srv := s2, sy_pending := remove1 (q, req) (sy_pending sy)\<rparr>))"
| batch: "pump_batch evs (sy_srv sy) = Done s2 \<Longrightarrow> sstep hu P sy (sy\<lparr>sy_srv := s2\<rparr>)"
| cancel: "(ch, f) \<in> set (sy_waits sy) \<Longrightarrow>
    sstep hu P sy (sy\<lparr>sy_srv := run_cancel f (sy_srv sy), sy_waits := remove1 (ch, f) (sy_waits sy)\<rparr>)"
| recv: "chan_recv ch (sv_chans (sy_srv sy)) = Some (v, h) \<Longrightarrow>
    sstep hu P sy (sy\<lparr>sy_srv := (sy_srv sy)\<lparr>sv_chans := h\<rparr>\<rparr>)"

inductive reachable ::
  "(string \<Rightarrow> string \<Rightarrow> bool) \<Rightarrow> (AcquireConfigurationReq \<Rightarrow> bool) \<Rightarrow> sys \<Rightarrow> bool"
  for hu P where
  init: "reachable hu P sys_init"
| step: "reachable hu P sy \<Longrightarrow> sstep hu P sy sy' \<Longrightarrow> reachable hu P sy'"

section \<open>The invariant\<close>

fun covers :: "NotifyChannel \<times> cancel_fn \<Rightarrow> NotifyChannel \<Rightarrow> store_ref \<times> string \<times> int64 \<Rightarrow> bool" where
  "covers (ch, CancelNothing) c t \<longleftrightarrow> False"
| "covers (ch, CancelListeners r q wl) c t \<longleftrightarrow>
     ch = c \<and> fst t = r \<and> snd (snd t) = q \<and> fst (snd t) \<in> set (wait_keys wl)"

fun wait_store :: "selectorsMap \<Rightarrow> NotifyChannel \<times> cancel_fn \<Rightarrow> bool" where
  "wait_store m (ch, CancelNothing) \<longleftrightarrow> True"
| "wait_store m (ch, CancelListeners r q wl) \<longleftrightarrow> store_at m r \<noteq> None"

definition covered :: "selectorsMap \<Rightarrow> (NotifyChannel \<times> cancel_fn) list \<Rightarrow> bool" where
  "covered m ws \<longleftrightarrow> (\<forall>c. \<forall>t \<in> regs m c. \<exists>w \<in> set ws. covers w c t)"

definition sys_inv :: "sys \<Rightarrow> bool" where
  "sys_inv sy \<longleftrightarrow>
     chan_inv (sv_map (sy_srv sy)) (sv_chans (sy_srv sy)) \<and> owners (sv_map (sy_srv sy)) \<and>
     covered (sv_map (sy_srv sy)) (sy_waits sy) \<and>
     (\<forall>w \<in> set (sy_waits sy). wait_store (sv_map (sy_srv sy)) w)"

lemma owners_mono: "owners m \<Longrightarrow> (\<And>c. regs m' c \<subseteq> regs m c) \<Longrightarrow> owners m'"
  unfolding owners_def by blast

lemma covered_mono: "covered m ws \<Longrightarrow> (\<And>c. regs m' c \<subseteq> regs m c) \<Longrightarrow> set ws \<subseteq> set ws' \<Longrightarrow> covered m' ws'"
  unfolding covered_def by blast

text \<open>Stores are never removed.\<close>

definition grows :: "selectorsMap \<Rightarrow> selectorsMap \<Rightarrow> bool" where
  "grows m m' \<longleftrightarrow> (\<forall>r. store_at m r \<noteq> None \<longrightarrow> store_at m' r \<noteq> None)"

lemma wait_store_grows: "wait_store m w \<Longrightarrow> grows m m' \<Longrightarrow> wait_store m' w"
  by (cases w; cases "snd w") (auto simp: grows_def)

lemma grows_contents:
  assumes "contents m' = fold abs_event evs (contents m)"
  shows "grows m m'"
proof -
  have "A r \<noteq> None \<Longrightarrow> fold abs_event evs A r \<noteq> None" for A r
  proof (induction evs arbitrary: A)
    case (Cons ev evs)
    have "abs_event ev A r \<noteq> None"
      using Cons.prems by (auto simp: abs_event_def abs_set_def abs_open_def Let_def split: option.splits)
    then show ?case using Cons.IH by simp
  qed simp
  moreover have "store_at m r \<noteq> None \<longleftrightarrow> contents m r \<noteq> None" for m r by (simp add: contents_def)
  ultimately show ?thesis unfolding grows_def by (simp only: assms) blast
qed

lemma grows_set_store: "store_at m r \<noteq> None \<Longrightarrow> grows m (set_store m r st)"
  by (auto simp: grows_def store_at_set_store)

text \<open>What a registration does to the listeners.\<close>

lemma RetrieveRegister_cases:
  assumes "RetrieveRegister hu q req s = Done (r, s')"
  obtains e where "r = RetErr e" "s' = s"
  | cs where "r = RetChan (length (sv_chans s)) CancelNothing"
      "s' = s\<lparr>sv_chans := sv_chans s @ [\<lparr>ch_buf = map (\<lambda>cfg. \<lparr>ne_Configuration = cfg\<rparr>) cs, ch_cap = length cs, ch_closed = True\<rparr>]\<rparr>"
  | ref where "r = RetChan (length (sv_chans s)) (CancelListeners ref q (req_keys req))"
      "store_at (sv_map s) ref \<noteq> None"
      "s' = s\<lparr>sv_map := set_store (sv_map s) ref
                (fold (\<lambda>(g, k). RegisterListener q g k (length (sv_chans s))) (req_keys req) (the_store s ref)),
              sv_chans := sv_chans s @ [\<lparr>ch_buf = [], ch_cap = length (aq_Requested req), ch_closed = False\<rparr>]\<rparr>"
proof (cases "GetSelectorsGeneral (sv_map s) (sel_key (aq_Selectors req)) (sel_key (aq_OptionalSelectors req))")
  case None
  then show ?thesis using assms that(1) [of ErrHasUnknownConfiguration] by (simp add: RetrieveRegister_def)
next
  case (Some ref)
  show ?thesis
  proof (cases "check_requested hu (the_store s ref) (aq_Requested req)")
    case None
    then show ?thesis using assms that(1) [of ErrHasUnknownConfiguration] Some by (simp add: RetrieveRegister_def)
  next
    case (Some cs)
    note g = \<open>GetSelectorsGeneral _ _ _ = Some ref\<close>
    show ?thesis
    proof (cases cs)
      case Nil
      then show ?thesis using assms that(3) [of ref] g Some GetSelectorsGeneral_store [OF g]
        by (simp add: RetrieveRegister_def chan_make_def)
    next
      case (Cons c cs')
      then show ?thesis using assms that(2) [of cs] g Some
        by (simp add: RetrieveRegister_def respond_now_Done)
    qed
  qed
qed

lemma RetrieveCheck_cases:
  assumes "RetrieveCheck hu req s = Done (r, s')"
  obtains e where "r = RetErr e" "s' = s"
  | cs where "r = RetChan (length (sv_chans s)) CancelNothing"
      "s' = s\<lparr>sv_chans := sv_chans s @ [\<lparr>ch_buf = map (\<lambda>cfg. \<lparr>ne_Configuration = cfg\<rparr>) cs, ch_cap = length cs, ch_closed = True\<rparr>]\<rparr>"
  | "r = RetWait" "s' = s"
proof (cases "GetSelectorsGeneral (sv_map s) (sel_key (aq_Selectors req)) (sel_key (aq_OptionalSelectors req))")
  case None
  then show ?thesis using assms that(1) [of ErrHasUnknownConfiguration] by (simp add: RetrieveCheck_def)
next
  case (Some ref)
  show ?thesis
  proof (cases "check_requested hu (the_store s ref) (aq_Requested req)")
    case None
    then show ?thesis using assms that(1) [of ErrHasUnknownConfiguration] Some by (simp add: RetrieveCheck_def)
  next
    case (Some cs)
    note g = \<open>GetSelectorsGeneral _ _ _ = Some ref\<close>
    show ?thesis
    proof (cases cs)
      case Nil
      then show ?thesis using assms that(3) g Some by (simp add: RetrieveCheck_def)
    next
      case (Cons c cs')
      then show ?thesis using assms that(2) [of cs] g Some
        by (simp add: RetrieveCheck_def respond_now_Done)
    qed
  qed
qed


lemma regs_registered:
  assumes st: "store_at m ref \<noteq> None" and i: "chan_inv m h"
    and m': "m' = set_store m ref (fold (\<lambda>(g, k). RegisterListener q g k (length h)) ks (the (store_at m ref)))"
  shows "gomap_ok (listeners_of m' r k)"
    and "c \<noteq> length h \<Longrightarrow> regs m' c \<subseteq> regs m c"
    and "regs m' (length h) = (\<lambda>k. (ref, k, q)) ` set (wait_keys ks)"
proof -
  let ?hit = "\<lambda>r k. r = ref \<and> k \<in> set (wait_keys ks)"
  have l: "listeners_of m' r k =
      (if ?hit r k then AList.update q (length h) (listeners_of m r k) else listeners_of m r k)" for r k
    using st unfolding m' by (auto simp: listeners_set_store listeners_Registers Let_def) (auto simp: listeners_of_def)
  show "gomap_ok (listeners_of m' r k)" using gomap_ok_update [OF chan_invD(1) [OF i]] chan_invD(1) [OF i] by (simp only: l split: if_split) blast
  have upd: "(q', c) \<in> set (AList.update q d lm) \<longleftrightarrow> (if q' = q then c = d else (q', c) \<in> set lm)"
    if "gomap_ok lm" for q' c d and lm :: "(int64, NotifyChannel) gomap"
    using that gomap_ok_update [OF that] by (auto simp: gomap_ok_in update_conv')
  show "regs m' c \<subseteq> regs m c" if "c \<noteq> length h"
    using that upd [OF chan_invD(1) [OF i]] by (auto simp: regs_def l split: if_splits)
  have fresh: "(x, length h) \<notin> set (listeners_of m r k)" for x r k
    using chan_inv_less [OF i] by blast
  show "regs m' (length h) = (\<lambda>k. (ref, k, q)) ` set (wait_keys ks)"
    using upd [OF chan_invD(1) [OF i]] fresh by (auto simp: regs_def l image_iff split: if_splits)
qed

lemma register_inv:
  assumes "sys_inv sy" and "RetrieveRegister hu q req (sy_srv sy) = Done (r, s2)"
  shows "sys_inv (track q req r (sy\<lparr>sy_srv := s2, sy_pending := ps\<rparr>))"
  using assms(2)
proof (cases rule: RetrieveRegister_cases)
  case 1
  then show ?thesis using assms(1) by (simp add: sys_inv_def)
next
  case (2 cs)
  then show ?thesis using assms(1) covered_mono [OF _ subset_refl set_subset_Cons]
    by (auto simp: sys_inv_def intro!: chan_inv_append)
next
  case (3 ref)
  let ?m = "sv_map (sy_srv sy)" and ?h = "sv_chans (sy_srv sy)"
  let ?w = "(length ?h, CancelListeners ref q (req_keys req))"
  have i: "chan_inv ?m ?h" "owners ?m" "covered ?m (sy_waits sy)" "\<forall>w \<in> set (sy_waits sy). wait_store ?m w"
    using assms(1) by (simp_all add: sys_inv_def)
  define m' where "m' = sv_map s2"
  have m': "m' = set_store ?m ref (fold (\<lambda>(g, k). RegisterListener q g k (length ?h)) (req_keys req) (the (store_at ?m ref)))"
    by (simp add: m'_def 3)
  note g = regs_registered [OF 3(2) i(1) m']
  have f: "finite (regs m' c)" for c
    by (cases "c = length ?h") (use g(3) finite_subset [OF g(2) chan_invD(2) [OF i(1)]] in auto)
  have ci: "chan_inv m' (sv_chans s2)"
  proof (rule chan_invI)
    show "c < length (sv_chans s2)" if "regs m' c \<noteq> {}" for c
    proof (cases "c = length ?h")
      case False
      then have "regs ?m c \<noteq> {}" using that g(2) [OF False] by blast
      then show ?thesis using chan_invD(3) [OF i(1), of c] by (simp add: 3)
    qed (simp add: 3)
    show "length (ch_buf (sv_chans s2 ! c)) + card (regs m' c) \<le> ch_cap (sv_chans s2 ! c)" if "c < length (sv_chans s2)" for c
    proof (cases "c = length ?h")
      case True
      have "card (regs m' c) \<le> length (wait_keys (req_keys req))"
        unfolding True g(3) by (meson card_image_le card_length finite_set le_trans)
      then show ?thesis by (simp add: True 3 req_keys_def)
    next
      case False
      then have "card (regs m' c) \<le> card (regs ?m c)" by (intro card_mono chan_invD(2) [OF i(1)] g(2))
      then show ?thesis using that False chan_invD(4) [OF i(1), of c] by (simp add: 3 nth_append)
    qed
  qed (fact g(1) f)+
  have ow: "owners m'" unfolding owners_def
  proof (intro allI ballI)
    fix c t u assume tu: "t \<in> regs m' c" "u \<in> regs m' c"
    show "snd (snd t) = snd (snd u)"
    proof (cases "c = length ?h")
      case True
      then show ?thesis using tu unfolding True g(3) by auto
    next
      case False
      then show ?thesis using tu g(2) [OF False] i(2) unfolding owners_def by blast
    qed
  qed
  have cv: "covered m' (?w # sy_waits sy)" unfolding covered_def
  proof (intro allI ballI)
    fix c t assume t: "t \<in> regs m' c"
    show "\<exists>w \<in> set (?w # sy_waits sy). covers w c t"
    proof (cases "c = length ?h")
      case True
      then have "covers ?w c t" using t unfolding True g(3) by auto
      then show ?thesis by (meson list.set_intros(1))
    next
      case False
      then have "t \<in> regs ?m c" using g(2) t by blast
      then show ?thesis using i(3) unfolding covered_def by (meson list.set_intros(2))
    qed
  qed
  have gr: "grows ?m m'" unfolding m' by (rule grows_set_store [OF 3(2)])
  have "\<forall>w \<in> set (?w # sy_waits sy). wait_store m' w"
    using i(4) wait_store_grows [OF _ gr] 3(2) gr unfolding grows_def by (metis set_ConsD wait_store.simps(2))
  then show ?thesis using ci ow cv by (simp add: sys_inv_def 3(1) m'_def)
qed

lemma check_inv:
  assumes "sys_inv sy" and "RetrieveCheck hu req (snd (nextId (sy_srv sy))) = Done (r, s2)"
  shows "sys_inv (track q req r (sy\<lparr>sy_srv := s2\<rparr>))"
  using assms(2)
proof (cases rule: RetrieveCheck_cases)
  case (2 cs)
  then show ?thesis using assms(1) covered_mono [OF _ subset_refl set_subset_Cons]
    by (auto simp: sys_inv_def nextId_def intro!: chan_inv_append)
qed (use assms(1) in \<open>simp_all add: sys_inv_def nextId_def\<close>)


lemma run_cancel_Nothing: "run_cancel CancelNothing s = s"
  by simp

lemma cancel_regs:
  assumes "store_at (sv_map s) ref \<noteq> None" and i: "chan_inv (sv_map s) h"
  shows "gomap_ok (listeners_of (sv_map (run_cancel (CancelListeners ref q wl) s)) r k)"
    and "regs (sv_map (run_cancel (CancelListeners ref q wl) s)) c \<subseteq> regs (sv_map s) c"
    and "t \<in> regs (sv_map (run_cancel (CancelListeners ref q wl) s)) c \<Longrightarrow> \<not> covers (ch, CancelListeners ref q wl) c t"
proof -
  note l = listeners_run_cancel [OF assms(1), of q wl]
  show "gomap_ok (listeners_of (sv_map (run_cancel (CancelListeners ref q wl) s)) r k)"
    using gomap_ok_delete [OF chan_invD(1) [OF i]] chan_invD(1) [OF i] by (simp only: l split: if_split) blast
  show "regs (sv_map (run_cancel (CancelListeners ref q wl) s)) c \<subseteq> regs (sv_map s) c"
    using set_alist_delete_subset unfolding regs_def l by (fastforce split: if_splits)
  show "\<not> covers (ch, CancelListeners ref q wl) c t"
    if "t \<in> regs (sv_map (run_cancel (CancelListeners ref q wl) s)) c"
    using that unfolding regs_def l by (auto simp: set_alist_delete split: if_splits)
qed

lemma cancel_inv:
  assumes "sys_inv sy" and w: "(ch, f) \<in> set (sy_waits sy)"
  shows "sys_inv (sy\<lparr>sy_srv := run_cancel f (sy_srv sy), sy_waits := remove1 (ch, f) (sy_waits sy)\<rparr>)"
proof -
  let ?m = "sv_map (sy_srv sy)" and ?h = "sv_chans (sy_srv sy)" and ?ws = "remove1 (ch, f) (sy_waits sy)"
  have i: "chan_inv ?m ?h" "owners ?m" "covered ?m (sy_waits sy)" "\<forall>w \<in> set (sy_waits sy). wait_store ?m w"
    using assms(1) by (simp_all add: sys_inv_def)
  have keep: "w \<in> set ?ws" if "w \<in> set (sy_waits sy)" "w \<noteq> (ch, f)" for w
    using that by (simp add: in_set_remove1)
  have sub: "set ?ws \<subseteq> set (sy_waits sy)" by (rule set_remove1_subset)
  show ?thesis
  proof (cases f)
    case CancelNothing
    have "covered ?m ?ws"
      unfolding covered_def
    proof (intro allI ballI)
      fix c t assume "t \<in> regs ?m c"
      then obtain w where "w \<in> set (sy_waits sy)" "covers w c t" using i(3) unfolding covered_def by blast
      moreover from this have "w \<noteq> (ch, f)" using CancelNothing by auto
      ultimately show "\<exists>w \<in> set ?ws. covers w c t" using keep by blast
    qed
    then show ?thesis using i sub by (auto simp: sys_inv_def CancelNothing)
  next
    case (CancelListeners ref q wl)
    have st: "store_at ?m ref \<noteq> None" using i(4) w CancelListeners by fastforce
    let ?m' = "sv_map (run_cancel f (sy_srv sy))"
    note c = cancel_regs [OF st i(1), where q = q and wl = wl, folded CancelListeners]
    have "covered ?m' ?ws" unfolding covered_def
    proof (intro allI ballI)
      fix d t assume t: "t \<in> regs ?m' d"
      then obtain x where x: "x \<in> set (sy_waits sy)" "covers x d t"
        using c(2) i(3) unfolding covered_def by blast
      then have "x \<noteq> (ch, f)" using c(3) [OF t] by blast
      then show "\<exists>w \<in> set ?ws. covers w d t" using keep x by blast
    qed
    moreover have "grows ?m ?m'" using grows_set_store [OF st] by (simp add: CancelListeners)
    moreover have "sv_chans (run_cancel f (sy_srv sy)) = ?h" by (simp add: CancelListeners)
    moreover have "chan_inv ?m' ?h" by (rule chan_inv_mono [OF i(1)]) (use c in simp_all)
    moreover have "\<forall>w \<in> set ?ws. wait_store ?m' w"
      using i(4) sub wait_store_grows [OF _ \<open>grows ?m ?m'\<close>] by blast
    ultimately show ?thesis
      using owners_mono [OF i(2) c(2)] by (simp add: sys_inv_def)
  qed
qed

lemma run_events_inv:
  assumes "run_fold apply_event evs (m, h, cm) = Done (m', h', cm')" "chan_inv m h"
  shows "chan_inv m' h' \<and> (\<forall>c. regs m' c \<subseteq> regs m c)"
proof -
  let ?I = "\<lambda>(m1, h1, cm1). chan_inv m1 h1 \<and> (\<forall>c. regs m1 c \<subseteq> regs m c)"
  have "?I (m', h', cm')"
  proof (rule run_fold_inv [OF _ _ assms(1)])
    show "?I (m, h, cm)" using assms(2) by simp
    fix ev p p' assume p: "?I p" and a: "apply_event ev p = Done p'"
    obtain m1 h1 cm1 where e: "p = (m1, h1, cm1)" by (cases p)
    obtain m2 h2 cm2 where e': "p' = (m2, h2, cm2)" by (cases p')
    have "regs m2 c \<subseteq> regs m1 c" for c
      using a regs_removed(3) [OF save_event_listeners(1)] regs_removed(3) [OF delete_event_listeners]
      unfolding e e' apply_event_def by (auto split: if_splits option.splits)
    then show "?I p'" using p a apply_event_chan_inv [of m1 h1] by (fastforce simp: e e')
  qed
  then show ?thesis by simp
qed

lemma close_all_mono:
  assumes "close_all cm h = Done h'"
  shows "length h' = length h \<and> (\<forall>c. ch_buf (h' ! c) = ch_buf (h ! c) \<and> ch_cap (h' ! c) = ch_cap (h ! c) \<and>
     (ch_closed (h ! c) \<longrightarrow> ch_closed (h' ! c)))"
proof -
  let ?I = "\<lambda>h1. length h1 = length h \<and> (\<forall>c. ch_buf (h1 ! c) = ch_buf (h ! c) \<and> ch_cap (h1 ! c) = ch_cap (h ! c) \<and>
     (ch_closed (h ! c) \<longrightarrow> ch_closed (h1 ! c)))"
  show ?thesis
  proof (rule run_fold_inv [where I = ?I, OF _ _ assms [unfolded close_all_def]])
    fix p h1 h2 assume i: "?I h1" and "(case p of (k, ch) \<Rightarrow> chan_close ch) h1 = Done h2"
    moreover obtain k ch where "p = (k, ch)" by (cases p)
    ultimately have "ch < length h1" "h2 = h1[ch := (h1 ! ch)\<lparr>ch_closed := True\<rparr>]"
      by (auto simp: chan_close_def split: if_splits)
    then have "length h2 = length h1" "ch_buf (h2 ! c) = ch_buf (h1 ! c) \<and> ch_cap (h2 ! c) = ch_cap (h1 ! c) \<and>
       (ch_closed (h1 ! c) \<longrightarrow> ch_closed (h2 ! c))" for c
      by (cases "c = ch"; simp)+
    then show "?I h2" using i by simp
  qed simp
qed

lemma batch_inv_step:
  assumes "sys_inv sy" and "pump_batch evs (sy_srv sy) = Done s2"
  shows "sys_inv (sy\<lparr>sy_srv := s2\<rparr>)"
proof -
  let ?m = "sv_map (sy_srv sy)" and ?h = "sv_chans (sy_srv sy)"
  have i: "chan_inv ?m ?h" "owners ?m" "covered ?m (sy_waits sy)" "\<forall>w \<in> set (sy_waits sy). wait_store ?m w"
    using assms(1) by (simp_all add: sys_inv_def)
  obtain evs' m h cm h' where r: "run_fold apply_event evs' (?m, ?h, []) = Done (m, h, cm)"
    and cl: "close_all cm h = Done h'" and s2: "s2 = (sy_srv sy)\<lparr>sv_map := m, sv_chans := h'\<rparr>"
    using assms(2) by (auto simp: pump_batch_def)
  have e: "chan_inv m h" "regs m c \<subseteq> regs ?m c" for c using run_events_inv [OF r i(1)] by blast+
  note k = close_all_mono [OF cl]
  have "chan_inv m h'" by (rule chan_inv_mono [OF e(1) chan_invD(1) [OF e(1)] subset_refl]) (use k in simp_all)
  moreover have "grows ?m m" by (rule grows_contents [OF run_events_contents [OF r]])
  ultimately show ?thesis
    using i(4) wait_store_grows owners_mono [OF i(2) e(2)] covered_mono [OF i(3) e(2) subset_refl]
    by (simp add: sys_inv_def s2) blast
qed

lemma recv_inv:
  assumes "sys_inv sy" and "chan_recv ch (sv_chans (sy_srv sy)) = Some (v, h)"
  shows "sys_inv (sy\<lparr>sy_srv := (sy_srv sy)\<lparr>sv_chans := h\<rparr>\<rparr>)"
proof -
  let ?m = "sv_map (sy_srv sy)" and ?h = "sv_chans (sy_srv sy)"
  have i: "chan_inv ?m ?h" using assms(1) by (simp add: sys_inv_def)
  have "length h = length ?h" "length (ch_buf (h ! c)) \<le> length (ch_buf (?h ! c)) \<and> ch_cap (h ! c) = ch_cap (?h ! c)" for c
    using assms(2) by (cases "c = ch"; auto simp: chan_recv_def split: if_splits list.splits)+
  then have "chan_inv ?m h" by (intro chan_inv_mono [OF i chan_invD(1) [OF i] subset_refl]) simp_all
  then show ?thesis using assms(1) by (simp add: sys_inv_def)
qed

lemma sys_inv_init: "sys_inv sys_init"
proof -
  have "listeners_of (\<lambda>_. None) r k = []" for r k by (cases r) (simp add: listeners_of_def store_at.simps)
  then have l: "listeners_of (\<lambda>_. None) = (\<lambda>r k. [])" by (simp add: fun_eq_iff)
  then have r: "regs (\<lambda>_. None) c = {}" for c by (simp add: regs_def)
  have "chan_inv (\<lambda>_. None) []" by (simp add: chan_inv_def l r)
  note r this
  then show ?thesis by (simp add: sys_inv_def sys_init_def newServer_def owners_def covered_def)
qed

lemma sstep_inv: "sstep hu P sy sy' \<Longrightarrow> sys_inv sy \<Longrightarrow> sys_inv sy'"
proof (induction rule: sstep.induct)
  case (call req sy q s1 r s2)
  then have "snd (nextId (sy_srv sy)) = s1" by simp
  with call show ?case using check_inv [of sy hu req r s2 q] by simp
qed (blast intro: register_inv batch_inv_step cancel_inv recv_inv)+

lemma reachable_inv: "reachable hu P sy \<Longrightarrow> sys_inv sy"
  by (induction rule: reachable.induct) (auto intro: sys_inv_init sstep_inv)

lemma open_regs_live:
  assumes "covered m ws" and "\<forall>w \<in> set ws. snd w \<noteq> CancelNothing \<longrightarrow> \<not> ch_closed (h ! fst w)"
  shows "open_regs m h"
  unfolding open_regs_def
proof (intro allI impI)
  fix c assume "regs m c \<noteq> {}"
  then obtain t where "t \<in> regs m c" by blast
  then obtain w where w: "w \<in> set ws" "covers w c t" using assms(1) unfolding covered_def by blast
  then have "fst w = c \<and> snd w \<noteq> CancelNothing" by (metis covers.elims(2) fst_conv snd_conv cancel_fn.distinct(1))
  then show "\<not> ch_closed (h ! c)" using assms(2) w(1) by blast
qed

text \<open>Every channel that still has a cancel function pending is open.\<close>

definition live :: "sys \<Rightarrow> bool" where
  "live sy \<longleftrightarrow> (\<forall>w \<in> set (sy_waits sy). snd w \<noteq> CancelNothing \<longrightarrow> \<not> ch_closed (sv_chans (sy_srv sy) ! fst w))"

lemma live_batch_Done:
  assumes "sys_inv sy" "live sy" "no_nil evs"
  shows "\<exists>s'. pump_batch evs (sy_srv sy) = Done s'"
proof -
  have "open_regs (sv_map (sy_srv sy)) (sv_chans (sy_srv sy))"
    using assms(1,2) open_regs_live unfolding sys_inv_def live_def by blast
  then show ?thesis using pump_batch_Done [of "sy_srv sy" evs] assms(1,3) unfolding sys_inv_def by blast
qed

section \<open>Who is notified\<close>

lemma cfg_store_cache [simp]: "cfg_store (cache_cfg c) = cfg_store c"
  by (simp add: cfg_store_def cache_cfg_def sel_key_def SelectorsHelperCache_def SelectorsHelperCacheValue_def)

lemma cfg_id_cache [simp]: "cfg_Group (cache_cfg c) = cfg_Group c" "cfg_Key (cache_cfg c) = cfg_Key c"
  by (simp_all add: cache_cfg_def)

definition saves :: "store_ref \<Rightarrow> string \<Rightarrow> event \<Rightarrow> bool" where
  "saves r k ev \<longleftrightarrow> (ev_Created ev \<or> ev_Modified ev) \<and>
     (case ev_Configuration ev of None \<Rightarrow> False | Some c \<Rightarrow> cfg_store c = r \<and> cfg_id c = k)"

definition deletes :: "store_ref \<Rightarrow> string \<Rightarrow> event \<Rightarrow> bool" where
  "deletes r k ev \<longleftrightarrow> \<not> (ev_Created ev \<or> ev_Modified ev) \<and> ev_Deleted ev \<and>
     (case ev_Configuration ev of None \<Rightarrow> False | Some c \<Rightarrow> cfg_store c = r \<and> cfg_id c = k)"

lemma saves_cache: "saves r k (cache_event ev) = saves r k ev" "deletes r k (cache_event ev) = deletes r k ev"
  by (simp_all add: saves_def deletes_def cache_event_def split: option.splits)

definition is_about :: "store_ref \<Rightarrow> string \<Rightarrow> NotifyEvent \<Rightarrow> bool" where
  "is_about r k ne \<longleftrightarrow> cfg_store (ne_Configuration ne) = r \<and> cfg_id (ne_Configuration ne) = k"

definition only_under :: "int64 \<Rightarrow> NotifyChannel \<Rightarrow> selectorsMap \<Rightarrow> bool" where
  "only_under q c m \<longleftrightarrow> (\<forall>c'. \<forall>t \<in> regs m c'. snd (snd t) = q \<longrightarrow> c' = c)"

definition told :: "store_ref \<Rightarrow> string \<Rightarrow> int64 \<Rightarrow> NotifyChannel \<Rightarrow> pump_state \<Rightarrow> bool" where
  "told r k q c = (\<lambda>(m, h, cm). c < length h \<and> map_of cm q = Some c \<and> (\<exists>ne \<in> set (ch_buf (h ! c)). is_about r k ne))"

lemma map_of_updates:
  assumes "\<forall>p \<in> set lm. fst p = q \<longrightarrow> snd p = c" "(q, c) \<in> set lm \<or> map_of cm q = Some c"
  shows "map_of (fold (\<lambda>(q, ch). AList.update q ch) lm cm) q = Some c"
  using assms
proof (induction lm arbitrary: cm)
  case (Cons p lm)
  obtain x d where p: "p = (x, d)" by (cases p)
  have "(q, c) \<in> set lm \<or> map_of (AList.update x d cm) q = Some c"
    using Cons.prems by (auto simp: p update_conv')
  then show ?case using Cons.IH [of "AList.update x d cm"] Cons.prems(1) by (simp add: p)
qed simp

lemma sent_buf: "sent v lm h h' \<Longrightarrow> c < length h \<Longrightarrow> set (ch_buf (h ! c)) \<subseteq> set (ch_buf (h' ! c)) \<and>
   ((q, c) \<in> set lm \<longrightarrow> v \<in> set (ch_buf (h' ! c)))"
proof -
  assume s: "sent v lm h h'" and c: "c < length h"
  have e: "h' ! c = (h ! c)\<lparr>ch_buf := ch_buf (h ! c) @ replicate (count_list (map snd lm) c) v\<rparr>"
    using s c unfolding sent_def by blast
  have "count_list (map snd lm) c \<noteq> 0" if "(q, c) \<in> set lm"
  proof -
    have "c \<in> set (map snd lm)" using that by force
    then show ?thesis by (simp add: count_list_0_iff)
  qed
  then show ?thesis by (auto simp: e)
qed

lemma save_event_told:
  assumes s: "save_event c0 (m, h, cm) = Done (m', h', cm')" and i: "chan_inv m h" and u: "only_under q c m"
  shows "told r k q c (m, h, cm) \<Longrightarrow> told r k q c (m', h', cm')"
    and "(r, k, q) \<in> regs m c \<Longrightarrow> cfg_store c0 = r \<Longrightarrow> cfg_id c0 = k \<Longrightarrow> told r k q c (m', h', cm')"
    and "(r, k, q) \<in> regs m c \<Longrightarrow> \<not> (cfg_store c0 = r \<and> cfg_id c0 = k) \<Longrightarrow> (r, k, q) \<in> regs m' c"
    and "only_under q c m'"
proof -
  let ?lm = "listeners_of m (cfg_store c0) (cfg_id c0)"
  note l = save_event_listeners [OF s]
  note n = notify_sent [OF l(2)]
  have len: "length h' = length h" using n by (simp add: sent_def)
  have lm: "\<forall>p \<in> set ?lm. fst p = q \<longrightarrow> snd p = c"
  proof (intro ballI impI)
    fix p assume p: "p \<in> set ?lm" "fst p = q"
    then have t: "(cfg_store c0, cfg_id c0, q) \<in> regs m (snd p)" by (auto simp: regs_def)
    then show "snd p = c" using u unfolding only_under_def by fastforce
  qed
  show "told r k q c (m', h', cm')" if "told r k q c (m, h, cm)"
  proof -
    have "c < length h" using that by (simp add: told_def)
    then show ?thesis
      using that n len sent_buf [where lm = ?lm and h = h and h' = h' and c = c] map_of_updates [OF lm, of cm]
      unfolding told_def by (simp only: prod.case) blast
  qed
  show "told r k q c (m', h', cm')" if "(r, k, q) \<in> regs m c" "cfg_store c0 = r" "cfg_id c0 = k"
  proof -
    have c: "(q, c) \<in> set ?lm" using that by (simp add: regs_def)
    have "c < length h" using chan_invD(3) [OF i] that(1) by blast
    moreover have "is_about r k \<lparr>ne_Configuration = c0\<rparr>" using that by (simp add: is_about_def)
    ultimately show ?thesis
      using c n len sent_buf [where lm = ?lm and h = h and h' = h' and c = c and q = q] map_of_updates [OF lm, of cm]
      unfolding told_def by (simp only: prod.case) blast
  qed
  show "(r, k, q) \<in> regs m' c" if "(r, k, q) \<in> regs m c" "\<not> (cfg_store c0 = r \<and> cfg_id c0 = k)"
    using that by (auto simp: regs_def l(1))
  show "only_under q c m'"
    using u regs_removed(3) [OF l(1)] unfolding only_under_def by blast
qed

lemma delete_event_told:
  assumes s: "delete_event c0 (m, h, cm) = Done (m', h', cm')" and u: "only_under q c m"
  shows "told r k q c (m, h, cm) \<Longrightarrow> told r k q c (m', h', cm')"
    and "(r, k, q) \<in> regs m c \<Longrightarrow> \<not> (cfg_store c0 = r \<and> cfg_id c0 = k) \<Longrightarrow> (r, k, q) \<in> regs m' c"
    and "only_under q c m'"
proof -
  note l = delete_event_listeners [OF s]
  have e: "h' = h" "cm' = cm" using delete_event_contents [OF s] by simp_all
  show "told r k q c (m, h, cm) \<Longrightarrow> told r k q c (m', h', cm')" by (simp add: told_def e)
  show "(r, k, q) \<in> regs m c \<Longrightarrow> \<not> (cfg_store c0 = r \<and> cfg_id c0 = k) \<Longrightarrow> (r, k, q) \<in> regs m' c"
    by (auto simp: regs_def l)
  show "only_under q c m'"
    using u regs_removed(3) [OF l] unfolding only_under_def by blast
qed

definition tell_inv :: "store_ref \<Rightarrow> string \<Rightarrow> int64 \<Rightarrow> NotifyChannel \<Rightarrow> bool \<Rightarrow> pump_state \<Rightarrow> bool" where
  "tell_inv r k q c must p \<longleftrightarrow> chan_inv (fst p) (fst (snd p)) \<and> only_under q c (fst p) \<and>
     (told r k q c p \<or> \<not> must \<and> (r, k, q) \<in> regs (fst p) c)"

lemma apply_event_told:
  assumes a: "apply_event ev p = Done p'" and t: "tell_inv r k q c must p" and nd: "must \<or> \<not> deletes r k ev"
    and nn: "ev_Configuration ev \<noteq> None"
  shows "tell_inv r k q c (must \<or> saves r k ev) p'"
proof -
  obtain m h cm m' h' cm' where p: "p = (m, h, cm)" "p' = (m', h', cm')" by (metis prod_cases3)
  obtain c0 where c0: "ev_Configuration ev = Some c0" using nn by auto
  have i: "chan_inv m h" "only_under q c m" "told r k q c (m, h, cm) \<or> \<not> must \<and> (r, k, q) \<in> regs m c"
    using t by (simp_all add: tell_inv_def p)
  have ci: "chan_inv m' h'" using apply_event_chan_inv [OF i(1)] a by (simp add: p)
  consider (save) "ev_Created ev \<or> ev_Modified ev" "save_event c0 (m, h, cm) = Done (m', h', cm')"
    | (del) "\<not> (ev_Created ev \<or> ev_Modified ev)" "ev_Deleted ev" "delete_event c0 (m, h, cm) = Done (m', h', cm')"
    | (none) "\<not> (ev_Created ev \<or> ev_Modified ev)" "p' = p"
    using a by (auto simp: apply_event_def c0 p split: if_splits)
  then show ?thesis
  proof cases
    case save
    then show ?thesis using save_event_told(1-3) [OF save(2) i(1,2), where r = r and k = k] save_event_told(4) [OF save(2) i(1,2)] i(3) ci c0
      by (auto simp: tell_inv_def p saves_def)
  next
    case del
    then show ?thesis using delete_event_told(1,2) [OF del(3) i(2), where r = r and k = k] delete_event_told(3) [OF del(3) i(2)] i(3) ci c0 nd
      by (auto simp: tell_inv_def p saves_def deletes_def)
  next
    case none
    then show ?thesis using t by (auto simp: saves_def)
  qed
qed

lemma run_events_told:
  assumes "run_fold apply_event evs p = Done p'" "tell_inv r k q c must p" "no_nil evs"
    and "must \<or> (\<forall>ev \<in> set evs. \<not> deletes r k ev)"
  shows "tell_inv r k q c must p'"
proof (rule run_fold_inv [where I = "tell_inv r k q c must", OF _ assms(2,1)])
  fix ev s s' assume "ev \<in> set evs" "tell_inv r k q c must s" "apply_event ev s = Done s'"
  then show "tell_inv r k q c must s'"
    using apply_event_told [of ev s s' r k q c must] assms(3,4) by (auto simp: tell_inv_def no_nil_def)
qed

lemma pump_batch_tells:
  assumes inv: "sys_inv sy" and "live sy" and nn: "no_nil (pre @ ev # post)"
    and t: "(r, k, q) \<in> regs (sv_map (sy_srv sy)) c" and u: "only_under q c (sv_map (sy_srv sy))"
    and ev: "saves r k ev" and pre: "\<forall>e \<in> set pre. \<not> deletes r k e"
  shows "\<exists>s'. pump_batch (pre @ ev # post) (sy_srv sy) = Done s' \<and> ch_closed (sv_chans s' ! c) \<and>
     (\<exists>ne \<in> set (ch_buf (sv_chans s' ! c)). is_about r k ne)"
proof -
  let ?s = "sy_srv sy" and ?f = "map cache_event"
  have i: "chan_inv (sv_map ?s) (sv_chans ?s)" "owners (sv_map ?s)"
    using inv by (simp_all add: sys_inv_def)
  have op: "open_regs (sv_map ?s) (sv_chans ?s)"
    using inv assms(2) open_regs_live unfolding sys_inv_def live_def by blast
  obtain m h cm h' where b: "run_fold apply_event (?f (pre @ ev # post)) (sv_map ?s, sv_chans ?s, []) = Done (m, h, cm)"
    "batch_inv (m, h, cm)" "length h' = length h"
    "\<forall>c < length h. h' ! c = (h ! c)\<lparr>ch_closed := ch_closed (h ! c) \<or> c \<in> set (map snd cm)\<rparr>"
    "pump_batch (pre @ ev # post) ?s = Done (?s\<lparr>sv_map := m, sv_chans := h'\<rparr>)"
    using pump_batch_Done [OF i op nn] by blast
  obtain p1 p2 where p: "run_fold apply_event (?f pre) (sv_map ?s, sv_chans ?s, []) = Done p1"
    "apply_event (cache_event ev) p1 = Done p2" "run_fold apply_event (?f post) p2 = Done (m, h, cm)"
    using b(1) by (auto simp: run_fold_append)
  have n: "no_nil (?f pre)" "no_nil (?f post)" "ev_Configuration (cache_event ev) \<noteq> None"
    using nn by (auto simp: no_nil_def cache_event_def)
  have "tell_inv r k q c False (sv_map ?s, sv_chans ?s, [])" using i(1) t u by (simp add: tell_inv_def)
  then have "tell_inv r k q c False p1"
    by (rule run_events_told [OF p(1) _ n(1)]) (use pre in \<open>auto simp: saves_cache\<close>)
  moreover have "\<not> deletes r k (cache_event ev)" using ev unfolding saves_cache by (auto simp: saves_def deletes_def)
  ultimately have "tell_inv r k q c True p2"
    using apply_event_told [OF p(2) _ _ n(3), of r k q c False] ev by (simp add: saves_cache)
  then have "tell_inv r k q c True (m, h, cm)" by (rule run_events_told [OF p(3) _ n(2)]) simp
  then have t: "c < length h" "map_of cm q = Some c" "\<exists>ne \<in> set (ch_buf (h ! c)). is_about r k ne"
    by (simp_all add: tell_inv_def told_def)
  have "c \<in> set (map snd cm)" using map_of_SomeD [OF t(2)] by force
  then show ?thesis using b(4,5) t by (intro exI [of _ "?s\<lparr>sv_map := m, sv_chans := h'\<rparr>"]) simp
qed

section \<open>Requests for one key\<close>

definition one_key :: "AcquireConfigurationReq \<Rightarrow> bool" where
  "one_key req \<longleftrightarrow> length (remdups (wait_keys (req_keys req))) = 1"

definition single :: "selectorsMap \<Rightarrow> bool" where
  "single m \<longleftrightarrow> (\<forall>c. \<forall>t \<in> regs m c. \<forall>u \<in> regs m c. t = u)"

definition done_with :: "selectorsMap \<Rightarrow> (int64, NotifyChannel) gomap \<Rightarrow> bool" where
  "done_with m cm \<longleftrightarrow> (\<forall>p \<in> set cm. regs m (snd p) = {})"

lemma single_mono: "single m \<Longrightarrow> (\<And>c. regs m' c \<subseteq> regs m c) \<Longrightarrow> single m'"
  unfolding single_def by blast

lemma done_with_mono: "done_with m cm \<Longrightarrow> (\<And>c. regs m' c \<subseteq> regs m c) \<Longrightarrow> done_with m' cm"
  unfolding done_with_def by blast

lemma save_event_single:
  assumes s: "save_event c (m, h, cm) = Done (m', h', cm')" and "single m" "done_with m cm"
  shows "single m' \<and> done_with m' cm'"
proof -
  let ?lm = "listeners_of m (cfg_store c) (cfg_id c)"
  note l = save_event_listeners [OF s]
  note r = regs_removed [OF l(1)]
  have cm: "cm' = fold (\<lambda>(q, ch). AList.update q ch) ?lm cm" using notify_sent [OF l(2)] by simp
  have "regs m' (snd p) = {}" if p: "p \<in> set ?lm" for p
  proof -
    have t: "(cfg_store c, cfg_id c, fst p) \<in> regs m (snd p)" using p by (simp add: regs_def)
    have "u \<notin> regs m' (snd p)" for u
    proof
      assume u: "u \<in> regs m' (snd p)"
      then have "u = (cfg_store c, cfg_id c, fst p)"
        using r(3) [of "snd p"] t assms(2) unfolding single_def by blast
      then show False using u l(1) by (simp add: regs_def)
    qed
    then show ?thesis by blast
  qed
  moreover have "done_with m' cm" by (rule done_with_mono [OF assms(3) r(3)])
  ultimately have "done_with m' cm'"
    using set_updates [of ?lm cm] unfolding done_with_def cm by blast
  then show ?thesis using single_mono [OF assms(2) r(3)] by blast
qed

lemma apply_event_single:
  assumes "apply_event ev (m, h, cm) = Done (m', h', cm')" "single m" "done_with m cm"
  shows "single m' \<and> done_with m' cm'"
proof -
  have d: "single m' \<and> done_with m' cm'" if "delete_event c (m, h, cm) = Done (m', h', cm')" for c
    using regs_removed(3) [OF delete_event_listeners [OF that]] single_mono [OF assms(2)]
      done_with_mono [OF assms(3)] delete_event_contents [OF that] by blast
  show ?thesis
    using assms d save_event_single by (auto simp: apply_event_def split: if_splits option.splits)
qed

definition one_inv :: "sys \<Rightarrow> bool" where
  "one_inv sy \<longleftrightarrow> single (sv_map (sy_srv sy)) \<and> open_regs (sv_map (sy_srv sy)) (sv_chans (sy_srv sy)) \<and>
     (\<forall>p \<in> set (sy_pending sy). one_key (snd p))"

lemma batch_one:
  assumes "sys_inv sy" "one_inv sy" "pump_batch evs (sy_srv sy) = Done s2"
  shows "one_inv (sy\<lparr>sy_srv := s2\<rparr>)"
proof -
  let ?m = "sv_map (sy_srv sy)" and ?h = "sv_chans (sy_srv sy)"
  have i: "chan_inv ?m ?h" "owners ?m" "single ?m" "open_regs ?m ?h"
    using assms(1,2) by (simp_all add: sys_inv_def one_inv_def)
  obtain evs' m h cm h' where r: "dedup (map cache_event evs) = Done evs'"
      "run_fold apply_event evs' (?m, ?h, []) = Done (m, h, cm)"
    and cl: "close_all cm h = Done h'" and s2: "s2 = (sy_srv sy)\<lparr>sv_map := m, sv_chans := h'\<rparr>"
    using assms(3) by (auto simp: pump_batch_def)
  let ?I = "\<lambda>p. batch_inv p \<and> single (fst p) \<and> done_with (fst p) (snd (snd p))"
  have "?I (m, h, cm)"
  proof (rule run_fold_inv [OF _ _ r(2)])
    show "?I (?m, ?h, [])" using i by (simp add: batch_inv_def to_close_ok_def done_with_def)
    fix ev p p' assume "?I p" "apply_event ev p = Done p'"
    moreover obtain m1 h1 cm1 m2 h2 cm2 where "p = (m1, h1, cm1)" "p' = (m2, h2, cm2)" by (metis prod_cases3)
    moreover have "batch_inv p'" if "ev_Configuration ev = None" using that calculation(1,2)
      by (auto simp: apply_event_def split: if_splits)
    ultimately show "?I p'"
      using apply_event_Done [of ev p] apply_event_single [of ev m1 h1 cm1 m2 h2 cm2] by auto
  qed
  then have f: "to_close_ok m h cm" "open_regs m h" "single m" "done_with m cm" "chan_inv m h"
    by (simp_all add: batch_inv_def)
  have "\<forall>c \<in> set (map snd cm). c < length h \<and> \<not> ch_closed (h ! c)"
    using f(1) by (auto simp: to_close_ok_def closing_def)
  from close_all_Done [OF to_close_distinct [OF f(1)] this] cl
  have h': "\<forall>c < length h. h' ! c = (h ! c)\<lparr>ch_closed := ch_closed (h ! c) \<or> c \<in> set (map snd cm)\<rparr>" by auto
  have "open_regs m h'" unfolding open_regs_def
  proof (intro allI impI)
    fix c assume ne: "regs m c \<noteq> {}"
    then have "c \<notin> set (map snd cm)" using f(4) unfolding done_with_def by auto
    then show "\<not> ch_closed (h' ! c)"
      using h' ne f(2) chan_invD(3) [OF f(5) ne] unfolding open_regs_def by auto
  qed
  then show ?thesis using f(3) assms(2) by (simp add: one_inv_def s2)
qed

lemma open_regs_append: "chan_inv m h \<Longrightarrow> open_regs m h \<Longrightarrow> open_regs m (h @ [ch])"
  unfolding open_regs_def using chan_invD(3) by (metis nth_append)

lemma register_one:
  assumes "sys_inv sy" "one_inv sy" "one_key req" "RetrieveRegister hu q req (sy_srv sy) = Done (r, s2)"
    and ps: "set ps \<subseteq> set (sy_pending sy)"
  shows "one_inv (track q req r (sy\<lparr>sy_srv := s2, sy_pending := ps\<rparr>))"
  using assms(4)
proof (cases rule: RetrieveRegister_cases)
  case 1
  then show ?thesis using assms(2) ps by (auto simp: one_inv_def)
next
  case (2 cs)
  then show ?thesis using assms(1,2) ps by (auto simp: one_inv_def sys_inv_def intro!: open_regs_append)
next
  case (3 ref)
  let ?m = "sv_map (sy_srv sy)" and ?h = "sv_chans (sy_srv sy)"
  have i: "chan_inv ?m ?h" "single ?m" "open_regs ?m ?h" using assms(1,2) by (simp_all add: sys_inv_def one_inv_def)
  have m2: "sv_map s2 = set_store ?m ref (fold (\<lambda>(g, k). RegisterListener q g k (length ?h)) (req_keys req) (the (store_at ?m ref)))"
    by (simp add: 3)
  note g = regs_registered [OF 3(2) i(1) m2]
  obtain k where k: "set (wait_keys (req_keys req)) = {k}"
    using assms(3) unfolding one_key_def by (metis length_0_conv length_Suc_conv One_nat_def set_remdups list.set(1) list.set(2))
  have "single (sv_map s2)" unfolding single_def
  proof (intro allI ballI)
    fix c t u assume tu: "t \<in> regs (sv_map s2) c" "u \<in> regs (sv_map s2) c"
    show "t = u"
    proof (cases "c = length ?h")
      case True
      then show ?thesis using tu g(3) k by simp
    next
      case False
      then show ?thesis using tu g(2) [OF False] i(2) unfolding single_def by blast
    qed
  qed
  moreover have "open_regs (sv_map s2) (sv_chans s2)" unfolding open_regs_def
  proof (intro allI impI)
    fix c assume ne: "regs (sv_map s2) c \<noteq> {}"
    show "\<not> ch_closed (sv_chans s2 ! c)"
    proof (cases "c = length ?h")
      case False
      then have "regs ?m c \<noteq> {}" using ne g(2) [OF False] by blast
      then show ?thesis using i(3) chan_invD(3) [OF i(1)] unfolding open_regs_def by (simp add: 3 nth_append)
    qed (simp add: 3)
  qed
  ultimately show ?thesis using assms(2) ps by (auto simp: one_inv_def 3(1))
qed

lemma cancel_one:
  assumes "sys_inv sy" "one_inv sy" "(ch, f) \<in> set (sy_waits sy)"
  shows "one_inv (sy\<lparr>sy_srv := run_cancel f (sy_srv sy), sy_waits := ws\<rparr>)"
proof (cases f)
  case (CancelListeners ref q wl)
  let ?m = "sv_map (sy_srv sy)"
  have "wait_store ?m (ch, f)" using assms(1,3) unfolding sys_inv_def by blast
  then have st: "store_at ?m ref \<noteq> None" by (simp add: CancelListeners)
  have ci: "chan_inv ?m (sv_chans (sy_srv sy))" using assms(1) by (simp add: sys_inv_def)
  note c = cancel_regs(2) [OF st ci, where q = q and wl = wl, folded CancelListeners]
  have "sv_chans (run_cancel f (sy_srv sy)) = sv_chans (sy_srv sy)" by (simp add: CancelListeners)
  moreover have "open_regs (sv_map (run_cancel f (sy_srv sy))) (sv_chans (sy_srv sy))"
    using c assms(2) unfolding one_inv_def open_regs_def by blast
  moreover have "single (sv_map (run_cancel f (sy_srv sy)))"
    by (rule single_mono [OF _ c]) (use assms(2) in \<open>simp add: one_inv_def\<close>)
  ultimately show ?thesis using assms(2) by (simp add: one_inv_def)
qed (use assms(2) in \<open>simp add: one_inv_def\<close>)

lemma recv_one:
  assumes "one_inv sy" "chan_recv ch (sv_chans (sy_srv sy)) = Some (v, h)"
  shows "one_inv (sy\<lparr>sy_srv := (sy_srv sy)\<lparr>sv_chans := h\<rparr>\<rparr>)"
proof -
  have "ch_closed (h ! c) = ch_closed (sv_chans (sy_srv sy) ! c)" for c
    using assms(2) by (cases "c = ch") (auto simp: chan_recv_def split: if_splits list.splits)
  then show ?thesis using assms(1) by (simp add: one_inv_def open_regs_def)
qed

lemma sstep_one:
  assumes "sstep hu one_key sy sy'" "sys_inv sy" "one_inv sy"
  shows "one_inv sy'"
  using assms
proof (induction rule: sstep.induct)
  case (call req sy q s1 r s2)
  have s1: "sv_map s1 = sv_map (sy_srv sy)" "sv_chans s1 = sv_chans (sy_srv sy)"
    using call.hyps(2) by (auto simp: nextId_def)
  show ?case using call.hyps(3)
  proof (cases rule: RetrieveCheck_cases)
    case (2 cs)
    then show ?thesis using call.prems s1 by (auto simp: one_inv_def sys_inv_def intro!: open_regs_append)
  qed (use call.prems call.hyps(1) s1 in \<open>auto simp: one_inv_def\<close>)
next
  case (register q req sy r s2)
  have "one_key req" using register.hyps(1) register.prems(2) unfolding one_inv_def by fastforce
  then show ?case by (rule register_one [OF register.prems _ register.hyps(2) set_remove1_subset])
qed (blast intro: batch_one cancel_one recv_one)+

lemma one_inv_init: "one_inv sys_init"
proof -
  have "listeners_of (\<lambda>_. None) r k = []" for r k by (cases r) (simp add: listeners_of_def store_at.simps)
  then have l: "listeners_of (\<lambda>_. None) = (\<lambda>r k. [])" by (simp add: fun_eq_iff)
  then have r: "regs (\<lambda>_. None) c = {}" for c by (simp add: regs_def)
  then show ?thesis by (simp add: one_inv_def sys_init_def newServer_def single_def open_regs_def)
qed

lemma reachable_one: "reachable hu one_key sy \<Longrightarrow> one_inv sy"
  by (induction rule: reachable.induct) (auto intro: one_inv_init sstep_one reachable_inv)

section \<open>What a retrieval returns\<close>

text \<open>The configurations the request is behind on; \<open>None\<close> if one of the keys is unknown.\<close>

definition wanted ::
  "(string \<Rightarrow> string \<Rightarrow> bool) \<Rightarrow> AcquireConfigurationReq \<Rightarrow> server \<Rightarrow> configuration list option" where
  "wanted hu req s =
     (let sel = sel_key (aq_Selectors req); opt = sel_key (aq_OptionalSelectors req);
          look = (\<lambda>v. GetConfigurationViaPlainRequest (rk_Group v) (rk_Key v) sel opt s)
      in if GetSelectorsGeneral (sv_map s) sel opt = None \<or> (\<exists>v \<in> set (aq_Requested req). \<not> is_ok (look v)) then None
         else Some (concat (map (\<lambda>v. case look v of
             Inr c \<Rightarrow> if hu (rk_Version v) (cfg_Version c) then [c] else [] | Inl _ \<Rightarrow> []) (aq_Requested req))))"

lemma check_requested_wanted:
  assumes "GetSelectorsGeneral (sv_map s) sel opt = Some ref"
  shows "check_requested hu (the_store s ref) vs =
    (let look = (\<lambda>v. GetConfigurationViaPlainRequest (rk_Group v) (rk_Key v) sel opt s) in
     if \<exists>v \<in> set vs. \<not> is_ok (look v) then None
     else Some (concat (map (\<lambda>v. case look v of
             Inr c \<Rightarrow> if hu (rk_Version v) (cfg_Version c) then [c] else [] | Inl _ \<Rightarrow> []) vs)))"
proof (induction vs)
  case (Cons v vs)
  show ?case
    using Cons by (auto simp: GetConfigurationViaPlainRequest_def assms Let_def split: option.splits)
qed simp

lemma RetrieveCheck_wanted:
  "RetrieveCheck hu req s =
    (case wanted hu req s of
       None \<Rightarrow> Done (RetErr ErrHasUnknownConfiguration, s)
     | Some [] \<Rightarrow> Done (RetWait, s)
     | Some (c # cs) \<Rightarrow> run_bind (respond_now (c # cs) (sv_chans s)) (\<lambda>(ch, h).
                 Done (RetChan ch CancelNothing, s\<lparr>sv_chans := h\<rparr>)))"
  by (cases "GetSelectorsGeneral (sv_map s) (sel_key (aq_Selectors req)) (sel_key (aq_OptionalSelectors req))")
    (simp_all add: RetrieveCheck_def wanted_def check_requested_wanted Let_def)

lemma registered_regs:
  assumes "chan_inv (sv_map s) (sv_chans s)" "store_at (sv_map s) ref \<noteq> None"
  shows "v \<in> set (aq_Requested req) \<Longrightarrow> (ref, cfgKey (rk_Group v) (rk_Key v), q) \<in>
    regs (set_store (sv_map s) ref (fold (\<lambda>(g, k). RegisterListener q g k (length (sv_chans s))) (req_keys req) (the_store s ref)))
      (length (sv_chans s))"
  unfolding regs_registered(3) [OF assms(2,1) refl] by (force simp: wait_keys_def req_keys_def)

lemma plain_cong:
  "sv_map s' = sv_map s \<Longrightarrow> GetConfigurationViaPlainRequest g k sel opt s' = GetConfigurationViaPlainRequest g k sel opt s"
  unfolding GetConfigurationViaPlainRequest_def by (simp only:)

text \<open>
  The answer a call owes: an error exactly if a key is unknown; the newer configurations on a
  closed channel if there are any; else an open, empty channel registered for every key.
\<close>

definition answers ::
  "(string \<Rightarrow> string \<Rightarrow> bool) \<Rightarrow> AcquireConfigurationReq \<Rightarrow> server \<Rightarrow> retrieval \<Rightarrow> server \<Rightarrow> bool" where
  "answers hu req s r s' =
    (case wanted hu req s of
       None \<Rightarrow> r = RetErr ErrHasUnknownConfiguration \<and> sv_map s' = sv_map s \<and> sv_chans s' = sv_chans s
     | Some (c # cs) \<Rightarrow>
         (\<exists>ch. r = RetChan ch CancelNothing \<and> sv_map s' = sv_map s \<and> ch_closed (sv_chans s' ! ch) \<and>
            map ne_Configuration (ch_buf (sv_chans s' ! ch)) = c # cs)
     | Some [] \<Rightarrow>
         (\<exists>ch ref. r = RetChan ch (CancelListeners ref (sv_cachedId s + 1) (req_keys req)) \<and>
            \<not> ch_closed (sv_chans s' ! ch) \<and> ch_buf (sv_chans s' ! ch) = [] \<and>
            contents (sv_map s') = contents (sv_map s) \<and>
            (\<forall>v \<in> set (aq_Requested req).
               (ref, cfgKey (rk_Group v) (rk_Key v), sv_cachedId s + 1) \<in> regs (sv_map s') ch)))"

lemma retrieve_answers:
  assumes "chan_inv (sv_map s) (sv_chans s)"
  shows "\<exists>r s'. RetrieveOrWait hu req s = Done (r, s') \<and> answers hu req s r s'"
proof -
  let ?s1 = "s\<lparr>sv_cachedId := sv_cachedId s + 1\<rparr>"
  have w: "wanted hu req ?s1 = wanted hu req s"
    by (simp add: wanted_def plain_cong [of s ?s1])
  note c = RetrieveCheck_wanted [of hu req ?s1, unfolded w]
  show ?thesis
  proof (cases "wanted hu req s")
    case None
    then show ?thesis by (simp add: answers_def RetrieveOrWait_def nextId_def c)
  next
    case (Some up)
    show ?thesis
    proof (cases up)
      case (Cons a as)
      then show ?thesis using Some
        by (simp add: answers_def RetrieveOrWait_def nextId_def c respond_now_Done o_def)
    next
      case Nil
      let ?sel = "sel_key (aq_Selectors req)" and ?opt = "sel_key (aq_OptionalSelectors req)"
      obtain ref where ref: "GetSelectorsGeneral (sv_map s) ?sel ?opt = Some ref"
        using Some by (auto simp: wanted_def Let_def split: if_splits)
      have ck: "check_requested hu (the_store ?s1 ref) (aq_Requested req) = Some []"
        using Some [unfolded wanted_def] Nil check_requested_wanted [of s ?sel ?opt ref hu] ref
        by (simp add: Let_def)
      have st: "store_at (sv_map s) ref \<noteq> None" by (rule GetSelectorsGeneral_store [OF ref])
      have d: "ss_data (fold (\<lambda>(g, k). RegisterListener q g k ch) ks st) = ss_data st" for q ch ks st
        by (induction ks arbitrary: st) (auto simp: RegisterListener_def Let_def)
      have "contents (sv_map s) ref = Some (ss_data (the_store s ref))" using st by (auto simp: contents_def)
      then have "(contents (sv_map s))(ref \<mapsto> ss_data (the_store s ref)) = contents (sv_map s)" by (simp add: fun_upd_idem)
      then show ?thesis using Some Nil ref ck registered_regs [OF assms st]
        by (simp add: answers_def RetrieveOrWait_def nextId_def c RetrieveRegister_def chan_make_def contents_set_store [OF st] d
              del: split_paired_Ex split_paired_All)
    qed
  qed
qed

context version_comparator
begin

text \<open>A client that sends back the versions the server holds is not behind.\<close>

lemma current_waits:
  assumes "GetSelectorsGeneral (sv_map s) (sel_key (aq_Selectors req)) (sel_key (aq_OptionalSelectors req)) \<noteq> None"
    and "\<forall>v \<in> set (aq_Requested req). \<exists>c. GetConfigurationViaPlainRequest (rk_Group v) (rk_Key v)
      (sel_key (aq_Selectors req)) (sel_key (aq_OptionalSelectors req)) s = Inr c \<and> cfg_Version c = rk_Version v"
  shows "wanted HasUpdate req s = Some []"
proof -
  have "\<not> (\<exists>v \<in> set (aq_Requested req). \<not> is_ok (GetConfigurationViaPlainRequest (rk_Group v) (rk_Key v)
      (sel_key (aq_Selectors req)) (sel_key (aq_OptionalSelectors req)) s))"
    using assms(2) by force
  moreover have "concat (map (\<lambda>v. case GetConfigurationViaPlainRequest (rk_Group v) (rk_Key v)
      (sel_key (aq_Selectors req)) (sel_key (aq_OptionalSelectors req)) s of
         Inr c \<Rightarrow> if HasUpdate (rk_Version v) (cfg_Version c) then [c] else [] | Inl _ \<Rightarrow> []) (aq_Requested req)) = []"
    using assms(2) no_self_update by fastforce
  ultimately show ?thesis using assms(1) by (simp add: wanted_def Let_def)
qed

text \<open>What a response delivers is newer: the client is never sent what it has.\<close>

lemma wanted_newer:
  assumes "wanted HasUpdate req s = Some cs" "c \<in> set cs"
  shows "\<exists>v \<in> set (aq_Requested req). HasUpdate (rk_Version v) (cfg_Version c) \<and> cfg_Version c \<noteq> rk_Version v"
  using assms no_self_update by (fastforce simp: wanted_def Let_def split: if_splits sum.splits)

end

end
