(* ===== verification/ConfigProps.thy ===== *)
theory ConfigProps
  imports ConfigWaits
begin

text \<open>
  The properties of the configuration server, with a small run of it on which they are applied.
\<close>

section \<open>A run of the server\<close>

text \<open>Two configurations \<open>g/a\<close> and \<open>g/b\<close> without selectors, and clients that hold version 1.\<close>

definition demo_cfg :: "string \<Rightarrow> string \<Rightarrow> configuration" where
  "demo_cfg k v = configuration_zero\<lparr>cfg_Group := ''g'', cfg_Key := k, cfg_Version := v\<rparr>"

definition demo_event :: "string \<Rightarrow> string \<Rightarrow> event" where
  "demo_event k v = \<lparr>ev_Configuration = Some (demo_cfg k v), ev_Created = False, ev_Modified = True, ev_Deleted = False\<rparr>"

definition demo_req :: "string list \<Rightarrow> AcquireConfigurationReq" where
  "demo_req ks = \<lparr>aq_Requested = map (\<lambda>k. \<lparr>rk_Group = ''g'', rk_Key = k, rk_Version = ''1''\<rparr>) ks,
     aq_Selectors = selectors_zero, aq_OptionalSelectors = selectors_zero\<rparr>"

definition demo_map :: "(string \<Rightarrow> configuration option) \<Rightarrow> (string \<Rightarrow> (int64, NotifyChannel) gomap option) \<Rightarrow> selectorsMap" where
  "demo_map d l = [[] \<mapsto> \<lparr>SelectorsStore = \<lparr>ss_data = d, ss_listeners = l\<rparr>, OptSelectorsStore = (\<lambda>_. None)\<rparr>]"

lemma sel_key_zero [simp]: "sel_key selectors_zero = []"
  by (simp add: sel_key_def SelectorsHelperCacheValue_def cache_def selectors_zero_def)

lemma cache_zero [simp]: "cache_cfg (demo_cfg k v) = demo_cfg k v"
  by (simp add: cache_cfg_def demo_cfg_def configuration_zero_def SelectorsHelperCache_def cache_def selectors_zero_def)

lemma cache_demo_event [simp]: "cache_event (demo_event k v) = demo_event k v"
  by (simp add: cache_event_def demo_event_def)

lemma demo_cfg_fields [simp]:
  "cfg_Group (demo_cfg k v) = ''g''" "cfg_Key (demo_cfg k v) = k" "cfg_Version (demo_cfg k v) = v"
  "cfg_Selectors (demo_cfg k v) = selectors_zero" "cfg_OptionalSelectors (demo_cfg k v) = selectors_zero"
  by (simp_all add: demo_cfg_def configuration_zero_def)

lemma demo_save:
  "apply_event (demo_event k v) (demo_map d l, h, cm) =
    run_bind (notify (demo_cfg k v) (case l (cfgKey ''g'' k) of None \<Rightarrow> [] | Some lm \<Rightarrow> lm) cm h) (\<lambda>(h, cm).
      Done (demo_map (d(cfgKey ''g'' k \<mapsto> demo_cfg k v)) (l(cfgKey ''g'' k := None)), h, cm))"
  by (cases "l (cfgKey ''g'' k)"; cases "notify (demo_cfg k v) (the (l (cfgKey ''g'' k))) cm h")
    (simp_all add: apply_event_def demo_event_def save_event_def demo_map_def GetOrCreateSelectorsGeneral_def
      store_at.simps set_store.simps SaveConfigurationWithNotification_def Let_def notify_Nil fun_upd_idem
      case_prod_beta)

lemma demo_first:
  "apply_event (demo_event k v) (\<lambda>_. None, h, cm) = Done (demo_map [cfgKey ''g'' k \<mapsto> demo_cfg k v] (\<lambda>_. None), h, cm)"
  by (simp add: apply_event_def demo_event_def save_event_def demo_map_def GetOrCreateSelectorsGeneral_def
      store_at.simps set_store.simps SaveConfigurationWithNotification_def Let_def newSelectorsStore_def)

lemma demo_store: "GetSelectorsGeneral (demo_map d l) [] [] = Some ([], [])"
  "store_at (demo_map d l) ([], []) = Some \<lparr>ss_data = d, ss_listeners = l\<rparr>"
  by (simp_all add: demo_map_def GetSelectorsGeneral_def store_at.simps)

lemma demo_set_store: "set_store (demo_map d l) ([], []) \<lparr>ss_data = d', ss_listeners = l'\<rparr> = demo_map d' l'"
  by (simp add: demo_map_def set_store.simps)

definition demo_data :: "string \<Rightarrow> string \<Rightarrow> string \<Rightarrow> configuration option" where
  "demo_data va vb = [cfgKey ''g'' ''a'' \<mapsto> demo_cfg ''a'' va, cfgKey ''g'' ''b'' \<mapsto> demo_cfg ''b'' vb]"

lemma demo_keys [simp]: "cfgKey ''g'' ''a'' \<noteq> cfgKey ''g'' ''b''" "cfgKey ''g'' ''b'' \<noteq> cfgKey ''g'' ''a''"
  by (simp_all add: cfgKey_def)

definition demo_start :: sys where
  "demo_start = \<lparr>sy_srv = \<lparr>sv_cachedId = 0, sv_map = demo_map (demo_data ''1'' ''1'') (\<lambda>_. None), sv_chans = []\<rparr>,
     sy_pending = [], sy_waits = []\<rparr>"

lemma demo_start_reachable: "reachable hu P demo_start"
proof -
  have d: "dedup [demo_event ''a'' ''1'', demo_event ''b'' ''1''] = Done [demo_event ''a'' ''1'', demo_event ''b'' ''1'']"
    by (simp add: dedup_no_nil no_nil_def demo_event_def)
  have "pump_batch [demo_event ''a'' ''1'', demo_event ''b'' ''1''] newServer = Done (sy_srv demo_start)"
    by (simp add: pump_batch_def d demo_first demo_save newServer_def notify_Nil close_all_def demo_start_def demo_data_def)
  from sstep.batch [of _ sys_init, simplified sys_init_def, simplified, OF this]
  have "sstep hu P sys_init demo_start" by (simp add: sys_init_def demo_start_def)
  then show ?thesis by (rule reachable.step [OF reachable.init])
qed

text \<open>One client waits for the keys \<open>ks\<close>.\<close>

definition demo_wait :: "string list \<Rightarrow> sys" where
  "demo_wait ks =
    \<lparr>sy_srv = \<lparr>sv_cachedId = 1,
        sv_map = demo_map (demo_data ''1'' ''1'') (\<lambda>k. if k \<in> set (map (cfgKey ''g'') ks) then Some [(1, 0)] else None),
        sv_chans = [\<lparr>ch_buf = [], ch_cap = length ks, ch_closed = False\<rparr>]\<rparr>,
     sy_pending = [], sy_waits = [(0, CancelListeners ([], []) 1 (map (\<lambda>k. (''g'', k)) ks))]\<rparr>"

lemma demo_check:
  assumes "set ks \<subseteq> {''a'', ''b''}"
  shows "check_requested DefaultHasUpdate \<lparr>ss_data = demo_data ''1'' ''1'', ss_listeners = l\<rparr>
    (map (\<lambda>k. \<lparr>rk_Group = ''g'', rk_Key = k, rk_Version = ''1''\<rparr>) ks) = Some []"
  using assms by (induction ks) (auto simp: GetConfiguration_def demo_data_def DefaultHasUpdate_def)

lemma demo_registers:
  "fold (\<lambda>(g, k). RegisterListener 1 g k 0) (map (\<lambda>k. (''g'', k)) ks) \<lparr>ss_data = d, ss_listeners = l\<rparr> =
    \<lparr>ss_data = d, ss_listeners = (\<lambda>k. if k \<in> set (map (cfgKey ''g'') ks)
        then Some (AList.update 1 0 (case l k of None \<Rightarrow> [] | Some m \<Rightarrow> m)) else l k)\<rparr>"
  by (induction ks arbitrary: l)
    (auto simp: RegisterListener_def Let_def fun_eq_iff alist_update_twice split: option.splits)

lemma demo_wait_reachable:
  assumes "P (demo_req ks)" "set ks \<subseteq> {''a'', ''b''}"
  shows "reachable DefaultHasUpdate P (demo_wait ks)"
proof -
  let ?s1 = "(sy_srv demo_start)\<lparr>sv_cachedId := 1\<rparr>"
  let ?p = "demo_start\<lparr>sy_srv := ?s1, sy_pending := [(1, demo_req ks)]\<rparr>"
  have "RetrieveCheck DefaultHasUpdate (demo_req ks) ?s1 = Done (RetWait, ?s1)"
    by (simp add: RetrieveCheck_def demo_req_def demo_start_def demo_store demo_check [OF assms(2)])
  from sstep.call [where P = P, OF assms(1) _ this, of demo_start 1]
  have "sstep DefaultHasUpdate P demo_start ?p" by (simp add: nextId_def demo_start_def)
  then have p: "reachable DefaultHasUpdate P ?p" by (rule reachable.step [OF demo_start_reachable])
  have "RetrieveRegister DefaultHasUpdate 1 (demo_req ks) (sy_srv ?p) =
    Done (RetChan 0 (CancelListeners ([], []) 1 (map (\<lambda>k. (''g'', k)) ks)), sy_srv (demo_wait ks))"
    by (simp add: RetrieveRegister_def demo_req_def demo_start_def demo_store demo_check [OF assms(2)]
        chan_make_def req_keys_def o_def demo_registers demo_set_store demo_wait_def
        cong: if_cong)
  from sstep.register [of 1 "demo_req ks" ?p, OF _ this, where P = P]
  have "sstep DefaultHasUpdate P ?p (demo_wait ks)" by (simp add: demo_wait_def demo_start_def)
  then show ?thesis by (rule reachable.step [OF p])
qed


section \<open>The properties\<close>

lemma demo_start_inv: "chan_inv (sv_map (sy_srv demo_start)) (sv_chans (sy_srv demo_start))"
  using reachable_inv [OF demo_start_reachable] by (simp add: sys_inv_def)



text \<open>C33. A batch of pump events refines the abstract contents of the stores: the contents
  after it are the fold of the abstract updates (a created or modified configuration is stored
  in the store of its selectors, a deleted one removed, a store that is missing is opened
  empty), in the order of the events, whatever the listeners and channels.\<close>

theorem pump_refines_contents:
  assumes "pump_batch evs s = Done s'"
  shows "contents (sv_map s') = fold abs_event (map cache_event evs) (contents (sv_map s))"
  by (rule pump_batch_contents [OF assms])

lemma demo_batch: "pump_batch [demo_event ''a'' ''1'', demo_event ''b'' ''1''] newServer = Done (sy_srv demo_start)"
proof -
  have d: "dedup [demo_event ''a'' ''1'', demo_event ''b'' ''1''] = Done [demo_event ''a'' ''1'', demo_event ''b'' ''1'']"
    by (simp add: dedup_no_nil no_nil_def demo_event_def)
  then show ?thesis
    by (simp add: pump_batch_def d demo_first demo_save newServer_def notify_Nil close_all_def demo_start_def demo_data_def)
qed

theorem pump_refines_contents_witness:
  "contents (sv_map (sy_srv demo_start)) =
     fold abs_event (map cache_event [demo_event ''a'' ''1'', demo_event ''b'' ''1'']) (contents (sv_map newServer))"
  by (rule pump_refines_contents [OF demo_batch])

text \<open>C3. No pump batch ever blocks: in every reachable state of the server, with retrievals,
  cancellations, receives and earlier batches interleaved in any order, each send of the batch
  finds room in the channel of the waiting request.\<close>

theorem pump_never_blocks:
  assumes "reachable hu P sy"
  shows "pump_batch evs (sy_srv sy) \<noteq> Block"
  using reachable_inv [OF assms] by (intro pump_batch_not_Block) (simp add: sys_inv_def)

theorem pump_never_blocks_witness:
  "pump_batch [demo_event ''b'' ''2'', demo_event ''a'' ''2'', demo_event ''a'' ''3''] (sy_srv (demo_wait [''a'', ''b''])) \<noteq> Block"
  by (rule pump_never_blocks [OF demo_wait_reachable [where P = "\<lambda>_. True"]]) simp_all

text \<open>C1. A waiting client is told: if a channel is registered for a key when a batch creates or
  modifies that key (and no earlier event of the batch deletes it), then, as long as the
  channels not yet cancelled are open and no other channel has the same request id, the batch
  runs to its end, the channel holds a configuration of that key, and it is closed.\<close>

theorem pump_notifies:
  assumes "reachable hu P sy" and "live sy" and "no_nil (pre @ ev # post)"
    and "(r, k, q) \<in> regs (sv_map (sy_srv sy)) c" and "only_under q c (sv_map (sy_srv sy))"
    and "saves r k ev" and "\<forall>e \<in> set pre. \<not> deletes r k e"
  shows "\<exists>s'. pump_batch (pre @ ev # post) (sy_srv sy) = Done s' \<and> ch_closed (sv_chans s' ! c) \<and>
     (\<exists>ne \<in> set (ch_buf (sv_chans s' ! c)). is_about r k ne)"
  by (rule pump_batch_tells [OF reachable_inv [OF assms(1)] assms(2-7)])

lemma demo_listeners: "listeners_of (sv_map (sy_srv (demo_wait ks))) r k =
   (if r = ([], []) \<and> k \<in> set (map (cfgKey ''g'') ks) then [(1, 0)] else [])"
  by (cases r) (auto simp: listeners_of_def demo_wait_def demo_map_def store_at.simps)

lemma demo_regs: "t \<in> regs (sv_map (sy_srv (demo_wait ks))) c \<longleftrightarrow>
    c = 0 \<and> fst t = ([], []) \<and> fst (snd t) \<in> set (map (cfgKey ''g'') ks) \<and> snd (snd t) = 1"
  by (cases t) (auto simp: regs_def demo_listeners)

lemma demo_live: "live (demo_wait ks)"
  by (simp add: live_def demo_wait_def)

theorem pump_notifies_witness:
  "\<exists>s'. pump_batch ([demo_event ''b'' ''2''] @ demo_event ''a'' ''2'' # []) (sy_srv (demo_wait [''a''])) = Done s' \<and>
     ch_closed (sv_chans s' ! 0) \<and>
     (\<exists>ne \<in> set (ch_buf (sv_chans s' ! 0)). is_about ([], []) (cfgKey ''g'' ''a'') ne)"
proof (rule pump_notifies [where hu = DefaultHasUpdate and P = "\<lambda>_. True" and q = 1])
  show "reachable DefaultHasUpdate (\<lambda>_. True) (demo_wait [''a''])" by (rule demo_wait_reachable) simp_all
  show "(([], []), cfgKey ''g'' ''a'', 1) \<in> regs (sv_map (sy_srv (demo_wait [''a'']))) 0"
    by (simp add: demo_regs)
  show "only_under 1 0 (sv_map (sy_srv (demo_wait [''a''])))" by (simp add: only_under_def demo_regs)
qed (simp_all add: demo_live no_nil_def demo_event_def saves_def deletes_def cfg_store_def)

text \<open>While every request asks for one key, the pump loop cannot crash: in every reachable
  state a batch of events with a configuration runs to its end, without a send on a closed
  channel, a second close or a blocked send.\<close>

theorem pump_single_key_Done:
  assumes "reachable hu one_key sy" and "no_nil evs"
  shows "\<exists>s'. pump_batch evs (sy_srv sy) = Done s'"
  using reachable_inv [OF assms(1)] reachable_one [OF assms(1)] pump_batch_Done [of "sy_srv sy" evs] assms(2)
  unfolding sys_inv_def one_inv_def by blast

theorem pump_single_key_Done_witness:
  "\<exists>s'. pump_batch [demo_event ''a'' ''2'', demo_event ''b'' ''2''] (sy_srv (demo_wait [''a''])) = Done s'"
proof (rule pump_single_key_Done)
  show "reachable DefaultHasUpdate one_key (demo_wait [''a''])"
    by (rule demo_wait_reachable) (simp_all add: one_key_def demo_req_def req_keys_def)
qed (simp add: no_nil_def demo_event_def)

definition demo_after_a :: sys where
  "demo_after_a = \<lparr>sy_srv = \<lparr>sv_cachedId = 1,
        sv_map = demo_map (demo_data ''2'' ''1'') ((\<lambda>_. None)(cfgKey ''g'' ''b'' \<mapsto> [(1, 0)])),
        sv_chans = [\<lparr>ch_buf = [\<lparr>ne_Configuration = demo_cfg ''a'' ''2''\<rparr>], ch_cap = 2, ch_closed = True\<rparr>]\<rparr>,
     sy_pending = [], sy_waits = [(0, CancelListeners ([], []) 1 [(''g'', ''a''), (''g'', ''b'')])]\<rparr>"

lemma demo_two_keys:
  "sv_map (sy_srv (demo_wait [''a'', ''b''])) =
     demo_map (demo_data ''1'' ''1'') [cfgKey ''g'' ''a'' \<mapsto> [(1, 0)], cfgKey ''g'' ''b'' \<mapsto> [(1, 0)]]"
  by (auto simp: demo_wait_def demo_map_def fun_eq_iff)

lemma demo_first_batch:
  "pump_batch [demo_event ''a'' ''2''] (sy_srv (demo_wait [''a'', ''b''])) = Done (sy_srv demo_after_a)"
proof -
  have d: "dedup [demo_event ''a'' ''2''] = Done [demo_event ''a'' ''2'']"
    by (simp add: dedup_no_nil no_nil_def demo_event_def)
  have l: "([cfgKey ''g'' ''a'' \<mapsto> [(1, 0)], cfgKey ''g'' ''b'' \<mapsto> [(1, 0)]])(cfgKey ''g'' ''a'' := None) =
      (\<lambda>_. None)(cfgKey ''g'' ''b'' \<mapsto> [(1 :: int64, 0 :: nat)])"
    by (auto simp: fun_eq_iff)
  have m: "(demo_data ''1'' ''1'')(cfgKey ''g'' ''a'' \<mapsto> demo_cfg ''a'' ''2'') = demo_data ''2'' ''1''"
    by (auto simp: demo_data_def fun_eq_iff)
  have w: "sy_srv (demo_wait [''a'', ''b'']) = \<lparr>sv_cachedId = 1,
     sv_map = demo_map (demo_data ''1'' ''1'') [cfgKey ''g'' ''a'' \<mapsto> [(1, 0)], cfgKey ''g'' ''b'' \<mapsto> [(1, 0)]],
     sv_chans = [\<lparr>ch_buf = [], ch_cap = 2, ch_closed = False\<rparr>]\<rparr>"
    using demo_two_keys by (simp add: demo_wait_def)
  show ?thesis unfolding w
    by (simp add: pump_batch_def d demo_save notify_Cons notify_Nil chan_send_def close_all_def chan_close_def
        demo_after_a_def l m)
qed

text \<open>C32. With two keys in a request it can: a client waits for two keys, a batch that updates
  the first one closes its channel, and if the next batch updates the second one before the
  client has called its cancel function, the send on the closed channel panics.\<close>

theorem pump_two_keys_Panic:
  "reachable DefaultHasUpdate (\<lambda>_. True) demo_after_a \<and> no_nil [demo_event ''b'' ''2''] \<and>
   pump_batch [demo_event ''b'' ''2''] (sy_srv demo_after_a) = Panic"
proof (intro conjI)
  have "sstep DefaultHasUpdate (\<lambda>_. True) (demo_wait [''a'', ''b'']) demo_after_a"
    using sstep.batch [OF demo_first_batch] by (simp add: demo_after_a_def demo_wait_def)
  then show "reachable DefaultHasUpdate (\<lambda>_. True) demo_after_a"
    by (intro reachable.step [OF demo_wait_reachable [where P = "\<lambda>_. True" and ks = "[''a'', ''b'']"]]) simp_all
  show n: "no_nil [demo_event ''b'' ''2'']" by (simp add: no_nil_def demo_event_def)
  show "pump_batch [demo_event ''b'' ''2''] (sy_srv demo_after_a) = Panic"
    by (simp add: pump_batch_def dedup_no_nil [OF n] demo_after_a_def demo_save notify_Cons chan_send_def)
qed

lemma plain_contents:
  "GetConfigurationViaPlainRequest g k sel opt s =
    (case (if contents (sv_map s) (sel, opt) \<noteq> None then contents (sv_map s) (sel, opt) else contents (sv_map s) (sel, [])) of
       None \<Rightarrow> Inl ErrHasUnknownConfiguration
     | Some d \<Rightarrow> (case d (cfgKey g k) of None \<Rightarrow> Inl ErrHasUnknownConfiguration | Some c \<Rightarrow> Inr c))"
proof (cases "store_at (sv_map s) (sel, opt)")
  case None
  then show ?thesis
    using GetSelectorsGeneral_fallback [OF None]
    by (auto simp: GetConfigurationViaPlainRequest_def contents_def GetConfiguration_def split: option.splits)
next
  case (Some st)
  then show ?thesis
    using GetSelectorsGeneral_exact [of "sv_map s" sel opt]
    by (auto simp: GetConfigurationViaPlainRequest_def contents_def GetConfiguration_def split: option.splits)
qed

definition delete_of :: "configuration \<Rightarrow> event" where
  "delete_of c = \<lparr>ev_Configuration = Some c, ev_Created = False, ev_Modified = False, ev_Deleted = True\<rparr>"

text \<open>C38. A delete event for optional selectors that have no store of their own hides the
  default configurations: a lookup with these selectors, which fell back to the default store
  before, finds nothing afterwards, because the event opened an empty store.\<close>

theorem delete_shadows_default:
  assumes "contents (sv_map s) (sel, opt) = None" and "cfg_store c = (sel, opt)"
    and "pump_batch [delete_of c] s = Done s'"
  shows "GetConfigurationViaPlainRequest g k sel opt s = GetConfigurationViaPlainRequest g k sel [] s \<and>
    GetConfigurationViaPlainRequest g k sel opt s' = Inl ErrHasUnknownConfiguration"
proof -
  have "contents (sv_map s') = abs_set (cache_cfg c) None (contents (sv_map s))"
    using pump_batch_contents [OF assms(3)] by (simp add: cache_event_def abs_event_def delete_of_def)
  then have "contents (sv_map s') (sel, opt) = Some (\<lambda>_. None)"
    using assms(1,2) by (simp add: abs_set_def abs_open_def Let_def fun_upd_idem)
  then show ?thesis using assms(1) by (simp add: plain_contents)
qed

definition demo_opt_cfg :: configuration where
  "demo_opt_cfg = (demo_cfg ''a'' ''1'')\<lparr>cfg_OptionalSelectors := \<lparr>s_Data = [(''x'', ''y'')], s_cached = []\<rparr>\<rparr>"

lemma demo_opt_store: "cfg_store demo_opt_cfg = ([], ''x=y'')"
proof -
  have "sel_key \<lparr>s_Data = [(''x'', ''y'')], s_cached = []\<rparr> = ''x=y''"
    by (simp add: sel_key_def SelectorsHelperCacheValue_def cache_def sel_text_def)
  then show ?thesis by (simp add: cfg_store_def demo_opt_cfg_def)
qed

theorem delete_shadows_default_witness:
  "\<exists>s'. pump_batch [delete_of demo_opt_cfg] (sy_srv demo_start) = Done s' \<and>
     GetConfigurationViaPlainRequest ''g'' ''a'' [] ''x=y'' (sy_srv demo_start) = Inr (demo_cfg ''a'' ''1'') \<and>
     GetConfigurationViaPlainRequest ''g'' ''a'' [] ''x=y'' s' = Inl ErrHasUnknownConfiguration"
proof -
  have c: "contents (sv_map (sy_srv demo_start)) ([], ''x=y'') = None"
    by (simp add: demo_start_def contents_def demo_map_def store_at.simps)
  obtain s' where s': "pump_batch [delete_of demo_opt_cfg] (sy_srv demo_start) = Done s'"
    using live_batch_Done [OF reachable_inv [OF demo_start_reachable], of "[delete_of demo_opt_cfg]"]
    by (auto simp: live_def demo_start_def no_nil_def delete_of_def)
  have "GetConfigurationViaPlainRequest ''g'' ''a'' [] [] (sy_srv demo_start) = Inr (demo_cfg ''a'' ''1'')"
    by (simp add: GetConfigurationViaPlainRequest_def demo_start_def demo_store GetConfiguration_def demo_data_def)
  with s' delete_shadows_default [OF c demo_opt_store s'] show ?thesis by auto
qed

text \<open>A client that sends back the versions the server holds waits: it gets a channel from
  which nothing can be received yet, not an answer it already has.\<close>

theorem current_client_waits:
  assumes "chan_inv (sv_map s) (sv_chans s)"
    and "GetSelectorsGeneral (sv_map s) (sel_key (aq_Selectors req)) (sel_key (aq_OptionalSelectors req)) \<noteq> None"
    and "\<forall>v \<in> set (aq_Requested req). \<exists>c. GetConfigurationViaPlainRequest (rk_Group v) (rk_Key v)
      (sel_key (aq_Selectors req)) (sel_key (aq_OptionalSelectors req)) s = Inr c \<and> cfg_Version c = rk_Version v"
  shows "\<exists>ch f s'. RetrieveOrWait DefaultHasUpdate req s = Done (RetChan ch f, s') \<and> chan_recv ch (sv_chans s') = None"
proof -
  obtain r s' where r: "RetrieveOrWait DefaultHasUpdate req s = Done (r, s')" "answers DefaultHasUpdate req s r s'"
    using retrieve_answers [OF assms(1)] by blast
  have "wanted DefaultHasUpdate req s = Some []" by (rule default_version.current_waits [OF assms(2,3)])
  with r(2) obtain ch f where "r = RetChan ch f" "\<not> ch_closed (sv_chans s' ! ch)" "ch_buf (sv_chans s' ! ch) = []"
    by (auto simp: answers_def)
  with r(1) show ?thesis by (auto simp: chan_recv_def)
qed

lemma demo_lookup: "GetConfigurationViaPlainRequest ''g'' ''a'' [] [] (sy_srv demo_start) = Inr (demo_cfg ''a'' ''1'')"
  "GetConfigurationViaPlainRequest ''g'' ''b'' [] [] (sy_srv demo_start) = Inr (demo_cfg ''b'' ''1'')"
  by (simp_all add: GetConfigurationViaPlainRequest_def demo_start_def demo_store GetConfiguration_def demo_data_def)

theorem current_client_waits_witness:
  "\<exists>ch f s'. RetrieveOrWait DefaultHasUpdate (demo_req [''a'', ''b'']) (sy_srv demo_start) = Done (RetChan ch f, s') \<and>
     chan_recv ch (sv_chans s') = None"
  by (rule current_client_waits [OF demo_start_inv])
    (simp_all add: demo_req_def demo_lookup, simp add: demo_start_def demo_store)

end
