(* ===== verification/ConfigDb.thy ===== *)
theory ConfigDb
  imports ConfigProps
begin

text \<open>
  The database behind the configuration server (\<open>configure/cfgimpl/datawriter.go\<close>,
  \<open>datapump.go\<close>, \<open>ddl_pg.sql\<close>): the table \<open>configuration\<close> and its sequence, the statements
  of the writer and of the pump on it, the writer's transactions, the pump's dump and scans.
  Failures of the database and the outcomes of the advisory lock are parameters.
\<close>

section \<open>The table\<close>

record cfg_row =
  cr_id :: int
  cr_sel :: string
  cr_opt :: string
  cr_group :: string
  cr_key :: string
  cr_version :: string
  cr_status :: int
  cr_raw :: bytes
  cr_created :: int64
  cr_updated :: int64
  cr_seq :: int

record cfg_db =
  db_rows :: "cfg_row list"
  db_nextId :: int
  db_nextSeq :: int   \<comment> \<open>\<open>cfg_seq\<close>, incremented by 16\<close>

definition empty_db :: cfg_db where
  "empty_db = \<lparr>db_rows = [], db_nextId = 1, db_nextSeq = 1\<rparr>"

type_synonym row_key = "string \<times> string \<times> string \<times> string"

definition row_key :: "cfg_row \<Rightarrow> row_key" where
  "row_key r = (cr_sel r, cr_opt r, cr_group r, cr_key r)"

text \<open>What may go wrong in one call, and the lock of each attempt.\<close>

record db_env =
  en_acquire :: "go_error option"
  en_begin :: "go_error option"
  en_select :: "go_error option"
  en_insert :: "go_error option"
  en_update :: "nat \<Rightarrow> go_error option"
  en_lock :: "nat \<Rightarrow> bool"
  en_rollback :: "go_error option"
  en_commit :: "go_error option"
  en_now :: int64

section \<open>The writer's statements\<close>

definition getExistingConfiguration ::
  "db_env \<Rightarrow> string \<Rightarrow> string \<Rightarrow> string \<Rightarrow> string \<Rightarrow> cfg_db \<Rightarrow> int res" where
  "getExistingConfiguration en selStr optSelStr grp key db =
     (case en_select en of
        Some e \<Rightarrow> Inl e
      | None \<Rightarrow>
          (case filter (\<lambda>r. row_key r = (selStr, optSelStr, grp, key)) (db_rows db) of
             [] \<Rightarrow> Inr 0
           | r # _ \<Rightarrow> Inr (cr_id r)))"

text \<open>The two unique indexes refuse a second row of the same key or of the same sequence.\<close>

definition insertConfiguration ::
  "db_env \<Rightarrow> string \<Rightarrow> string \<Rightarrow> configuration \<Rightarrow> bytes \<Rightarrow> cfg_db \<Rightarrow> int res \<times> cfg_db" where
  "insertConfiguration en selStr optSelStr cfg data db =
     (case en_insert en of
        Some e \<Rightarrow> (Inl e, db)
      | None \<Rightarrow>
          if \<exists>r \<in> set (db_rows db). row_key r = (selStr, optSelStr, cfg_Group cfg, cfg_Key cfg) \<or> cr_seq r = 0
          then (Inl (Errorf ''duplicate key value violates unique constraint''), db)
          else (Inr (db_nextId db),
            db\<lparr>db_rows := db_rows db @
                 [\<lparr>cr_id = db_nextId db, cr_sel = selStr, cr_opt = optSelStr, cr_group = cfg_Group cfg,
                   cr_key = cfg_Key cfg, cr_version = cfg_Version cfg, cr_status = 0, cr_raw = data,
                   cr_created = en_now en, cr_updated = en_now en, cr_seq = 0\<rparr>],
               db_nextId := db_nextId db + 1\<rparr>))"

definition updateConfigurationSequence :: "db_env \<Rightarrow> nat \<Rightarrow> int \<Rightarrow> cfg_db \<Rightarrow> bool res \<times> cfg_db" where
  "updateConfigurationSequence en i cfgId db =
     (case en_update en i of
        Some e \<Rightarrow> (Inl e, db)
      | None \<Rightarrow>
          if en_lock en i \<and> (\<exists>r \<in> set (db_rows db). cr_id r = cfgId) then
            (Inr True, db\<lparr>db_rows := map (\<lambda>r. if cr_id r = cfgId
                then r\<lparr>cr_updated := en_now en, cr_seq := db_nextSeq db\<rparr> else r) (db_rows db),
              db_nextSeq := db_nextSeq db + 16\<rparr>)
          else (Inr False, db))"

definition updateConfiguration ::
  "db_env \<Rightarrow> nat \<Rightarrow> configuration \<Rightarrow> bytes \<Rightarrow> int \<Rightarrow> cfg_db \<Rightarrow> bool res \<times> cfg_db" where
  "updateConfiguration en i cfg data cfgId db =
     (case en_update en i of
        Some e \<Rightarrow> (Inl e, db)
      | None \<Rightarrow>
          if en_lock en i \<and> (\<exists>r \<in> set (db_rows db). cr_id r = cfgId) then
            (Inr True, db\<lparr>db_rows := map (\<lambda>r. if cr_id r = cfgId
                then r\<lparr>cr_version := cfg_Version cfg, cr_raw := data, cr_updated := en_now en,
                       cr_seq := db_nextSeq db\<rparr> else r) (db_rows db),
              db_nextSeq := db_nextSeq db + 16\<rparr>)
          else (Inr False, db))"

section \<open>The writer\<close>

definition NRetry :: nat where
  "NRetry = 10"

text \<open>The retry loop: attempts \<open>i\<close> and on, \<open>n\<close> of them left.\<close>

fun cas_loop :: "db_env \<Rightarrow> configuration \<Rightarrow> bytes \<Rightarrow> int \<Rightarrow> nat \<Rightarrow> nat \<Rightarrow> cfg_db \<Rightarrow> unit res \<times> cfg_db" where
  "cas_loop en cfg data cfgId i 0 db = (Inl (Errorf ''too many configuration update retries''), db)"
| "cas_loop en cfg data cfgId i (Suc n) db =
     (case (if 0 < cfgId then updateConfiguration en i cfg data cfgId db
            else updateConfigurationSequence en i cfgId db) of
        (Inl e, db) \<Rightarrow> (Inl e, db)
      | (Inr updated, db) \<Rightarrow> if updated then (Inr (), db) else cas_loop en cfg data cfgId (Suc i) n db)"

text \<open>The body of the transaction.\<close>

definition save_tx :: "db_env \<Rightarrow> string \<Rightarrow> string \<Rightarrow> configuration \<Rightarrow> bytes \<Rightarrow> cfg_db \<Rightarrow> unit res \<times> cfg_db" where
  "save_tx en selStr optSelStr cfg data db =
     (case getExistingConfiguration en selStr optSelStr (cfg_Group cfg) (cfg_Key cfg) db of
        Inl e \<Rightarrow> (Inl e, db)
      | Inr cfgId \<Rightarrow>
          if cfgId \<le> 0 then
            (case insertConfiguration en selStr optSelStr cfg data db of
               (Inl e, db) \<Rightarrow> (Inl e, db)
             | (Inr newCfgId, db) \<Rightarrow> cas_loop en cfg data newCfgId 0 NRetry db)
          else cas_loop en cfg data cfgId 0 NRetry db)"

text \<open>\<open>SaveConfiguration\<close>: commit or roll back; the encoding is a parameter.\<close>

definition SaveConfiguration ::
  "(bytes \<Rightarrow> bytes) \<Rightarrow> (configuration \<Rightarrow> bytes res) \<Rightarrow> db_env \<Rightarrow> configuration \<Rightarrow> cfg_db \<Rightarrow> unit res \<times> cfg_db" where
  "SaveConfiguration sha marshal en cfg db =
     (if \<not> ValidateSignature sha cfg then (Inl (Errorf ''invalid signature''), db)
      else
        let selStr = fst (SelectorsHelperCacheValue (cfg_Selectors cfg));
            cfg = cfg\<lparr>cfg_Selectors := snd (SelectorsHelperCacheValue (cfg_Selectors cfg))\<rparr>;
            optSelStr = fst (SelectorsHelperCacheValue (cfg_OptionalSelectors cfg));
            cfg = cfg\<lparr>cfg_OptionalSelectors := snd (SelectorsHelperCacheValue (cfg_OptionalSelectors cfg))\<rparr>
        in case marshal cfg of
             Inl e \<Rightarrow> (Inl e, db)
           | Inr data \<Rightarrow>
               (case (en_acquire en, en_begin en) of
                  (Some e, _) \<Rightarrow> (Inl e, db)
                | (None, Some e) \<Rightarrow> (Inl e, db)
                | (None, None) \<Rightarrow>
                    (case save_tx en selStr optSelStr cfg data db of
                       (Inl e, db') \<Rightarrow>
                         (Inl (case en_rollback en of None \<Rightarrow> e | Some terr \<Rightarrow> Errorf ''joined errors''), db)
                     | (Inr _, db') \<Rightarrow>
                         (case en_commit en of Some e \<Rightarrow> (Inl e, db) | None \<Rightarrow> (Inr (), db')))))"

definition db_DeleteConfiguration ::
  "db_env \<Rightarrow> string \<Rightarrow> string \<Rightarrow> string \<Rightarrow> string \<Rightarrow> cfg_db \<Rightarrow> bool res \<times> cfg_db" where
  "db_DeleteConfiguration en grp key sel optSel db =
     (case en_acquire en of
        Some e \<Rightarrow> (Inl e, db)
      | None \<Rightarrow>
          (case en_update en 0 of
             Some e \<Rightarrow> (Inl e, db)
           | None \<Rightarrow>
               if en_lock en 0 \<and> (\<exists>r \<in> set (db_rows db). row_key r = (sel, optSel, grp, key)) then
                 (Inr True, db\<lparr>db_rows := map (\<lambda>r. if row_key r = (sel, optSel, grp, key)
                     then r\<lparr>cr_status := 1, cr_updated := en_now en, cr_seq := db_nextSeq db\<rparr> else r) (db_rows db),
                   db_nextSeq := db_nextSeq db + 16\<rparr>)
               else (Inr False, db)))"

section \<open>The pump\<close>

definition maxRowPerQuery :: nat where
  "maxRowPerQuery = 100"

definition queryMaxSequence :: "cfg_db \<Rightarrow> int" where
  "queryMaxSequence db = (if db_rows db = [] then 0 else Max (set (map cr_seq (db_rows db))))"

text \<open>The rows of a query, in ascending order of their sequence, at most \<open>maxRowPerQuery\<close>.\<close>

definition page :: "int \<Rightarrow> int \<Rightarrow> cfg_db \<Rightarrow> cfg_row list" where
  "page startExcluded maxIdIncluded db =
     take maxRowPerQuery (sort_key cr_seq
       (filter (\<lambda>r. startExcluded < cr_seq r \<and> cr_seq r \<le> maxIdIncluded) (db_rows db)))"

fun decode_rows :: "(bytes \<Rightarrow> configuration res) \<Rightarrow> cfg_row list \<Rightarrow> (int \<times> int \<times> configuration) list res" where
  "decode_rows unmarshal [] = Inr []"
| "decode_rows unmarshal (r # rs) =
     res_bind (unmarshal (cr_raw r)) (\<lambda>cfg.
     res_bind (decode_rows unmarshal rs) (\<lambda>res. Inr ((cr_seq r, cr_status r, cfg) # res)))"

definition queryConfigurations ::
  "(bytes \<Rightarrow> configuration res) \<Rightarrow> int \<Rightarrow> int \<Rightarrow> cfg_db \<Rightarrow> (int \<times> int \<times> configuration) list res" where
  "queryConfigurations unmarshal startExcluded maxIdIncluded db =
     decode_rows unmarshal (page startExcluded maxIdIncluded db)"

fun row_event :: "int \<times> int \<times> configuration \<Rightarrow> event" where
  "row_event (sq, status, cfg) =
     \<lparr>ev_Configuration = Some cfg, ev_Created = (status = 0), ev_Modified = False, ev_Deleted = (status = 1)\<rparr>"

lemma page_bounds:
  "r \<in> set (page st mx db) \<Longrightarrow> r \<in> set (db_rows db) \<and> st < cr_seq r \<and> cr_seq r \<le> mx"
  unfolding page_def by (auto dest!: in_set_takeD)

lemma decode_rows_Inr:
  "decode_rows unmarshal rs = Inr xs \<Longrightarrow> map fst xs = map cr_seq rs \<and> map (fst o snd) xs = map cr_status rs \<and>
   list_all2 (\<lambda>x r. unmarshal (cr_raw r) = Inr (snd (snd x))) xs rs"
  by (induction unmarshal rs arbitrary: xs rule: decode_rows.induct) auto

lemma page_progress:
  assumes "queryConfigurations u st mx db = Inr (x # xs)"
  shows "st < fst (last (x # xs)) \<and> fst (last (x # xs)) \<le> mx"
proof -
  have d: "decode_rows u (page st mx db) = Inr (x # xs)" using assms by (simp add: queryConfigurations_def)
  from decode_rows_Inr [OF this] have m: "map fst (x # xs) = map cr_seq (page st mx db)" by simp
  have "last (x # xs) \<in> set (x # xs)" by (rule last_in_set) simp
  then have "fst (last (x # xs)) \<in> set (map fst (x # xs))" by (simp only: set_map image_eqI)
  then have "fst (last (x # xs)) \<in> cr_seq ` set (page st mx db)" unfolding m by (simp only: set_map)
  then show ?thesis using page_bounds by auto
qed

text \<open>
  The pages of the dump, from \<open>start\<close> to the sequence read at its beginning; \<open>None\<close> when a
  row does not decode: the pump then repeats the same query for ever.
\<close>

function dump_pages ::
  "(bytes \<Rightarrow> configuration res) \<Rightarrow> int \<Rightarrow> int \<Rightarrow> cfg_db \<Rightarrow> event list option" where
  "dump_pages unmarshal start lastUpdateScanId db =
     (case queryConfigurations unmarshal start lastUpdateScanId db of
        Inl e \<Rightarrow> None
      | Inr [] \<Rightarrow> Some []
      | Inr (x # xs) \<Rightarrow>
          (case dump_pages unmarshal (fst (last (x # xs))) lastUpdateScanId db of
             None \<Rightarrow> None
           | Some evs \<Rightarrow> Some (map row_event (x # xs) @ evs)))"
  by pat_completeness auto
termination
  by (relation "measure (\<lambda>(u, st, mx, db). nat (mx - st))")
    (use page_progress in \<open>fastforce+\<close>)

declare dump_pages.simps [simp del]

definition TriggerDumpToChannel :: "(bytes \<Rightarrow> configuration res) \<Rightarrow> cfg_db \<Rightarrow> (event list \<times> int) option" where
  "TriggerDumpToChannel unmarshal db =
     (let lastUpdateScanId = queryMaxSequence db in
      case dump_pages unmarshal 0 lastUpdateScanId db of
        None \<Rightarrow> None
      | Some evs \<Rightarrow> Some (evs, lastUpdateScanId))"

definition MaxInt64_seq :: int where
  "MaxInt64_seq = 2 ^ 63 - 1"

text \<open>One turn of \<open>scanLoop\<close>: the events sent, the new mark, and whether it goes on at once.\<close>

definition scan_turn ::
  "(bytes \<Rightarrow> configuration res) \<Rightarrow> int \<Rightarrow> cfg_db \<Rightarrow> event list \<times> int \<times> bool" where
  "scan_turn unmarshal updateScanId db =
     (case queryConfigurations unmarshal updateScanId MaxInt64_seq db of
        Inl e \<Rightarrow> ([], updateScanId, True)
      | Inr [] \<Rightarrow> ([], updateScanId, False)
      | Inr (x # xs) \<Rightarrow> (map row_event (x # xs), fst (last (x # xs)), True))"

end
