(* ===== verification/ConfigSync.thy ===== *)
theory ConfigSync
  imports ConfigDb
begin

text \<open>
  The configuration's way from the writer over the table and the pump to the server: what a
  write does to the table, what the scans read, and that the server's contents follow the table.
\<close>

section \<open>The table's invariant\<close>

definition db_ok :: "cfg_db \<Rightarrow> bool" where
  "db_ok db \<longleftrightarrow> distinct (map row_key (db_rows db)) \<and> distinct (map cr_id (db_rows db)) \<and>
     distinct (map cr_seq (db_rows db)) \<and> 0 < db_nextId db \<and> 0 < db_nextSeq db \<and>
     (\<forall>r \<in> set (db_rows db). 0 < cr_id r \<and> cr_id r < db_nextId db \<and> 0 < cr_seq r \<and> cr_seq r < db_nextSeq db)"

text \<open>One row changed: it got the next sequence; the others are as they were.\<close>

definition touched :: "row_key \<Rightarrow> cfg_row \<Rightarrow> cfg_db \<Rightarrow> cfg_db \<Rightarrow> bool" where
  "touched k row db db' \<longleftrightarrow> db_ok db' \<and> db_nextSeq db' = db_nextSeq db + 16 \<and>
     row \<in> set (db_rows db') \<and> row_key row = k \<and> cr_seq row = db_nextSeq db \<and>
     (\<forall>r \<in> set (db_rows db'). r \<noteq> row \<longrightarrow> r \<in> set (db_rows db) \<and> row_key r \<noteq> k)"

lemma distinct_map_update:
  assumes "distinct (map f xs)" "x \<in> set xs" "\<And>y. y \<in> set xs \<Longrightarrow> P y \<longleftrightarrow> y = x"
    and "f (g x) = f x \<or> f (g x) \<notin> f ` set xs"
  shows "distinct (map f (map (\<lambda>y. if P y then g y else y) xs))"
proof -
  have "inj_on f (set xs)" "distinct xs" using assms(1) by (simp_all add: distinct_map)
  then have "inj_on (\<lambda>y. f (if P y then g y else y)) (set xs)"
    using assms(2-4) unfolding inj_on_def by (metis image_eqI)
  then have "distinct (map (\<lambda>y. f (if P y then g y else y)) xs)" using \<open>distinct xs\<close> by (simp add: distinct_map)
  then show ?thesis by (simp only: map_map o_def)
qed

text \<open>The same while the row \<open>r0\<close>, just inserted, has no sequence yet.\<close>

definition db_ok_but :: "cfg_row \<Rightarrow> cfg_db \<Rightarrow> bool" where
  "db_ok_but r0 db \<longleftrightarrow> distinct (map row_key (db_rows db)) \<and> distinct (map cr_id (db_rows db)) \<and>
     distinct (map cr_seq (db_rows db)) \<and> 0 < db_nextId db \<and> 0 < db_nextSeq db \<and>
     (\<forall>r \<in> set (db_rows db). 0 < cr_id r \<and> cr_id r < db_nextId db \<and> cr_seq r < db_nextSeq db \<and>
        (r \<noteq> r0 \<longrightarrow> 0 < cr_seq r))"

lemma db_ok_but: "db_ok db \<Longrightarrow> db_ok_but r0 db"
  by (simp add: db_ok_def db_ok_but_def)

text \<open>The update of the row with id \<open>i\<close>, as all three update statements make it.\<close>

lemma touch_row:
  assumes ok: "db_ok_but r0 db" and r0: "r0 \<in> set (db_rows db)"
    and P: "\<And>r. r \<in> set (db_rows db) \<Longrightarrow> P r \<longleftrightarrow> r = r0"
    and g: "row_key (g r0) = row_key r0" "cr_id (g r0) = cr_id r0" "cr_seq (g r0) = db_nextSeq db"
  shows "touched (row_key r0) (g r0) db
    (db\<lparr>db_rows := map (\<lambda>r. if P r then g r else r) (db_rows db), db_nextSeq := db_nextSeq db + 16\<rparr>)"
proof -
  define rows where "rows = map (\<lambda>r. if P r then g r else r) (db_rows db)"
  have d: "distinct (map row_key (db_rows db))" "distinct (map cr_id (db_rows db))" "distinct (map cr_seq (db_rows db))"
    and b: "\<And>r. r \<in> set (db_rows db) \<Longrightarrow> 0 < cr_id r \<and> cr_id r < db_nextId db \<and> cr_seq r < db_nextSeq db \<and> (r \<noteq> r0 \<longrightarrow> 0 < cr_seq r)"
    and p: "0 < db_nextId db" "0 < db_nextSeq db"
    using ok unfolding db_ok_but_def by blast+
  have "db_nextSeq db \<notin> cr_seq ` set (db_rows db)" using b by force
  then have dd: "distinct (map row_key rows)" "distinct (map cr_id rows)" "distinct (map cr_seq rows)"
    using distinct_map_update [OF d(1) r0 P] distinct_map_update [OF d(2) r0 P] distinct_map_update [OF d(3) r0 P] g
    unfolding rows_def by simp_all
  have set: "r \<in> set rows \<longleftrightarrow> r = g r0 \<or> r \<in> set (db_rows db) \<and> r \<noteq> r0" for r
    using r0 P unfolding rows_def by auto
  moreover have "row_key r \<noteq> row_key r0" if "r \<in> set (db_rows db)" "r \<noteq> r0" for r
    using that r0 d(1) by (auto simp: distinct_map inj_on_def)
  moreover have "0 < cr_id r \<and> cr_id r < db_nextId db \<and> 0 < cr_seq r \<and> cr_seq r < db_nextSeq db + 16" if "r \<in> set rows" for r
    using that b [of r] b [OF r0] g(2,3) p unfolding set by auto
  ultimately show ?thesis using dd set g p unfolding rows_def [symmetric] by (auto simp: touched_def db_ok_def)
qed

lemma by_id: "db_ok_but r1 db \<Longrightarrow> r0 \<in> set (db_rows db) \<Longrightarrow> r \<in> set (db_rows db) \<Longrightarrow> cr_id r = cr_id r0 \<longleftrightarrow> r = r0"
  by (auto simp: db_ok_but_def distinct_map inj_on_def)

lemma by_key: "db_ok db \<Longrightarrow> r0 \<in> set (db_rows db) \<Longrightarrow> r \<in> set (db_rows db) \<Longrightarrow> row_key r = row_key r0 \<longleftrightarrow> r = r0"
  by (auto simp: db_ok_def distinct_map inj_on_def)


text \<open>What a successful save does to a row and to the table.\<close>

definition saved_row :: "configuration \<Rightarrow> bytes \<Rightarrow> int64 \<Rightarrow> int \<Rightarrow> cfg_row \<Rightarrow> cfg_row" where
  "saved_row cfg data now sq r = r\<lparr>cr_version := cfg_Version cfg, cr_raw := data, cr_updated := now, cr_seq := sq\<rparr>"

definition upd_row :: "configuration \<Rightarrow> bytes \<Rightarrow> int64 \<Rightarrow> int \<Rightarrow> cfg_db \<Rightarrow> cfg_db" where
  "upd_row cfg data now i db =
     db\<lparr>db_rows := map (\<lambda>r. if cr_id r = i then saved_row cfg data now (db_nextSeq db) r else r) (db_rows db),
        db_nextSeq := db_nextSeq db + 16\<rparr>"

lemma touch_saved:
  assumes "db_ok_but r0 db" "r0 \<in> set (db_rows db)"
  shows "touched (row_key r0) (saved_row cfg data now (db_nextSeq db) r0) db (upd_row cfg data now (cr_id r0) db)"
  unfolding upd_row_def
  by (rule touch_row [OF assms by_id [OF assms]]) (simp_all add: row_key_def saved_row_def)

lemma cas_loop_Inr:
  assumes "cas_loop en cfg data cfgId i n db = (Inr (), db')" "0 < cfgId"
  shows "db' = upd_row cfg data (en_now en) cfgId db"
  using assms
proof (induction n arbitrary: i)
  case (Suc n)
  show ?case
  proof (cases "en_update en i")
    case None
    then show ?thesis using Suc
      by (auto simp: updateConfiguration_def upd_row_def saved_row_def split: if_splits)
  qed (use Suc.prems in \<open>simp add: updateConfiguration_def\<close>)
qed simp

lemma save_tx_Inr:
  assumes "save_tx en selStr optSelStr cfg data db = (Inr (), db')" "db_ok db"
  shows "\<exists>row. touched (selStr, optSelStr, cfg_Group cfg, cfg_Key cfg) row db db' \<and> cr_raw row = data \<and>
    cr_version row = cfg_Version cfg \<and>
    cr_status row = (case filter (\<lambda>r. row_key r = (selStr, optSelStr, cfg_Group cfg, cfg_Key cfg)) (db_rows db) of
       [] \<Rightarrow> 0 | r # _ \<Rightarrow> cr_status r)"
proof -
  let ?k = "(selStr, optSelStr, cfg_Group cfg, cfg_Key cfg)"
  let ?f = "filter (\<lambda>r. row_key r = ?k) (db_rows db)"
  have sel: "en_select en = None"
    using assms(1) by (cases "en_select en") (simp_all add: save_tx_def getExistingConfiguration_def)
  show ?thesis
  proof (cases ?f)
    case (Cons r0 rs)
    have r0: "r0 \<in> set (db_rows db)" "row_key r0 = ?k" using Cons filter_eq_ConsD [OF Cons] by auto
    then have id: "0 < cr_id r0" using assms(2) by (auto simp: db_ok_def)
    have "cas_loop en cfg data (cr_id r0) 0 NRetry db = (Inr (), db')"
      using assms(1) sel Cons id by (simp add: save_tx_def getExistingConfiguration_def)
    note c = cas_loop_Inr [OF this id]
    have "touched ?k (saved_row cfg data (en_now en) (db_nextSeq db) r0) db db'"
      using touch_saved [OF db_ok_but [OF assms(2)] r0(1)] unfolding c r0(2) .
    then show ?thesis using Cons by (intro exI [of _ "saved_row cfg data (en_now en) (db_nextSeq db) r0"])
        (simp add: saved_row_def)
  next
    case Nil
    let ?r = "\<lparr>cr_id = db_nextId db, cr_sel = selStr, cr_opt = optSelStr, cr_group = cfg_Group cfg,
                   cr_key = cfg_Key cfg, cr_version = cfg_Version cfg, cr_status = 0, cr_raw = data,
                   cr_created = en_now en, cr_updated = en_now en, cr_seq = 0\<rparr>"
    let ?db = "db\<lparr>db_rows := db_rows db @ [?r], db_nextId := db_nextId db + 1\<rparr>"
    have nokey: "\<forall>r \<in> set (db_rows db). row_key r \<noteq> ?k" using Nil by (simp add: filter_empty_conv)
    have noseq: "\<forall>r \<in> set (db_rows db). cr_seq r \<noteq> 0" using assms(2) by (auto simp: db_ok_def)
    have ins: "en_insert en = None"
      using assms(1) sel Nil by (cases "en_insert en")
        (simp_all add: save_tx_def getExistingConfiguration_def insertConfiguration_def)
    have i: "insertConfiguration en selStr optSelStr cfg data db = (Inr (db_nextId db), ?db)"
      using ins nokey noseq by (auto simp: insertConfiguration_def)
    have id: "0 < db_nextId db" using assms(2) by (simp add: db_ok_def)
    have "cas_loop en cfg data (db_nextId db) 0 NRetry ?db = (Inr (), db')"
      using assms(1) sel Nil i by (simp add: save_tx_def getExistingConfiguration_def)
    note c = cas_loop_Inr [OF this id]
    have rk: "row_key ?r = ?k" by (simp add: row_key_def)
    have ok: "db_ok_but ?r ?db"
      using assms(2) nokey noseq rk by (auto simp: db_ok_but_def db_ok_def)
    have r: "?r \<in> set (db_rows ?db)" by simp
    have "touched ?k (saved_row cfg data (en_now en) (db_nextSeq db) ?r) ?db db'"
      using touch_saved [OF ok r, of cfg data "en_now en"] unfolding c rk by simp
    then have "touched ?k (saved_row cfg data (en_now en) (db_nextSeq db) ?r) db db'"
      using rk by (auto simp: touched_def)
    then show ?thesis using Nil by (intro exI [of _ "saved_row cfg data (en_now en) (db_nextSeq db) ?r"])
        (simp add: saved_row_def)
  qed
qed

lemma delete_Inr:
  assumes "db_DeleteConfiguration en grp key sel optSel db = (Inr True, db')" "db_ok db"
  shows "\<exists>row r0. touched (sel, optSel, grp, key) row db db' \<and> r0 \<in> set (db_rows db) \<and>
    row_key r0 = (sel, optSel, grp, key) \<and> cr_raw row = cr_raw r0 \<and> cr_status row = 1"
proof -
  let ?k = "(sel, optSel, grp, key)"
  let ?g = "\<lambda>r. r\<lparr>cr_status := 1, cr_updated := en_now en, cr_seq := db_nextSeq db\<rparr>"
  have e: "en_acquire en = None" "en_update en 0 = None" "en_lock en 0"
    "\<exists>r \<in> set (db_rows db). row_key r = ?k"
    using assms(1) by (auto simp: db_DeleteConfiguration_def split: option.splits if_splits)
  then obtain r0 where r0: "r0 \<in> set (db_rows db)" "row_key r0 = ?k" by blast
  have db': "db' = db\<lparr>db_rows := map (\<lambda>r. if row_key r = ?k then ?g r else r) (db_rows db),
      db_nextSeq := db_nextSeq db + 16\<rparr>"
    using assms(1) e by (simp add: db_DeleteConfiguration_def)
  have "touched (row_key r0) (?g r0) db db'"
    unfolding db' r0(2) [symmetric]
    by (rule touch_row [OF db_ok_but [OF assms(2)] r0(1) by_key [OF assms(2) r0(1)]]) (simp_all add: row_key_def)
  then show ?thesis using r0 by (intro exI [of _ "?g r0"] exI [of _ r0]) simp
qed

section \<open>The server follows the table\<close>

definition cfg_of :: "(bytes \<Rightarrow> configuration res) \<Rightarrow> cfg_row \<Rightarrow> configuration" where
  "cfg_of u r = (case u (cr_raw r) of Inr c \<Rightarrow> c | Inl _ \<Rightarrow> configuration_zero)"

definition row_ok :: "(bytes \<Rightarrow> configuration res) \<Rightarrow> cfg_row \<Rightarrow> bool" where
  "row_ok u r \<longleftrightarrow> is_ok (u (cr_raw r)) \<and> cfg_store (cfg_of u r) = (cr_sel r, cr_opt r) \<and>
     cfg_Group (cfg_of u r) = cr_group r \<and> cfg_Key (cfg_of u r) = cr_key r \<and>
     CHR ''|'' \<notin> set (cr_group r) \<and> (cr_status r = 0 \<or> cr_status r = 1)"

definition table_view :: "(bytes \<Rightarrow> configuration res) \<Rightarrow> cfg_row \<Rightarrow> configuration option" where
  "table_view u r = (if cr_status r = 0 then Some (cache_cfg (cfg_of u r)) else None)"

definition synced :: "(bytes \<Rightarrow> configuration res) \<Rightarrow> contents \<Rightarrow> cfg_row \<Rightarrow> bool" where
  "synced u A r \<longleftrightarrow> (\<exists>d. A (cr_sel r, cr_opt r) = Some d \<and> d (cfgKey (cr_group r) (cr_key r)) = table_view u r)"

definition ev_of_row :: "(bytes \<Rightarrow> configuration res) \<Rightarrow> cfg_row \<Rightarrow> event" where
  "ev_of_row u r = row_event (cr_seq r, cr_status r, cfg_of u r)"

lemma cfgKey_inj:
  assumes "cfgKey g k = cfgKey g' k'" "CHR ''|'' \<notin> set g" "CHR ''|'' \<notin> set g'"
  shows "g = g' \<and> k = k'"
proof -
  have t: "takeWhile (\<lambda>c. c \<noteq> CHR ''|'') (cfgKey x y) = x" if "CHR ''|'' \<notin> set x" for x y
    using that unfolding cfgKey_def by (subst takeWhile_append2) auto
  have "g = g'" using arg_cong [OF assms(1), of "takeWhile (\<lambda>c. c \<noteq> CHR ''|'')"] by (simp only: t assms(2,3) not_False_eq_True)
  then show ?thesis using assms(1) by (simp add: cfgKey_def)
qed

lemma ev_of_row_effect:
  assumes "row_ok u r"
  shows "abs_event (cache_event (ev_of_row u r)) A =
    (let A1 = abs_open (cr_sel r, cr_opt r) A
     in A1((cr_sel r, cr_opt r) \<mapsto> (the (A1 (cr_sel r, cr_opt r)))(cfgKey (cr_group r) (cr_key r) := table_view u r)))"
proof -
  have c: "cfg_store (cfg_of u r) = (cr_sel r, cr_opt r)"
    "cfg_id (cfg_of u r) = cfgKey (cr_group r) (cr_key r)"
    using assms by (simp_all add: row_ok_def)
  have "abs_event (cache_event (ev_of_row u r)) A = abs_set (cache_cfg (cfg_of u r)) (table_view u r) A"
    using assms by (auto simp: ev_of_row_def abs_event_def cache_event_def table_view_def row_ok_def)
  then show ?thesis by (simp add: abs_set_def c)
qed

lemma event_synced: "row_ok u r \<Longrightarrow> synced u (abs_event (cache_event (ev_of_row u r)) A) r"
  by (simp add: ev_of_row_effect Let_def synced_def)

lemma event_keeps:
  assumes "row_ok u r" "row_ok u r'" "row_key r \<noteq> row_key r'" "synced u A r'"
  shows "synced u (abs_event (cache_event (ev_of_row u r)) A) r'"
proof -
  obtain d where d: "A (cr_sel r', cr_opt r') = Some d" "d (cfgKey (cr_group r') (cr_key r')) = table_view u r'"
    using assms(4) by (auto simp: synced_def)
  have "cfgKey (cr_group r) (cr_key r) \<noteq> cfgKey (cr_group r') (cr_key r')"
    if "(cr_sel r, cr_opt r) = (cr_sel r', cr_opt r')"
    using that assms(1-3) cfgKey_inj [of "cr_group r" "cr_key r" "cr_group r'" "cr_key r'"]
    by (auto simp: row_ok_def row_key_def)
  then show ?thesis using d
    by (auto simp: ev_of_row_effect [OF assms(1)] Let_def synced_def abs_open_def)
qed

lemma events_synced:
  assumes "\<forall>r \<in> set rs. row_ok u r" "distinct (map row_key rs)" "row_ok u r'"
    and "r' \<in> set rs \<or> synced u A r' \<and> row_key r' \<notin> row_key ` set rs"
  shows "synced u (fold abs_event (map cache_event (map (ev_of_row u) rs)) A) r'"
  using assms
proof (induction rs arbitrary: A)
  case (Cons r rs)
  let ?A = "abs_event (cache_event (ev_of_row u r)) A"
  have "r' \<in> set rs \<or> synced u ?A r' \<and> row_key r' \<notin> row_key ` set rs"
    using Cons.prems event_synced [of u r A] event_keeps [of u r r' A] by auto
  then show ?case using Cons.IH [of ?A] Cons.prems by simp
qed simp

lemma decode_rows_ok:
  "\<forall>r \<in> set rs. row_ok u r \<Longrightarrow>
   decode_rows u rs = Inr (map (\<lambda>r. (cr_seq r, cr_status r, cfg_of u r)) rs)"
proof (induction rs)
  case (Cons r rs)
  have "is_ok (u (cr_raw r))" using Cons.prems by (simp add: row_ok_def)
  then have "u (cr_raw r) = Inr (cfg_of u r)" by (cases "u (cr_raw r)") (simp_all add: cfg_of_def)
  then show ?case using Cons by simp
qed simp

lemma scan_turn_ok:
  assumes "\<forall>r \<in> set (db_rows db). row_ok u r"
  shows "scan_turn u m db = (let p = page m MaxInt64_seq db in
    (map (ev_of_row u) p, if p = [] then m else cr_seq (last p), p \<noteq> []))"
proof -
  let ?p = "page m MaxInt64_seq db"
  have "\<forall>r \<in> set ?p. row_ok u r" using assms page_bounds by blast
  note d = decode_rows_ok [OF this]
  show ?thesis
  proof (cases ?p)
    case Nil
    then show ?thesis using d by (simp add: scan_turn_def queryConfigurations_def)
  next
    case (Cons x xs)
    let ?f = "\<lambda>r. (cr_seq r, cr_status r, cfg_of u r)"
    have "last (map ?f (x # xs)) = ?f (last (x # xs))" by (rule last_map) simp
    then have "fst (last (?f x # map ?f xs)) = cr_seq (last (x # xs))" by (simp only: list.map fst_conv)
    then show ?thesis using d Cons by (simp add: scan_turn_def queryConfigurations_def ev_of_row_def Let_def del: last.simps)
  qed
qed

text \<open>A page holds every row up to its last one.\<close>

lemma page_prefix:
  assumes "db_ok db" "r \<in> set (db_rows db)" "m < cr_seq r" "cr_seq r \<le> cr_seq (last (page m mx db))"
    "page m mx db \<noteq> []"
  shows "r \<in> set (page m mx db)"
proof -
  define all where "all = sort_key cr_seq (filter (\<lambda>r. m < cr_seq r \<and> cr_seq r \<le> mx) (db_rows db))"
  define p where "p = page m mx db"
  have split: "all = p @ drop maxRowPerQuery all" by (simp add: page_def all_def p_def)
  have ne: "last p \<in> set p" using assms(5) by (simp add: p_def)
  have le: "cr_seq (last p) \<le> mx" "last p \<in> set (db_rows db)" using page_bounds ne unfolding p_def by blast+
  have r: "r \<in> set all" using assms(2-4) le by (simp add: all_def p_def)
  show ?thesis
  proof (rule ccontr)
    assume "r \<notin> set (page m mx db)"
    then have n: "r \<notin> set p" by (simp add: p_def)
    then have rd: "r \<in> set (drop maxRowPerQuery all)" using r split by (metis Un_iff set_append)
    have "sorted (map cr_seq all)" by (simp add: all_def)
    then have "sorted (map cr_seq p @ map cr_seq (drop maxRowPerQuery all))" using split by (metis map_append)
    then have "cr_seq (last p) \<le> cr_seq r" using rd ne unfolding sorted_append by simp
    then have e: "cr_seq (last p) = cr_seq r" using assms(4) by (simp add: p_def)
    have "inj_on cr_seq (set (db_rows db))" using assms(1) by (simp add: db_ok_def distinct_map)
    then have "last p = r" using e le(2) assms(2) by (rule inj_onD)
    then show False using n ne by simp
  qed
qed

lemma page_distinct: "db_ok db \<Longrightarrow> distinct (map row_key (page m mx db))"
proof -
  assume ok: "db_ok db"
  then have "distinct (db_rows db)" "inj_on row_key (set (db_rows db))" by (simp_all add: db_ok_def distinct_map)
  moreover have "set (page m mx db) \<subseteq> set (db_rows db)" using page_bounds by blast
  ultimately show ?thesis by (auto simp: page_def distinct_map intro: inj_on_subset)
qed

definition follows :: "(bytes \<Rightarrow> configuration res) \<Rightarrow> cfg_db \<Rightarrow> int \<Rightarrow> contents \<Rightarrow> bool" where
  "follows u db m A \<longleftrightarrow> db_ok db \<and> m < db_nextSeq db \<and>
     (\<forall>r \<in> set (db_rows db). row_ok u r \<and> (cr_seq r \<le> m \<longrightarrow> synced u A r))"

lemma follows_scan:
  assumes f: "follows u db m A" and p: "page m MaxInt64_seq db \<noteq> []"
  shows "follows u db (cr_seq (last (page m MaxInt64_seq db)))
    (fold abs_event (map cache_event (map (ev_of_row u) (page m MaxInt64_seq db))) A)"
proof -
  let ?p = "page m MaxInt64_seq db"
  have ok: "db_ok db" and rows: "\<forall>r \<in> set (db_rows db). row_ok u r" using f by (simp_all add: follows_def)
  have sub: "\<forall>r \<in> set ?p. r \<in> set (db_rows db) \<and> m < cr_seq r" using page_bounds by blast
  have "synced u (fold abs_event (map cache_event (map (ev_of_row u) ?p)) A) r"
    if r: "r \<in> set (db_rows db)" "cr_seq r \<le> cr_seq (last ?p)" for r
  proof (rule events_synced)
    show "\<forall>r \<in> set ?p. row_ok u r" using sub rows by blast
    show "distinct (map row_key ?p)" by (rule page_distinct [OF ok])
    show "row_ok u r" using rows r by blast
    show "r \<in> set ?p \<or> synced u A r \<and> row_key r \<notin> row_key ` set ?p"
    proof (cases "cr_seq r \<le> m")
      case True
      then have "synced u A r" using f r unfolding follows_def by blast
      moreover have "row_key r \<notin> row_key ` set ?p"
      proof
        assume "row_key r \<in> row_key ` set ?p"
        then obtain x where x: "x \<in> set ?p" "row_key x = row_key r" by force
        then have "x = r" using by_key [OF ok r(1), of x] sub by blast
        then show False using x sub True by auto
      qed
      ultimately show ?thesis by blast
    next
      case False
      then show ?thesis using page_prefix [OF ok r(1) _ r(2) p] by simp
    qed
  qed
  moreover have "cr_seq (last ?p) < db_nextSeq db"
    using ok sub last_in_set [OF p] by (auto simp: db_ok_def)
  ultimately show ?thesis using ok rows by (simp add: follows_def)
qed

lemma follows_touched:
  assumes f: "follows u db m A" and t: "touched k row db db'" and r: "row_ok u row"
  shows "follows u db' m A"
proof -
  have m: "m < db_nextSeq db" using f by (simp add: follows_def)
  have "row_ok u x \<and> (cr_seq x \<le> m \<longrightarrow> synced u A x)" if "x \<in> set (db_rows db')" for x
    using that f t r m by (cases "x = row") (auto simp: follows_def touched_def)
  then show ?thesis using t m by (auto simp: follows_def touched_def)
qed


section \<open>Writer, pump and server together\<close>

text \<open>What CBOR carries of a configuration: everything but the cached text of its selectors.\<close>

definition wire_sel :: "selectors \<Rightarrow> selectors" where
  "wire_sel s = s\<lparr>s_cached := []\<rparr>"

definition wire :: "configuration \<Rightarrow> configuration" where
  "wire c = c\<lparr>cfg_Selectors := wire_sel (cfg_Selectors c), cfg_OptionalSelectors := wire_sel (cfg_OptionalSelectors c)\<rparr>"

definition codec_ok :: "(configuration \<Rightarrow> bytes res) \<Rightarrow> (bytes \<Rightarrow> configuration res) \<Rightarrow> bool" where
  "codec_ok marshal unmarshal \<longleftrightarrow> (\<forall>c data. marshal c = Inr data \<longrightarrow> unmarshal data = Inr (wire c))"

record dsys =
  ds_db :: cfg_db
  ds_mark :: int
  ds_srv :: server

text \<open>
  The steps: a successful save of a configuration as the handler decodes it (no cached text; its
  group has no vertical bar), a successful deletion, a turn of the scan whose events the server
  applies, and any step of the server that leaves the contents alone (retrievals,
  cancellations).
\<close>

inductive dstep ::
  "(bytes \<Rightarrow> bytes) \<Rightarrow> (configuration \<Rightarrow> bytes res) \<Rightarrow> (bytes \<Rightarrow> configuration res) \<Rightarrow> dsys \<Rightarrow> dsys \<Rightarrow> bool"
  for sha marshal unmarshal where
  save: "SaveConfiguration sha marshal en cfg (ds_db y) = (Inr (), db') \<Longrightarrow> CHR ''|'' \<notin> set (cfg_Group cfg) \<Longrightarrow>
    wire cfg = cfg \<Longrightarrow> dstep sha marshal unmarshal y (y\<lparr>ds_db := db'\<rparr>)"
| delete: "db_DeleteConfiguration en grp key sel opt (ds_db y) = (Inr True, db') \<Longrightarrow>
    dstep sha marshal unmarshal y (y\<lparr>ds_db := db'\<rparr>)"
| scan: "scan_turn unmarshal (ds_mark y) (ds_db y) = (evs, m, again) \<Longrightarrow> pump_batch evs (ds_srv y) = Done s' \<Longrightarrow>
    dstep sha marshal unmarshal y (y\<lparr>ds_mark := m, ds_srv := s'\<rparr>)"
| serve: "contents (sv_map s') = contents (sv_map (ds_srv y)) \<Longrightarrow>
    dstep sha marshal unmarshal y (y\<lparr>ds_srv := s'\<rparr>)"

inductive dreach ::
  "(bytes \<Rightarrow> bytes) \<Rightarrow> (configuration \<Rightarrow> bytes res) \<Rightarrow> (bytes \<Rightarrow> configuration res) \<Rightarrow> dsys \<Rightarrow> bool"
  for sha marshal unmarshal where
  init: "dreach sha marshal unmarshal \<lparr>ds_db = empty_db, ds_mark = 0, ds_srv = newServer\<rparr>"
| step: "dreach sha marshal unmarshal y \<Longrightarrow> dstep sha marshal unmarshal y y' \<Longrightarrow> dreach sha marshal unmarshal y'"

lemma sel_key_wire: "wire_sel s = s \<Longrightarrow> sel_key (wire_sel (snd (SelectorsHelperCacheValue s))) = fst (SelectorsHelperCacheValue s)"
proof -
  assume w: "wire_sel s = s"
  then have c: "s_cached s = []" by (metis selectors.select_convs(2) selectors.surjective selectors.update_convs(2) wire_sel_def)
  show ?thesis by (simp add: sel_key_def SelectorsHelperCacheValue_def wire_sel_def cache_def c)
qed

text \<open>The row that a save leaves: it decodes to the configuration without the cached texts.\<close>

lemma save_row:
  assumes "SaveConfiguration sha marshal en cfg db = (Inr (), db')" "codec_ok marshal u" "db_ok db"
  defines "sel \<equiv> SelectorsHelperCacheValue (cfg_Selectors cfg)" and "opt \<equiv> SelectorsHelperCacheValue (cfg_OptionalSelectors cfg)"
  shows "\<exists>row. touched (fst sel, fst opt, cfg_Group cfg, cfg_Key cfg) row db db' \<and>
    u (cr_raw row) = Inr (wire (cfg\<lparr>cfg_Selectors := snd sel, cfg_OptionalSelectors := snd opt\<rparr>)) \<and>
    cr_status row = (case filter (\<lambda>r. row_key r = (fst sel, fst opt, cfg_Group cfg, cfg_Key cfg)) (db_rows db) of
       [] \<Rightarrow> 0 | r # _ \<Rightarrow> cr_status r)"
proof -
  let ?cfg = "cfg\<lparr>cfg_Selectors := snd sel, cfg_OptionalSelectors := snd opt\<rparr>"
  obtain data where d: "marshal ?cfg = Inr data" "save_tx en (fst sel) (fst opt) ?cfg data db = (Inr (), db')"
    using assms(1) unfolding sel_def opt_def
    by (auto simp: SaveConfiguration_def Let_def split: if_splits sum.splits option.splits prod.splits)
  then have "u data = Inr (wire ?cfg)" using assms(2) by (simp add: codec_ok_def)
  then show ?thesis using save_tx_Inr [OF d(2) assms(3)] by auto
qed

lemma save_follows:
  assumes f: "follows u db m A" and s: "SaveConfiguration sha marshal en cfg db = (Inr (), db')"
    and codec: "codec_ok marshal u" and g: "CHR ''|'' \<notin> set (cfg_Group cfg)" and w: "wire cfg = cfg"
  shows "follows u db' m A"
proof -
  let ?sel = "SelectorsHelperCacheValue (cfg_Selectors cfg)" and ?opt = "SelectorsHelperCacheValue (cfg_OptionalSelectors cfg)"
  let ?cfg = "cfg\<lparr>cfg_Selectors := snd ?sel, cfg_OptionalSelectors := snd ?opt\<rparr>"
  have ok: "db_ok db" using f by (simp add: follows_def)
  obtain row where row: "touched (fst ?sel, fst ?opt, cfg_Group cfg, cfg_Key cfg) row db db'" "u (cr_raw row) = Inr (wire ?cfg)"
    "cr_status row = (case filter (\<lambda>r. row_key r = (fst ?sel, fst ?opt, cfg_Group cfg, cfg_Key cfg)) (db_rows db) of
       [] \<Rightarrow> 0 | r # _ \<Rightarrow> cr_status r)"
    using save_row [OF s codec ok] by blast
  have ws: "wire_sel (cfg_Selectors cfg) = cfg_Selectors cfg" "wire_sel (cfg_OptionalSelectors cfg) = cfg_OptionalSelectors cfg"
    using arg_cong [OF w, of cfg_Selectors] arg_cong [OF w, of cfg_OptionalSelectors] by (simp_all add: wire_def)
  have "cfg_store (wire ?cfg) = (fst ?sel, fst ?opt)"
    using sel_key_wire [OF ws(1)] sel_key_wire [OF ws(2)] by (simp add: cfg_store_def wire_def)
  moreover have "cr_status row = 0 \<or> cr_status row = 1"
  proof (cases "filter (\<lambda>r. row_key r = (fst ?sel, fst ?opt, cfg_Group cfg, cfg_Key cfg)) (db_rows db)")
    case (Cons r rs)
    then have "r \<in> set (db_rows db)" using filter_eq_ConsD [OF Cons] by auto
    then show ?thesis using f row(3) Cons by (simp add: follows_def row_ok_def)
  qed (use row(3) in simp)
  moreover have "row_key row = (fst ?sel, fst ?opt, cfg_Group cfg, cfg_Key cfg)" using row(1) by (simp add: touched_def)
  ultimately have "row_ok u row"
    using row(2) g by (auto simp: row_ok_def cfg_of_def row_key_def wire_def)
  then show ?thesis by (rule follows_touched [OF f row(1)])
qed

lemma delete_follows:
  assumes f: "follows u db m A" and d: "db_DeleteConfiguration en grp key sel opt db = (Inr True, db')"
  shows "follows u db' m A"
proof -
  have ok: "db_ok db" using f by (simp add: follows_def)
  obtain row r0 where t: "touched (sel, opt, grp, key) row db db'" "r0 \<in> set (db_rows db)"
    "row_key r0 = (sel, opt, grp, key)" "cr_raw row = cr_raw r0" "cr_status row = 1"
    using delete_Inr [OF d ok] by blast
  have "row_key row = row_key r0" using t(1,3) by (simp add: touched_def)
  moreover have "row_ok u r0" using f t(2) by (simp add: follows_def)
  ultimately have "row_ok u row" using t(4,5) by (simp add: row_ok_def cfg_of_def row_key_def)
  then show ?thesis by (rule follows_touched [OF f t(1)])
qed

lemma dreach_follows:
  assumes "dreach sha marshal u y" "codec_ok marshal u"
  shows "follows u (ds_db y) (ds_mark y) (contents (sv_map (ds_srv y)))"
  using assms(1)
proof (induction rule: dreach.induct)
  case init
  show ?case by (simp add: follows_def db_ok_def empty_db_def)
next
  case (step y y')
  note f = step.IH
  from step.hyps(2) show ?case
  proof cases
    case (save en cfg db')
    then show ?thesis using save_follows [OF f _ assms(2)] by simp
  next
    case (delete en grp key sel opt db')
    then show ?thesis using delete_follows [OF f] by simp
  next
    case (scan evs m again s')
    let ?p = "page (ds_mark y) MaxInt64_seq (ds_db y)"
    have rows: "\<forall>r \<in> set (db_rows (ds_db y)). row_ok u r" using f by (simp add: follows_def)
    have e: "evs = map (ev_of_row u) ?p" "m = (if ?p = [] then ds_mark y else cr_seq (last ?p))"
      using scan(2) unfolding scan_turn_ok [OF rows] Let_def by simp_all
    have c: "contents (sv_map s') = fold abs_event (map cache_event evs) (contents (sv_map (ds_srv y)))"
      by (rule pump_batch_contents [OF scan(3)])
    show ?thesis
    proof (cases "?p = []")
      case True
      then show ?thesis using f c e scan(1) by simp
    next
      case False
      then show ?thesis using follows_scan [OF f False] c e scan(1) by simp
    qed
  next
    case (serve s')
    then show ?thesis using f by simp
  qed
qed

section \<open>The dump\<close>

lemma sorted_key_unique:
  assumes "sorted (map f xs)" "sorted (map f ys)" "distinct xs" "distinct ys" "set xs = set ys" "inj_on f (set xs)"
  shows "xs = ys"
proof -
  have i: "inj_on f (set ys)" using assms(5,6) by metis
  have "map f xs = map f ys"
  proof (rule sorted_distinct_set_unique [OF assms(1) _ assms(2)])
    show "distinct (map f xs)" using assms(3,6) by (simp add: distinct_map)
    show "distinct (map f ys)" using assms(4) i by (simp add: distinct_map)
    show "set (map f xs) = set (map f ys)" unfolding set_map assms(5) ..
  qed
  moreover have "inj_on f (set xs \<union> set ys)" using assms(6) unfolding assms(5) by simp
  ultimately show ?thesis by (rule map_inj_on)
qed

lemma rest_of_pages:
  assumes "db_ok db" "p = page st mx db" "p \<noteq> []"
  shows "sort_key cr_seq (filter (\<lambda>r. st < cr_seq r \<and> cr_seq r \<le> mx) (db_rows db)) =
    p @ sort_key cr_seq (filter (\<lambda>r. cr_seq (last p) < cr_seq r \<and> cr_seq r \<le> mx) (db_rows db))"
proof -
  define all where "all = sort_key cr_seq (filter (\<lambda>r. st < cr_seq r \<and> cr_seq r \<le> mx) (db_rows db))"
  define rest where "rest = sort_key cr_seq (filter (\<lambda>r. cr_seq (last p) < cr_seq r \<and> cr_seq r \<le> mx) (db_rows db))"
  have inj: "inj_on cr_seq (set (db_rows db))" and d: "distinct (db_rows db)"
    using assms(1) by (simp_all add: db_ok_def distinct_map)
  have split: "all = p @ drop maxRowPerQuery all" by (simp add: page_def all_def assms(2))
  have s: "sorted (map cr_seq all)" by (simp add: all_def)
  have da: "distinct all" using d by (simp add: all_def)
  have lp: "last p \<in> set p" using assms(3) by simp
  have pb: "x \<in> set (db_rows db) \<and> st < cr_seq x \<and> cr_seq x \<le> mx" if "x \<in> set p" for x
    using that page_bounds assms(2) by blast
  have sp: "sorted (map cr_seq p)" "distinct p" using s da split by (metis map_append sorted_append, metis distinct_append)
  have pl: "cr_seq x \<le> cr_seq (last p)" if x: "x \<in> set p" for x
  proof -
    have "p = butlast p @ [last p]" using assms(3) by simp
    then have "sorted (map cr_seq (butlast p) @ [cr_seq (last p)])" using sp(1) by (metis list.map map_append)
    then show ?thesis using x \<open>p = butlast p @ [last p]\<close> unfolding sorted_append by (metis Un_iff empty_iff image_eqI insert_iff list.set order_refl set_append set_map)
  qed
  have set_all: "set all = {r \<in> set (db_rows db). st < cr_seq r \<and> cr_seq r \<le> mx}" by (auto simp: all_def)
  have set_rest: "set rest = {r \<in> set (db_rows db). cr_seq (last p) < cr_seq r \<and> cr_seq r \<le> mx}" by (auto simp: rest_def)
  have in_p: "x \<in> set p" if "x \<in> set (db_rows db)" "st < cr_seq x" "cr_seq x \<le> cr_seq (last p)" for x
    using page_prefix [OF assms(1) that(1,2), of mx] that(3) assms(2,3) by simp
  have "all = p @ rest"
  proof (rule sorted_key_unique [of cr_seq, OF s])
    show "sorted (map cr_seq (p @ rest))"
      using sp(1) pl set_rest by (auto simp: sorted_append rest_def) (meson dual_order.trans less_imp_le)+
    show "distinct (p @ rest)" using sp(2) d pl set_rest by (auto simp: rest_def) (meson linorder_not_less)
    show "set all = set (p @ rest)"
    proof (intro set_eqI iffI)
      fix x assume "x \<in> set all"
      then show "x \<in> set (p @ rest)" using in_p [of x] by (auto simp: set_all set_rest linorder_not_le)
    next
      fix x assume "x \<in> set (p @ rest)"
      then show "x \<in> set all" using pb [of x] pb [OF lp] by (auto simp: set_all set_rest)
    qed
    show "distinct all" by (rule da)
    show "inj_on cr_seq (set all)" using inj by (rule inj_on_subset) (auto simp: set_all)
  qed
  then show ?thesis by (simp add: all_def rest_def)
qed

lemma dump_pages_all:
  assumes "db_ok db" "\<forall>r \<in> set (db_rows db). row_ok u r"
  shows "dump_pages u st mx db =
    Some (map (ev_of_row u) (sort_key cr_seq (filter (\<lambda>r. st < cr_seq r \<and> cr_seq r \<le> mx) (db_rows db))))"
  using assms
proof (induction u st mx db rule: dump_pages.induct)
  case (1 u st mx db)
  let ?f = "\<lambda>r. (cr_seq r, cr_status r, cfg_of u r)"
  have "\<forall>r \<in> set (page st mx db). row_ok u r" using "1.prems"(2) page_bounds by blast
  then have q: "queryConfigurations u st mx db = Inr (map ?f (page st mx db))"
    by (simp add: queryConfigurations_def decode_rows_ok)
  show ?case
  proof (cases "page st mx db")
    case Nil
    then have "sort_key cr_seq (filter (\<lambda>r. st < cr_seq r \<and> cr_seq r \<le> mx) (db_rows db)) = []"
      by (simp add: page_def maxRowPerQuery_def)
    then show ?thesis using q Nil by (subst dump_pages.simps) simp
  next
    case (Cons x xs)
    have "last (map ?f (x # xs)) = ?f (last (x # xs))" by (rule last_map) simp
    then have l: "fst (last (?f x # map ?f xs)) = cr_seq (last (x # xs))" by (simp only: list.map fst_conv)
    have q': "queryConfigurations u st mx db = Inr (?f x # map ?f xs)" using q Cons by simp
    note ih = "1.IH" [OF q' refl "1.prems", unfolded l]
    note r = rest_of_pages [OF "1.prems"(1) Cons [symmetric]]
    show ?thesis
      by (subst dump_pages.simps, subst q')
        (simp add: l ih r ev_of_row_def del: last.simps)
  qed
qed


section \<open>Properties\<close>



definition demo_save_cfg :: "string \<Rightarrow> configuration" where
  "demo_save_cfg v = (demo_cfg ''a'' v)\<lparr>cfg_Signature := ''sha256:''\<rparr>"

definition demo_marshal :: "configuration \<Rightarrow> bytes res" where
  "demo_marshal c = (if wire c = demo_save_cfg ''1'' then Inr [1] else if wire c = demo_save_cfg ''2'' then Inr [2]
     else Inl (Errorf ''unsupported''))"

definition demo_unmarshal :: "bytes \<Rightarrow> configuration res" where
  "demo_unmarshal b = (if b = [1] then Inr (demo_save_cfg ''1'') else if b = [2] then Inr (demo_save_cfg ''2'')
     else Inl (Errorf ''unsupported''))"

lemma demo_codec: "codec_ok demo_marshal demo_unmarshal"
  by (auto simp: codec_ok_def demo_marshal_def demo_unmarshal_def split: if_splits)

lemma demo_wire: "wire (demo_save_cfg v) = demo_save_cfg v"
  by (simp add: wire_def wire_sel_def demo_save_cfg_def demo_cfg_def configuration_zero_def selectors_zero_def)

definition demo_env :: db_env where
  "demo_env = \<lparr>en_acquire = None, en_begin = None, en_select = None, en_insert = None, en_update = (\<lambda>_. None),
     en_lock = (\<lambda>i. 2 \<le> i), en_rollback = None, en_commit = None, en_now = 1000\<rparr>"

definition demo_row :: "string \<Rightarrow> int \<Rightarrow> int \<Rightarrow> byte \<Rightarrow> cfg_row" where
  "demo_row v status sq raw = \<lparr>cr_id = 1, cr_sel = [], cr_opt = [], cr_group = ''g'', cr_key = ''a'', cr_version = v,
     cr_status = status, cr_raw = [raw], cr_created = 1000, cr_updated = 1000, cr_seq = sq\<rparr>"

lemma demo_sel [simp]: "SelectorsHelperCacheValue selectors_zero = ([], selectors_zero)"
  by (simp add: SelectorsHelperCacheValue_def cache_def selectors_zero_def)

lemma demo_save_cfg_fields [simp]:
  "cfg_Selectors (demo_save_cfg v) = selectors_zero" "cfg_OptionalSelectors (demo_save_cfg v) = selectors_zero"
  "cfg_Group (demo_save_cfg v) = ''g''" "cfg_Key (demo_save_cfg v) = ''a''" "cfg_Version (demo_save_cfg v) = v"
  "demo_save_cfg v\<lparr>cfg_Selectors := selectors_zero, cfg_OptionalSelectors := selectors_zero\<rparr> = demo_save_cfg v"
  "ValidateSignature (\<lambda>_. []) (demo_save_cfg v)"
  by (simp_all add: demo_save_cfg_def ValidateSignature_def GenerateSignature_def)

lemma demo_tx_new:
  "SaveConfiguration (\<lambda>_. []) demo_marshal demo_env (demo_save_cfg ''1'') empty_db =
    (Inr (), \<lparr>db_rows = [demo_row ''1'' 0 1 1], db_nextId = 2, db_nextSeq = 17\<rparr>)"
  by (simp add: SaveConfiguration_def demo_marshal_def demo_wire demo_env_def save_tx_def getExistingConfiguration_def
      empty_db_def insertConfiguration_def NRetry_def eval_nat_numeral updateConfiguration_def demo_row_def row_key_def)


lemma demo_tx_again:
  "SaveConfiguration (\<lambda>_. []) demo_marshal demo_env (demo_save_cfg ''2'')
     \<lparr>db_rows = [demo_row ''1'' st sq raw], db_nextId = 2, db_nextSeq = n\<rparr> =
    (Inr (), \<lparr>db_rows = [demo_row ''2'' st n 2], db_nextId = 2, db_nextSeq = n + 16\<rparr>)"
proof -
  have "demo_save_cfg ''2'' \<noteq> demo_save_cfg ''1''" by (auto dest: arg_cong [of _ _ cfg_Version])
  then show ?thesis
    by (simp add: SaveConfiguration_def demo_marshal_def demo_wire demo_env_def save_tx_def getExistingConfiguration_def
      NRetry_def eval_nat_numeral updateConfiguration_def demo_row_def row_key_def)
qed

lemma demo_row_ok: "raw = 1 \<and> v = ''1'' \<or> raw = 2 \<and> v = ''2'' \<Longrightarrow> st = 0 \<or> st = 1 \<Longrightarrow> row_ok demo_unmarshal (demo_row v st sq raw)"
  by (auto simp: row_ok_def demo_row_def demo_unmarshal_def cfg_of_def cfg_store_def)


text \<open>A save is all or nothing: if it fails, the table is as it was; if it succeeds, exactly the row
  of the configuration's selectors, group and key is new or changed: it holds the encoded
  configuration and its version under a sequence above all others, which is what the scans of
  the pump look for.\<close>

theorem SaveConfiguration_all_or_nothing:
  assumes "db_ok db" and "SaveConfiguration sha marshal en cfg db = (r, db')"
  shows "case r of
      Inl e \<Rightarrow> db' = db
    | Inr _ \<Rightarrow> ValidateSignature sha cfg \<and> (\<exists>row data c. marshal c = Inr data \<and> cr_raw row = data \<and>
        cr_version row = cfg_Version cfg \<and>
        touched (fst (SelectorsHelperCacheValue (cfg_Selectors cfg)),
          fst (SelectorsHelperCacheValue (cfg_OptionalSelectors cfg)), cfg_Group cfg, cfg_Key cfg) row db db')"
proof (cases r)
  case (Inl e)
  then show ?thesis using assms(2)
    by (auto simp: SaveConfiguration_def Let_def split: if_splits sum.splits option.splits prod.splits)
next
  case (Inr x)
  let ?sel = "SelectorsHelperCacheValue (cfg_Selectors cfg)" and ?opt = "SelectorsHelperCacheValue (cfg_OptionalSelectors cfg)"
  let ?cfg = "cfg\<lparr>cfg_Selectors := snd ?sel, cfg_OptionalSelectors := snd ?opt\<rparr>"
  obtain data where d: "ValidateSignature sha cfg" "marshal ?cfg = Inr data"
    "save_tx en (fst ?sel) (fst ?opt) ?cfg data db = (Inr (), db')"
    using assms(2) Inr by (auto simp: SaveConfiguration_def Let_def split: if_splits sum.splits option.splits prod.splits)
  from save_tx_Inr [OF d(3) assms(1)] d show ?thesis unfolding Inr by auto
qed

theorem SaveConfiguration_all_or_nothing_witness:
  "case (Inr () :: unit res) of
      Inl e \<Rightarrow> \<lparr>db_rows = [demo_row ''1'' 0 1 1], db_nextId = 2, db_nextSeq = 17\<rparr> = empty_db
    | Inr _ \<Rightarrow> ValidateSignature (\<lambda>_. []) (demo_save_cfg ''1'') \<and> (\<exists>row data c. demo_marshal c = Inr data \<and> cr_raw row = data \<and>
        cr_version row = cfg_Version (demo_save_cfg ''1'') \<and>
        touched (fst (SelectorsHelperCacheValue (cfg_Selectors (demo_save_cfg ''1''))),
          fst (SelectorsHelperCacheValue (cfg_OptionalSelectors (demo_save_cfg ''1''))), cfg_Group (demo_save_cfg ''1''),
          cfg_Key (demo_save_cfg ''1'')) row empty_db \<lparr>db_rows = [demo_row ''1'' 0 1 1], db_nextId = 2, db_nextSeq = 17\<rparr>)"
  by (rule SaveConfiguration_all_or_nothing [OF _ demo_tx_new]) (simp add: db_ok_def empty_db_def)

text \<open>A configuration that was deleted stays deleted when it is saved again: the update does not
  reset the status of the row, so the pump reports the new value as a deletion.\<close>

theorem save_after_delete:
  assumes "db_ok db" and "db_DeleteConfiguration en grp key sel opt db = (Inr True, db1)"
    and "SaveConfiguration sha marshal en' cfg db1 = (Inr (), db2)"
    and "fst (SelectorsHelperCacheValue (cfg_Selectors cfg)) = sel"
    and "fst (SelectorsHelperCacheValue (cfg_OptionalSelectors cfg)) = opt"
    and "cfg_Group cfg = grp" "cfg_Key cfg = key"
  shows "\<exists>row \<in> set (db_rows db2). row_key row = (sel, opt, grp, key) \<and> cr_version row = cfg_Version cfg \<and> cr_status row = 1 \<and>
    ev_Deleted (ev_of_row unmarshal row) \<and> \<not> ev_Created (ev_of_row unmarshal row)"
proof -
  obtain row0 where t0: "touched (sel, opt, grp, key) row0 db db1" "cr_status row0 = 1"
    using delete_Inr [OF assms(2,1)] by blast
  then have ok1: "db_ok db1" and r0: "row0 \<in> set (db_rows db1)" "row_key row0 = (sel, opt, grp, key)"
    by (simp_all add: touched_def)
  let ?s = "SelectorsHelperCacheValue (cfg_Selectors cfg)" and ?o = "SelectorsHelperCacheValue (cfg_OptionalSelectors cfg)"
  let ?cfg = "cfg\<lparr>cfg_Selectors := snd ?s, cfg_OptionalSelectors := snd ?o\<rparr>"
  obtain data where d: "save_tx en' (fst ?s) (fst ?o) ?cfg data db1 = (Inr (), db2)"
    using assms(3) by (auto simp: SaveConfiguration_def Let_def split: if_splits sum.splits option.splits prod.splits)
  obtain row where row: "touched (sel, opt, grp, key) row db1 db2" "cr_version row = cfg_Version cfg"
    "cr_status row = (case filter (\<lambda>r. row_key r = (sel, opt, grp, key)) (db_rows db1) of [] \<Rightarrow> 0 | r # _ \<Rightarrow> cr_status r)"
    using save_tx_Inr [OF d ok1] assms(4-7) by auto
  obtain r rs where f: "filter (\<lambda>r. row_key r = (sel, opt, grp, key)) (db_rows db1) = r # rs"
    using r0 by (cases "filter (\<lambda>r. row_key r = (sel, opt, grp, key)) (db_rows db1)") (auto simp: filter_empty_conv)
  then have "r \<in> set (db_rows db1)" "row_key r = row_key row0" using filter_eq_ConsD [OF f] r0 by auto
  then have "r = row0" using by_key [OF ok1 r0(1)] by blast
  then have "cr_status row = 1" using row(3) f t0(2) by simp
  with row show ?thesis by (auto simp: touched_def ev_of_row_def)
qed

theorem save_after_delete_witness:
  "\<exists>row \<in> set (db_rows \<lparr>db_rows = [demo_row ''2'' 1 33 2], db_nextId = 2, db_nextSeq = 49\<rparr>).
    row_key row = ([], [], ''g'', ''a'') \<and> cr_version row = cfg_Version (demo_save_cfg ''2'') \<and> cr_status row = 1 \<and>
    ev_Deleted (ev_of_row demo_unmarshal row) \<and> \<not> ev_Created (ev_of_row demo_unmarshal row)"
proof (rule save_after_delete)
  show "db_DeleteConfiguration (demo_env\<lparr>en_lock := \<lambda>_. True\<rparr>) ''g'' ''a'' [] []
      \<lparr>db_rows = [demo_row ''1'' 0 1 1], db_nextId = 2, db_nextSeq = 17\<rparr> =
    (Inr True, \<lparr>db_rows = [demo_row ''1'' 1 17 1], db_nextId = 2, db_nextSeq = 33\<rparr>)"
    by (simp add: db_DeleteConfiguration_def demo_env_def demo_row_def row_key_def)
  show "SaveConfiguration (\<lambda>_. []) demo_marshal demo_env (demo_save_cfg ''2'')
      \<lparr>db_rows = [demo_row ''1'' 1 17 1], db_nextId = 2, db_nextSeq = 33\<rparr> =
    (Inr (), \<lparr>db_rows = [demo_row ''2'' 1 33 2], db_nextId = 2, db_nextSeq = 49\<rparr>)"
    using demo_tx_again [of 1 17 1 33] by simp
qed (simp_all add: db_ok_def demo_row_def)

text \<open>A restart brings deleted configurations back: the dump reports a deleted row as a deletion,
  but the server saves every configuration of the dump.\<close>

theorem dump_resurrects:
  assumes "row_ok unmarshal r" "cr_status r = 1"
  shows "ev_Deleted (ev_of_row unmarshal r) \<and>
    (\<exists>s. dumpFromPump [ev_of_row unmarshal r] newServer = Done s \<and>
      GetConfigurationViaPlainRequest (cr_group r) (cr_key r) (cr_sel r) (cr_opt r) s = Inr (cache_cfg (cfg_of unmarshal r)))"
proof -
  let ?c = "cache_cfg (cfg_of unmarshal r)"
  have c: "cfg_store (cfg_of unmarshal r) = (cr_sel r, cr_opt r)" "cfg_id (cfg_of unmarshal r) = cfgKey (cr_group r) (cr_key r)"
    using assms(1) by (simp_all add: row_ok_def)
  have l: "listeners_of (\<lambda>_. None) r k = []" for r k by (cases r) (simp add: listeners_of_def store_at.simps)
  have "save_event ?c (\<lambda>_. None, [], []) \<noteq> Panic" "save_event ?c (\<lambda>_. None, [], []) \<noteq> Block"
    unfolding save_event_outcome by (simp_all add: l notify_Nil)
  then obtain m h cm where s: "save_event ?c (\<lambda>_. None, [], []) = Done (m, h, cm)"
    by (cases "save_event ?c (\<lambda>_. None, [], [])") auto
  have "contents m = abs_set ?c (Some ?c) (contents (\<lambda>_. None))" by (rule save_event_contents [OF s])
  then have "contents m (cr_sel r, cr_opt r) = Some ((the (contents m (cr_sel r, cr_opt r)))) \<and>
      the (contents m (cr_sel r, cr_opt r)) (cfgKey (cr_group r) (cr_key r)) = Some ?c"
    by (simp add: abs_set_def Let_def c)
  then have "GetConfigurationViaPlainRequest (cr_group r) (cr_key r) (cr_sel r) (cr_opt r)
      (newServer\<lparr>sv_map := m, sv_chans := h\<rparr>) = Inr ?c"
    by (auto simp: plain_contents)
  moreover have "dumpFromPump [ev_of_row unmarshal r] newServer = Done (newServer\<lparr>sv_map := m, sv_chans := h\<rparr>)"
    using s by (simp add: dumpFromPump_def ev_of_row_def newServer_def)
  ultimately show ?thesis using assms(2) by (auto simp: ev_of_row_def)
qed

theorem dump_resurrects_witness:
  "ev_Deleted (ev_of_row demo_unmarshal (demo_row ''1'' 1 17 1)) \<and>
    (\<exists>s. dumpFromPump [ev_of_row demo_unmarshal (demo_row ''1'' 1 17 1)] newServer = Done s \<and>
      GetConfigurationViaPlainRequest ''g'' ''a'' [] [] s = Inr (cache_cfg (demo_save_cfg ''1'')))"
  using dump_resurrects [OF demo_row_ok, of 1 "''1''" 1 17]
  by (simp add: demo_row_def cfg_of_def demo_unmarshal_def)

lemma demo_pump:
  "\<exists>s'. pump_batch [ev_of_row demo_unmarshal (demo_row ''1'' 0 1 1)] newServer = Done s'"
proof -
  have "sys_inv (\<lparr>sy_srv = newServer, sy_pending = [], sy_waits = []\<rparr>)"
    using sys_inv_init by (simp add: sys_init_def)
  from live_batch_Done [OF this, of "[ev_of_row demo_unmarshal (demo_row ''1'' 0 1 1)]"] show ?thesis
    by (simp add: live_def no_nil_def ev_of_row_def)
qed


end
