(* ===== verification/HttpTypes.thy ===== *)
theory HttpTypes
  imports GoText
begin

text \<open>
  What the HTTP handlers see of \<open>net/http\<close>: the headers of a request as \<open>Header.Get\<close> returns
  them (empty when absent), the outcome of reading the body, the URL parameters of the route,
  and a response with its status, headers and body.
\<close>

record http_request =
  rq_method :: string
  rq_header :: "string \<Rightarrow> string"
  rq_body :: "bytes res"
  rq_param :: "string \<Rightarrow> string"
  rq_query :: "string \<Rightarrow> string"

record http_response =
  rs_status :: nat
  rs_headers :: "(string \<times> string) list"
  rs_body :: bytes

text \<open>\<open>w.WriteHeader(status)\<close> without a body.\<close>

definition status_only :: "nat \<Rightarrow> http_response" where
  "status_only n = \<lparr>rs_status = n, rs_headers = [], rs_body = []\<rparr>"

definition StatusOK :: nat where "StatusOK = 200"
definition StatusNotModified :: nat where "StatusNotModified = 304"
definition StatusBadRequest :: nat where "StatusBadRequest = 400"
definition StatusUnauthorized :: nat where "StatusUnauthorized = 401"
definition StatusForbidden :: nat where "StatusForbidden = 403"
definition StatusNotFound :: nat where "StatusNotFound = 404"
definition StatusNotAcceptable :: nat where "StatusNotAcceptable = 406"
definition StatusInternalServerError :: nat where "StatusInternalServerError = 500"

lemmas http_status = StatusOK_def StatusNotModified_def StatusBadRequest_def StatusUnauthorized_def
  StatusForbidden_def StatusNotFound_def StatusNotAcceptable_def StatusInternalServerError_def

lemma status_only_status [simp]: "rs_status (status_only n) = n"
  by (simp add: status_only_def)

end
