(* ===== verification/ConfigHttp.thy ===== *)
theory ConfigHttp
  imports HttpTypes ConfigProps
begin

text \<open>
  The HTTP interface of the configuration server (\<open>configserver/server.go\<close>,
  \<open>server.write.go\<close>): its handlers over the operations of the server and of the data writer,
  and the start-up and shut-down. The CBOR codec and the data writer are parameters.
\<close>

section \<open>Reading\<close>

record ConfigureOptions =
  co_MaxWaitTimeForUpdate :: int64
  co_HasDataWriter :: bool

definition Second :: int64 where
  "Second = 1000000000"

definition GetMaxWaitTimeForUpdate :: "ConfigureOptions \<Rightarrow> int64" where
  "GetMaxWaitTimeForUpdate c =
     (if co_MaxWaitTimeForUpdate c \<le>s 0 then 60 * Second else co_MaxWaitTimeForUpdate c * Second)"

text \<open>A handler that waits on its channel, with the cancel function it owes, or its response.\<close>

datatype handling = Answered http_response | Listening NotifyChannel cancel_fn

definition handleRetrieveAndListen ::
  "(bytes \<Rightarrow> AcquireConfigurationReq res) \<Rightarrow> (string \<Rightarrow> string \<Rightarrow> bool) \<Rightarrow> http_request \<Rightarrow> server \<Rightarrow>
   (handling \<times> server) run" where
  "handleRetrieveAndListen unmarshal hu r s =
     (if rq_header r ''Accept'' \<noteq> ''application/cbor'' then
        Done (Answered (status_only StatusNotAcceptable), s)
      else case rq_body r of
        Inl e \<Rightarrow> Done (Answered (status_only StatusInternalServerError), s)
      | Inr data \<Rightarrow>
          (case unmarshal data of
             Inl e \<Rightarrow> Done (Answered (status_only StatusInternalServerError), s)
           | Inr req \<Rightarrow>
               if aq_Requested req = [] then Done (Answered (status_only StatusBadRequest), s)
               else run_bind (RetrieveOrWait hu req s) (\<lambda>(ret, s).
                 (case ret of
                    RetErr e \<Rightarrow>
                      if e = ErrHasUnknownConfiguration
                      then Done (Answered (status_only StatusNotFound), s)
                      else Done (Answered (status_only StatusInternalServerError), s)
                  | RetChan ch cancelFn \<Rightarrow> Done (Listening ch cancelFn, s)
                  | RetWait \<Rightarrow> Block))))"

text \<open>
  The loop after the first receive: everything up to the end of the channel; \<open>None\<close> while it
  waits for the channel to be closed.
\<close>

function drain :: "NotifyChannel \<Rightarrow> chans \<Rightarrow> configuration list \<Rightarrow> (configuration list \<times> chans) option" where
  "drain ch h acc =
     (case chan_recv ch h of
        None \<Rightarrow> None
      | Some (None, h') \<Rightarrow> Some (acc, h')
      | Some (Some obj, h') \<Rightarrow> drain ch h' (acc @ [ne_Configuration obj]))"
  by pat_completeness auto
termination
  by (relation "measure (\<lambda>(ch, h, acc). if ch < length h then length (ch_buf (h ! ch)) else 0)")
    (auto simp: chan_recv_def split: if_splits list.splits)

declare drain.simps [simp del]

definition respond_accumulated ::
  "(configuration list \<Rightarrow> bytes res) \<Rightarrow> configuration list \<Rightarrow> http_response" where
  "respond_accumulated marshal accumulated =
     (if accumulated = [] then status_only StatusInternalServerError
      else case marshal accumulated of
        Inl e \<Rightarrow> status_only StatusInternalServerError
      | Inr data \<Rightarrow>
          \<lparr>rs_status = StatusOK, rs_headers = [(''Content-Type'', ''application/cbor'')], rs_body = data\<rparr>)"

text \<open>
  The select: the channel's case once it can be received from, or the timer's; the deferred
  cancel function runs in both.
\<close>

definition listen_channel ::
  "(configuration list \<Rightarrow> bytes res) \<Rightarrow> NotifyChannel \<Rightarrow> cancel_fn \<Rightarrow> server \<Rightarrow> (http_response \<times> server) option" where
  "listen_channel marshal ch cancelFn s =
     (case drain ch (sv_chans s) [] of
        None \<Rightarrow> None
      | Some (acc, h) \<Rightarrow>
          Some (respond_accumulated marshal acc, run_cancel cancelFn (s\<lparr>sv_chans := h\<rparr>)))"

definition listen_timeout :: "cancel_fn \<Rightarrow> server \<Rightarrow> http_response \<times> server" where
  "listen_timeout cancelFn s = (status_only StatusNotModified, run_cancel cancelFn s)"

definition handleGetConfiguration ::
  "(GetConfigurationRes \<Rightarrow> bytes res) \<Rightarrow> http_request \<Rightarrow> server \<Rightarrow> http_response" where
  "handleGetConfiguration marshal r s =
     (let selectorsInfo = TrimSpace (rq_header r ''X-Configuration-Sel'');
          optSelectorsInfo = TrimSpace (rq_header r ''X-Configuration-Opt-Sel'');
          grp = rq_param r ''group''; key = rq_param r ''key''
      in if rq_header r ''Accept'' \<noteq> ''application/cbor'' then status_only StatusNotAcceptable
         else if selectorsInfo = [] then status_only StatusBadRequest
         else if grp = [] then status_only StatusBadRequest
         else if key = [] then status_only StatusBadRequest
         else case GetConfigurationViaPlainRequest grp key selectorsInfo optSelectorsInfo s of
           Inl e \<Rightarrow> if e = ErrHasUnknownConfiguration then status_only StatusNotFound
                   else status_only StatusInternalServerError
         | Inr cfg \<Rightarrow>
             (case marshal \<lparr>gc_Code = ''200'', gc_Message = ''success'', gc_Configuration = cfg\<rparr> of
                Inl e \<Rightarrow> status_only StatusInternalServerError
              | Inr data \<Rightarrow>
                  \<lparr>rs_status = StatusOK, rs_headers = [(''Content-Type'', ''application/cbor'')], rs_body = data\<rparr>))"

section \<open>Writing\<close>

text \<open>The data writer's operations, on its own state \<open>'d\<close>, are parameters.\<close>

definition saveConfiguration ::
  "(bytes \<Rightarrow> configuration res) \<Rightarrow> (configuration \<Rightarrow> 'd \<Rightarrow> unit res \<times> 'd) \<Rightarrow> http_request \<Rightarrow> 'd \<Rightarrow> http_response \<times> 'd" where
  "saveConfiguration unmarshal save r d =
     (if rq_header r ''Accept'' \<noteq> ''application/cbor'' then (status_only StatusNotAcceptable, d)
      else if rq_header r ''Content-Type'' \<noteq> ''application/cbor'' then (status_only StatusNotAcceptable, d)
      else case rq_body r of
        Inl e \<Rightarrow> (status_only StatusInternalServerError, d)
      | Inr data \<Rightarrow>
          (case unmarshal data of
             Inl e \<Rightarrow> (status_only StatusInternalServerError, d)
           | Inr cfg \<Rightarrow>
               if cfg_Group cfg = [] \<or> cfg_Key cfg = [] then (status_only StatusBadRequest, d)
               else (case save cfg d of
                 (Inl e, d) \<Rightarrow> (status_only StatusInternalServerError, d)
               | (Inr _, d) \<Rightarrow> (status_only StatusOK, d))))"

definition deleteConfiguration ::
  "(string \<Rightarrow> string \<Rightarrow> string \<Rightarrow> string \<Rightarrow> 'd \<Rightarrow> bool res \<times> 'd) \<Rightarrow> http_request \<Rightarrow> 'd \<Rightarrow> http_response \<times> 'd" where
  "deleteConfiguration delete r d =
     (let selectorsInfo = TrimSpace (rq_header r ''X-Configuration-Sel'');
          optSelectorsInfo = TrimSpace (rq_header r ''X-Configuration-Opt-Sel'');
          grp = rq_param r ''group''; key = rq_param r ''key''
      in if rq_header r ''Accept'' \<noteq> ''application/cbor'' then (status_only StatusNotAcceptable, d)
         else if selectorsInfo = [] then (status_only StatusBadRequest, d)
         else if grp = [] then (status_only StatusBadRequest, d)
         else if key = [] then (status_only StatusBadRequest, d)
         else case delete grp key selectorsInfo optSelectorsInfo d of
           (Inl e, d) \<Rightarrow> (status_only StatusInternalServerError, d)
         | (Inr ok, d) \<Rightarrow>
             if ok then (status_only StatusOK, d) else (status_only StatusNotFound, d))"

section \<open>Start-up and shut-down\<close>

text \<open>What runs, and the outcomes of the starts and stops of the parts.\<close>

record ConfigureServer =
  cs_writeMux :: bool      \<comment> \<open>the write API is prepared\<close>
  cs_pump :: bool          \<comment> \<open>the pump loop runs\<close>
  cs_writer :: bool        \<comment> \<open>the data writer runs\<close>
  cs_writeHttp :: bool     \<comment> \<open>\<open>writeServer.httpServer\<close> is set\<close>
  cs_httpServer :: bool    \<comment> \<open>\<open>httpServer\<close> is set\<close>

record outcomes =
  oc_pump :: "unit res"
  oc_writer :: "unit res"
  oc_writeHttp :: "unit res"
  oc_http :: "unit res"

definition NewConfigureServer :: "ConfigureOptions \<Rightarrow> ConfigureServer" where
  "NewConfigureServer opt =
     \<lparr>cs_writeMux = co_HasDataWriter opt, cs_pump = False, cs_writer = False, cs_writeHttp = False,
      cs_httpServer = False\<rparr>"

definition startWriteApi :: "outcomes \<Rightarrow> ConfigureServer \<Rightarrow> unit res \<times> ConfigureServer" where
  "startWriteApi oc c =
     (if \<not> cs_writeMux c then (Inr (), c)
      else case oc_writer oc of
        Inl e \<Rightarrow> (Inl e, c)
      | Inr _ \<Rightarrow>
          (let c = c\<lparr>cs_writer := True\<rparr> in
           case oc_writeHttp oc of
             Inl e \<Rightarrow> (Inl e, c)
           | Inr _ \<Rightarrow> (Inr (), c\<lparr>cs_writeHttp := True\<rparr>)))"

definition stopWriteApi :: "outcomes \<Rightarrow> ConfigureServer \<Rightarrow> unit res \<times> ConfigureServer" where
  "stopWriteApi oc c =
     (case (if cs_writeHttp c then oc_writeHttp oc else Inr ()) of
        Inl e \<Rightarrow> (Inl e, c)
      | Inr _ \<Rightarrow>
          if cs_writeMux c then
            (case oc_writer oc of Inl e \<Rightarrow> (Inl e, c) | Inr _ \<Rightarrow> (Inr (), c\<lparr>cs_writer := False\<rparr>))
          else (Inr (), c))"

definition Startup :: "outcomes \<Rightarrow> ConfigureServer \<Rightarrow> unit res \<times> ConfigureServer" where
  "Startup oc c =
     (case oc_pump oc of
        Inl e \<Rightarrow> (Inl e, c)
      | Inr _ \<Rightarrow>
          (case startWriteApi oc (c\<lparr>cs_pump := True\<rparr>) of
             (Inl e, c) \<Rightarrow> (Inl e, c)
           | (Inr _, c) \<Rightarrow>
               (case oc_http oc of
                  Inl e \<Rightarrow> (Inl e, c)
                | Inr _ \<Rightarrow> (Inr (), c\<lparr>cs_httpServer := True\<rparr>))))"

text \<open>The write API first, then the readers' HTTP server, then the server and its pump.\<close>

definition Shutdown :: "outcomes \<Rightarrow> ConfigureServer \<Rightarrow> unit res \<times> ConfigureServer" where
  "Shutdown oc c =
     (case stopWriteApi oc c of
        (Inl e, c) \<Rightarrow> (Inl e, c)
      | (Inr _, c) \<Rightarrow>
          (case (if cs_httpServer c then oc_http oc else Inr ()) of
             Inl e \<Rightarrow> (Inl e, c)
           | Inr _ \<Rightarrow>
               (case oc_pump oc of
                  Inl e \<Rightarrow> (Inl e, c)
                | Inr _ \<Rightarrow> (Inr (), c\<lparr>cs_pump := False\<rparr>))))"

section \<open>Lemmas\<close>

lemma drain_closed:
  "ch < length h \<Longrightarrow> ch_closed (h ! ch) \<Longrightarrow>
   \<exists>h'. drain ch h acc = Some (acc @ map ne_Configuration (ch_buf (h ! ch)), h') \<and>
     length h' = length h \<and> ch_buf (h' ! ch) = [] \<and> (\<forall>c. c \<noteq> ch \<longrightarrow> h' ! c = h ! c)"
proof (induction "ch_buf (h ! ch)" arbitrary: h acc)
  case Nil
  then show ?case by (simp add: drain.simps [of ch h] chan_recv_def)
next
  case (Cons v vs)
  let ?h = "h[ch := (h ! ch)\<lparr>ch_buf := vs\<rparr>]"
  have "chan_recv ch h = Some (Some v, ?h)"
    using Cons.hyps(2) Cons.prems(1) by (simp add: chan_recv_def flip: Cons.hyps(2))
  moreover have "vs = ch_buf (?h ! ch)" "ch < length ?h" "ch_closed (?h ! ch)" using Cons.prems by simp_all
  from Cons.hyps(1) [OF this, of "acc @ [ne_Configuration v]"] obtain h' where
    "drain ch ?h (acc @ [ne_Configuration v]) = Some ((acc @ [ne_Configuration v]) @ map ne_Configuration vs, h')"
    "length h' = length h" "ch_buf (h' ! ch) = []" "\<forall>c. c \<noteq> ch \<longrightarrow> h' ! c = h ! c"
    using Cons.prems by auto
  ultimately show ?case
    by (simp add: drain.simps [of ch h] flip: Cons.hyps(2))
qed

lemma drain_Some_chans:
  "ch < length h \<Longrightarrow> ch_closed (h ! ch) \<Longrightarrow> map ne_Configuration (ch_buf (h ! ch)) = cs \<Longrightarrow>
   \<exists>h'. drain ch h [] = Some (cs, h')"
  using drain_closed [of ch h "[]"] by auto

lemma RetrieveOrWait_chan:
  assumes "RetrieveOrWait hu req s = Done (RetChan ch f, s')"
  shows "ch < length (sv_chans s')"
proof -
  let ?s1 = "s\<lparr>sv_cachedId := sv_cachedId s + 1\<rparr>"
  obtain r1 s1 where c: "RetrieveCheck hu req ?s1 = Done (r1, s1)"
    "(if r1 = RetWait then RetrieveRegister hu (sv_cachedId s + 1) req s1 else Done (r1, s1)) = Done (RetChan ch f, s')"
    using assms by (auto simp: RetrieveOrWait_def nextId_def)
  show ?thesis
  proof (cases "r1 = RetWait")
    case True
    then have "RetrieveRegister hu (sv_cachedId s + 1) req s1 = Done (RetChan ch f, s')" using c(2) by simp
    then show ?thesis by (cases rule: RetrieveRegister_cases) simp_all
  next
    case False
    then have "r1 = RetChan ch f" "s1 = s'" using c(2) by simp_all
    with c(1) show ?thesis by (cases rule: RetrieveCheck_cases) auto
  qed
qed

lemma retrieving_answers:
  assumes "chan_inv (sv_map s) (sv_chans s)"
    and "rq_header r ''Accept'' = ''application/cbor''" "rq_body r = Inr body" "unmarshal body = Inr req"
    and "wanted hu req s = Some cs" "cs \<noteq> []" "marshal cs = Inr out"
  shows "\<exists>ch s' s''. handleRetrieveAndListen unmarshal hu r s = Done (Listening ch CancelNothing, s') \<and>
    listen_channel marshal ch CancelNothing s' =
      Some (\<lparr>rs_status = 200, rs_headers = [(''Content-Type'', ''application/cbor'')], rs_body = out\<rparr>, s'') \<and>
    sv_map s'' = sv_map s"
proof -
  have ne: "aq_Requested req \<noteq> []" using assms(5,6) by (auto simp: wanted_def Let_def split: if_splits)
  obtain ret s' where ret: "RetrieveOrWait hu req s = Done (ret, s')" "answers hu req s ret s'"
    using retrieve_answers [OF assms(1)] by blast
  obtain c cs' where cs: "cs = c # cs'" using assms(6) by (cases cs) auto
  obtain ch where ch: "ret = RetChan ch CancelNothing" "sv_map s' = sv_map s" "ch_closed (sv_chans s' ! ch)"
    "map ne_Configuration (ch_buf (sv_chans s' ! ch)) = cs"
    using ret(2) assms(5) cs by (auto simp: answers_def)
  have "ch < length (sv_chans s')"
    using RetrieveOrWait_chan [OF ret(1) [unfolded ch(1)]] .
  from drain_Some_chans [OF this ch(3,4)] obtain h' where "drain ch (sv_chans s') [] = Some (cs, h')" by blast
  then have "listen_channel marshal ch CancelNothing s' =
      Some (\<lparr>rs_status = 200, rs_headers = [(''Content-Type'', ''application/cbor'')], rs_body = out\<rparr>, s'\<lparr>sv_chans := h'\<rparr>)"
    using assms(6,7) by (simp add: listen_channel_def respond_accumulated_def StatusOK_def)
  moreover have "handleRetrieveAndListen unmarshal hu r s = Done (Listening ch CancelNothing, s')"
    using assms(2-4) ne ret(1) ch(1) by (simp add: handleRetrieveAndListen_def)
  ultimately show ?thesis using ch(2) by force
qed

lemma demo_wanted:
  "wanted DefaultHasUpdate ((demo_req [''a''])\<lparr>aq_Requested := [\<lparr>rk_Group = ''g'', rk_Key = ''a'', rk_Version = ''0''\<rparr>]\<rparr>)
      (sy_srv demo_start) = Some [demo_cfg ''a'' ''1'']"
proof -
  have g: "GetSelectorsGeneral (sv_map (sy_srv demo_start)) [] [] = Some ([], [])"
    by (simp add: demo_start_def demo_store)
  show "wanted DefaultHasUpdate ((demo_req [''a''])\<lparr>aq_Requested := [\<lparr>rk_Group = ''g'', rk_Key = ''a'', rk_Version = ''0''\<rparr>]\<rparr>)
      (sy_srv demo_start) = Some [demo_cfg ''a'' ''1'']"
    by (simp add: wanted_def demo_req_def demo_lookup g DefaultHasUpdate_def less_list_code)
qed

text \<open>C35. A client that is behind is answered at once: if the body of a \<open>/retrieving\<close> request decodes
  to keys that are all known and some are newer on the server, the handler gets a channel from
  which it reads exactly the newer configurations, in the order of the request, and its answer
  is status 200 with their encoding; nothing stays registered.\<close>

theorem retrieving_answers_updates:
  assumes "chan_inv (sv_map s) (sv_chans s)"
    and "rq_header r ''Accept'' = ''application/cbor''" "rq_body r = Inr body" "unmarshal body = Inr req"
    and "wanted hu req s = Some cs" "cs \<noteq> []" "marshal cs = Inr out"
  shows "\<exists>ch s' s''. handleRetrieveAndListen unmarshal hu r s = Done (Listening ch CancelNothing, s') \<and>
    listen_channel marshal ch CancelNothing s' =
      Some (\<lparr>rs_status = 200, rs_headers = [(''Content-Type'', ''application/cbor'')], rs_body = out\<rparr>, s'') \<and>
    sv_map s'' = sv_map s"
  by (rule retrieving_answers [where body = body and req = req and cs = cs]) (rule assms)+

theorem retrieving_answers_updates_witness:
  "\<exists>ch s' s''. handleRetrieveAndListen (\<lambda>_. Inr ((demo_req [''a''])\<lparr>aq_Requested := [\<lparr>rk_Group = ''g'', rk_Key = ''a'', rk_Version = ''0''\<rparr>]\<rparr>))
      DefaultHasUpdate
      \<lparr>rq_method = ''POST'', rq_header = (\<lambda>_. ''application/cbor''), rq_body = Inr [], rq_param = (\<lambda>_. []), rq_query = (\<lambda>_. [])\<rparr>
      (sy_srv demo_start) = Done (Listening ch CancelNothing, s') \<and>
    listen_channel (\<lambda>_. Inr [1]) ch CancelNothing s' =
      Some (\<lparr>rs_status = 200, rs_headers = [(''Content-Type'', ''application/cbor'')], rs_body = [1]\<rparr>, s'') \<and>
    sv_map s'' = sv_map (sy_srv demo_start)"
proof (rule retrieving_answers_updates [where body = "[]" and cs = "[demo_cfg ''a'' ''1'']" and
      req = "(demo_req [''a''])\<lparr>aq_Requested := [\<lparr>rk_Group = ''g'', rk_Key = ''a'', rk_Version = ''0''\<rparr>]\<rparr>"])
  show "chan_inv (sv_map (sy_srv demo_start)) (sv_chans (sy_srv demo_start))" by (rule demo_start_inv)
qed (simp_all add: demo_wanted)

end
