(* ===== verification/ConfigPublish.thy ===== *)
theory ConfigPublish
  imports ConfigSync ConfigHttp
begin

text \<open>
  Publishing over HTTP: the write server (\<open>configure/configserver/server.write.go\<close>) hands the requests of the write API to the
  data writer. With the database writer behind it, the pump that scans the table and the read API: a configuration that
  was posted is the one that is served.
\<close>

section \<open>The write server\<close>

text \<open>The operations of a data writer on its state.\<close>

record 'd DataWriter =
  dw_Startup :: "'d \<Rightarrow> unit res \<times> 'd"
  dw_Stop :: "'d \<Rightarrow> unit res \<times> 'd"
  dw_SaveConfiguration :: "configuration \<Rightarrow> 'd \<Rightarrow> unit res \<times> 'd"
  dw_DeleteConfiguration :: "string \<Rightarrow> string \<Rightarrow> string \<Rightarrow> string \<Rightarrow> 'd \<Rightarrow> bool res \<times> 'd"

record 'd writeServer =
  ws_DataWriter :: "'d DataWriter"

definition writeServer_Startup :: "'d writeServer \<Rightarrow> 'd \<Rightarrow> unit res \<times> 'd" where
  "writeServer_Startup w d = dw_Startup (ws_DataWriter w) d"

definition writeServer_Stop :: "'d writeServer \<Rightarrow> 'd \<Rightarrow> unit res \<times> 'd" where
  "writeServer_Stop w d = dw_Stop (ws_DataWriter w) d"

definition writeServer_SaveConfiguration :: "'d writeServer \<Rightarrow> configuration \<Rightarrow> 'd \<Rightarrow> unit res \<times> 'd" where
  "writeServer_SaveConfiguration w cfg d = dw_SaveConfiguration (ws_DataWriter w) cfg d"

definition writeServer_DeleteConfiguration :: "'d writeServer \<Rightarrow> string \<Rightarrow> string \<Rightarrow> string \<Rightarrow> string \<Rightarrow> 'd \<Rightarrow> bool res \<times> 'd" where
  "writeServer_DeleteConfiguration w grp key sel optSel d = dw_DeleteConfiguration (ws_DataWriter w) grp key sel optSel d"

text \<open>\<open>prepareWriteApi\<close>: no write server without a data writer.\<close>

definition prepareWriteApi :: "'d DataWriter option \<Rightarrow> 'd writeServer option" where
  "prepareWriteApi dw = map_option (\<lambda>dw. \<lparr>ws_DataWriter = dw\<rparr>) dw"

text \<open>The database writer, with what each of its calls meets; starting and stopping it opens and closes its connections.\<close>

definition database_writer ::
  "(bytes \<Rightarrow> bytes) \<Rightarrow> (configuration \<Rightarrow> bytes res) \<Rightarrow> db_env \<Rightarrow> cfg_db DataWriter" where
  "database_writer sha marshal en =
     \<lparr>dw_Startup = \<lambda>db. (Inr (), db), dw_Stop = \<lambda>db. (Inr (), db), dw_SaveConfiguration = SaveConfiguration sha marshal en,
      dw_DeleteConfiguration = db_DeleteConfiguration en\<rparr>"

section \<open>The interface of data writers\<close>

text \<open>
  What the write API relies on: a writer keeps its state well-formed, a successful save leaves the configuration in
  the state (\<open>stored\<close>), and a call that reports an error, or that nothing was deleted, changes nothing.
\<close>

locale data_writer =
  fixes save :: "configuration \<Rightarrow> 'd \<Rightarrow> unit res \<times> 'd"
    and delete :: "string \<Rightarrow> string \<Rightarrow> string \<Rightarrow> string \<Rightarrow> 'd \<Rightarrow> bool res \<times> 'd"
    and inv :: "'d \<Rightarrow> bool"
    and stored :: "'d \<Rightarrow> configuration \<Rightarrow> bool"
  assumes save_ok: "inv d \<Longrightarrow> save cfg d = (Inr (), d') \<Longrightarrow> inv d' \<and> stored d' cfg"
    and save_error: "save cfg d = (Inl e, d') \<Longrightarrow> d' = d"
    and delete_inv: "inv d \<Longrightarrow> delete grp key sel opt d = (res, d') \<Longrightarrow> inv d'"
    and delete_none: "delete grp key sel opt d = (res, d') \<Longrightarrow> res \<noteq> Inr True \<Longrightarrow> d' = d"
begin

lemma post_cases:
  assumes "saveConfiguration decode save r d = (resp, d')" "inv d"
  shows "rs_status resp = 200 \<and> inv d' \<and> (\<exists>cfg. res_bind (rq_body r) decode = Inr cfg \<and> stored d' cfg) \<or> rs_status resp \<noteq> 200 \<and> d' = d"
proof (cases "\<exists>data cfg. rq_body r = Inr data \<and> decode data = Inr cfg \<and> cfg_Group cfg \<noteq> [] \<and> cfg_Key cfg \<noteq> []")
  case True
  then obtain data cfg where c: "rq_body r = Inr data" "decode data = Inr cfg" "cfg_Group cfg \<noteq> []" "cfg_Key cfg \<noteq> []" by blast
  obtain res d1 where s: "save cfg d = (res, d1)" by (rule prod.exhaust)
  show ?thesis
    using assms(1) c s save_ok [OF assms(2)] save_error
    by (cases res) (auto simp: saveConfiguration_def http_status split: if_splits)
next
  case False
  then show ?thesis
    using assms(1) by (auto simp: saveConfiguration_def http_status split: if_splits sum.splits)
qed

lemma delete_cases:
  assumes "deleteConfiguration delete r d = (resp, d')" "inv d"
  shows "inv d' \<and> (rs_status resp = 200 \<or> d' = d)"
proof -
  let ?sel = "TrimSpace (rq_header r ''X-Configuration-Sel'')" and ?opt = "TrimSpace (rq_header r ''X-Configuration-Opt-Sel'')"
  obtain res d1 where x: "delete (rq_param r ''group'') (rq_param r ''key'') ?sel ?opt d = (res, d1)" by (rule prod.exhaust)
  have "inv d1" "res \<noteq> Inr True \<longrightarrow> d1 = d" using delete_inv [OF assms(2) x] delete_none [OF x] by blast+
  then show ?thesis
    using assms x by (cases res) (auto simp: deleteConfiguration_def Let_def http_status split: if_splits)
qed

end

text \<open>A row with the key of the configuration and its encoding.\<close>

definition in_table :: "(configuration \<Rightarrow> bytes res) \<Rightarrow> cfg_db \<Rightarrow> configuration \<Rightarrow> bool" where
  "in_table marshal db cfg \<longleftrightarrow>
     (let sel = SelectorsHelperCacheValue (cfg_Selectors cfg); opt = SelectorsHelperCacheValue (cfg_OptionalSelectors cfg) in
      \<exists>row \<in> set (db_rows db). row_key row = (fst sel, fst opt, cfg_Group cfg, cfg_Key cfg) \<and>
        marshal (cfg\<lparr>cfg_Selectors := snd sel, cfg_OptionalSelectors := snd opt\<rparr>) = Inr (cr_raw row))"

lemma database_save_ok:
  assumes "db_ok db" "SaveConfiguration sha marshal en cfg db = (Inr (), db')"
  shows "db_ok db' \<and> in_table marshal db' cfg"
proof -
  let ?sel = "SelectorsHelperCacheValue (cfg_Selectors cfg)" and ?opt = "SelectorsHelperCacheValue (cfg_OptionalSelectors cfg)"
  let ?cfg = "cfg\<lparr>cfg_Selectors := snd ?sel, cfg_OptionalSelectors := snd ?opt\<rparr>"
  obtain data where d: "marshal ?cfg = Inr data" "save_tx en (fst ?sel) (fst ?opt) ?cfg data db = (Inr (), db')"
    using assms(2) by (auto simp: SaveConfiguration_def Let_def split: if_splits sum.splits option.splits prod.splits)
  from save_tx_Inr [OF d(2) assms(1)] d(1) show ?thesis by (auto simp: touched_def in_table_def Let_def)
qed

lemma database_delete_inv: "db_ok db \<Longrightarrow> db_DeleteConfiguration en grp key sel opt db = (res, db') \<Longrightarrow> db_ok db'"
proof (cases "res = Inr True")
  case True
  moreover assume "db_ok db" "db_DeleteConfiguration en grp key sel opt db = (res, db')"
  ultimately show ?thesis using delete_Inr [of en grp key sel opt db db'] by (auto simp: touched_def)
next
  case False
  moreover assume "db_ok db" "db_DeleteConfiguration en grp key sel opt db = (res, db')"
  ultimately show ?thesis by (auto simp: db_DeleteConfiguration_def split: option.splits if_splits)
qed

interpretation dbw: data_writer "SaveConfiguration sha marshal en" "db_DeleteConfiguration en" db_ok "in_table marshal"
proof
  fix cfg db e db'
  assume "SaveConfiguration sha marshal en cfg db = (Inl e, db')"
  then show "db' = db" by (auto simp: SaveConfiguration_def Let_def split: if_splits sum.splits option.splits prod.splits)
next
  fix grp key sel opt db res db'
  assume "db_DeleteConfiguration en grp key sel opt db = (res, db')" "res \<noteq> Inr True"
  then show "db' = db" by (auto simp: db_DeleteConfiguration_def split: option.splits if_splits)
qed (use database_save_ok database_delete_inv in blast)+

text \<open>C11. The write API is all or nothing on the database: a request that is answered with anything but 200 has changed nothing in
  the table; a posted configuration that is answered with 200 is in the table under its key, encoded; and the table
  stays well-formed through posts and deletions, whatever fails.\<close>

theorem write_api_atomic:
  assumes "db_ok db"
  shows "(case saveConfiguration decode (SaveConfiguration sha marshal en) r db of (resp, db') \<Rightarrow>
      db_ok db' \<and> (if rs_status resp = 200 then \<exists>cfg. res_bind (rq_body r) decode = Inr cfg \<and> in_table marshal db' cfg else db' = db)) \<and>
    (case deleteConfiguration (db_DeleteConfiguration en) r db of (resp, db') \<Rightarrow> db_ok db' \<and> (rs_status resp = 200 \<or> db' = db))"
proof -
  obtain resp1 db1 where s: "saveConfiguration decode (SaveConfiguration sha marshal en) r db = (resp1, db1)" by (rule prod.exhaust)
  obtain resp2 db2 where x: "deleteConfiguration (db_DeleteConfiguration en) r db = (resp2, db2)" by (rule prod.exhaust)
  show ?thesis using dbw.post_cases [OF s assms] dbw.delete_cases [OF x assms] assms unfolding s x prod.case by auto
qed

section \<open>Published configurations are served\<close>

lemma save_handler_OK:
  assumes "saveConfiguration decode save r d = (resp, d')" "rs_status resp = StatusOK"
  shows "\<exists>data cfg. rq_body r = Inr data \<and> decode data = Inr cfg \<and> cfg_Group cfg \<noteq> [] \<and> cfg_Key cfg \<noteq> [] \<and> save cfg d = (Inr (), d')"
proof (cases "rq_body r")
  case (Inr data)
  then show ?thesis
    using assms by (cases "decode data") (auto simp: saveConfiguration_def http_status split: if_splits prod.splits sum.splits)
qed (use assms in \<open>auto simp: saveConfiguration_def http_status split: if_splits\<close>)

text \<open>The parts of a configuration that a reader sees.\<close>

definition published :: "configuration \<Rightarrow> configuration \<Rightarrow> bool" where
  "published cfg c \<longleftrightarrow> cfg_Group c = cfg_Group cfg \<and> cfg_Key c = cfg_Key cfg \<and> cfg_Version c = cfg_Version cfg \<and>
     cfg_Value c = cfg_Value cfg \<and> cfg_Signature c = cfg_Signature cfg \<and> cfg_Timestamp c = cfg_Timestamp cfg \<and>
     s_Data (cfg_Selectors c) = s_Data (cfg_Selectors cfg) \<and> s_Data (cfg_OptionalSelectors c) = s_Data (cfg_OptionalSelectors cfg)"

lemma published_row:
  "published cfg (cache_cfg (wire (cfg\<lparr>cfg_Selectors := snd (SelectorsHelperCacheValue (cfg_Selectors cfg)),
      cfg_OptionalSelectors := snd (SelectorsHelperCacheValue (cfg_OptionalSelectors cfg))\<rparr>)))"
  by (simp add: published_def cache_cfg_def wire_def wire_sel_def SelectorsHelperCache_def SelectorsHelperCacheValue_def cache_def)

lemma Join_nonempty: "\<exists>x \<in> set xs. x \<noteq> [] \<Longrightarrow> Join c xs \<noteq> []"
  by (induction c xs rule: Join.induct) auto

lemma sel_text_nonempty:
  assumes "m \<noteq> []"
  shows "sel_text m \<noteq> []"
proof -
  obtain k v m' where "m = (k, v) # m'" using assms by (cases m) auto
  then have "k \<in> set (gokeys m)" by simp
  then have "k \<in> set (sort (gokeys m))" by (simp only: set_sort)
  then have "k @ CHR ''='' # the (map_of m k) \<in> set (map (\<lambda>k. k @ CHR ''='' # the (map_of m k)) (sort (gokeys m)))"
    unfolding set_map by (rule imageI)
  moreover have "k @ CHR ''='' # the (map_of m k) \<noteq> []" by simp
  ultimately show ?thesis unfolding sel_text_def by (intro Join_nonempty bexI)
qed

lemma sel_value: "s_cached s = [] \<Longrightarrow> fst (SelectorsHelperCacheValue s) = sel_text (s_Data s)"
  by (simp add: SelectorsHelperCacheValue_def cache_def sel_text_def)


section \<open>An example\<close>

definition posted :: configuration where
  "posted = (demo_cfg ''a'' ''1'')\<lparr>cfg_Signature := ''sha256:'', cfg_Selectors := \<lparr>s_Data = [(''dc'', ''1'')], s_cached = []\<rparr>\<rparr>"

definition posted_marshal :: "configuration \<Rightarrow> bytes res" where
  "posted_marshal c = (if wire c = posted then Inr [1] else Inl (Errorf ''unsupported''))"

definition posted_unmarshal :: "bytes \<Rightarrow> configuration res" where
  "posted_unmarshal b = (if b = [1] then Inr posted else Inl (Errorf ''unsupported''))"

definition posted_row :: cfg_row where
  "posted_row = \<lparr>cr_id = 1, cr_sel = ''dc=1'', cr_opt = [], cr_group = ''g'', cr_key = ''a'', cr_version = ''1'',
     cr_status = 0, cr_raw = [1], cr_created = 1000, cr_updated = 1000, cr_seq = 1\<rparr>"

definition posted_db :: cfg_db where
  "posted_db = \<lparr>db_rows = [posted_row], db_nextId = 2, db_nextSeq = 17\<rparr>"

definition web_request :: http_request where
  "web_request = \<lparr>rq_method = [], rq_header = \<lambda>h. if h = ''X-Configuration-Sel'' then ''dc=1'' else if h = ''X-Configuration-Opt-Sel'' then []
       else ''application/cbor'', rq_body = Inr [1], rq_param = \<lambda>p. if p = ''group'' then ''g'' else ''a'', rq_query = \<lambda>_. []\<rparr>"

lemma posted_sel:
  "SelectorsHelperCacheValue (cfg_Selectors posted) = (''dc=1'', \<lparr>s_Data = [(''dc'', ''1'')], s_cached = ''dc=1''\<rparr>)"
  "SelectorsHelperCacheValue (cfg_OptionalSelectors posted) = ([], selectors_zero)"
  by (simp_all add: SelectorsHelperCacheValue_def cache_def posted_def sel_text_def selectors_zero_def)

lemma posted_fields: "cfg_Group posted = ''g''" "cfg_Key posted = ''a''" "cfg_Version posted = ''1''" "wire posted = posted"
  "wire (posted\<lparr>cfg_Selectors := \<lparr>s_Data = [(''dc'', ''1'')], s_cached = ''dc=1''\<rparr>, cfg_OptionalSelectors := selectors_zero\<rparr>) = posted"
  "ValidateSignature (\<lambda>_. []) posted"
  by (simp_all add: posted_def wire_def wire_sel_def demo_cfg_def configuration_zero_def selectors_zero_def ValidateSignature_def GenerateSignature_def)

lemma posted_codec: "codec_ok posted_marshal posted_unmarshal"
  by (auto simp: codec_ok_def posted_marshal_def posted_unmarshal_def split: if_splits)

lemma posted_save: "SaveConfiguration (\<lambda>_. []) posted_marshal demo_env posted empty_db = (Inr (), posted_db)"
  by (simp add: SaveConfiguration_def posted_sel posted_marshal_def posted_fields demo_env_def save_tx_def getExistingConfiguration_def
      empty_db_def insertConfiguration_def NRetry_def eval_nat_numeral updateConfiguration_def posted_db_def posted_row_def row_key_def)

lemma write_api_atomic_witness:
  "case saveConfiguration posted_unmarshal (SaveConfiguration (\<lambda>_. []) posted_marshal demo_env) web_request empty_db of (resp, db') \<Rightarrow>
     db_ok db' \<and> (if rs_status resp = 200 then \<exists>cfg. res_bind (rq_body web_request) posted_unmarshal = Inr cfg \<and> in_table posted_marshal db' cfg
       else db' = empty_db)"
  using write_api_atomic [where db = empty_db and decode = posted_unmarshal and sha = "\<lambda>_. []" and marshal = posted_marshal and en = demo_env and r = web_request]
  by (simp add: db_ok_def empty_db_def)

lemma posted_row_ok: "row_ok posted_unmarshal posted_row"
  by (simp add: row_ok_def posted_row_def cfg_of_def posted_unmarshal_def cfg_store_def sel_key_def posted_sel posted_fields)

text \<open>The state in which the pump has read the posted row.\<close>

lemma posted_served:
  "\<exists>s. dreach (\<lambda>_. []) posted_marshal posted_unmarshal \<lparr>ds_db = posted_db, ds_mark = 1, ds_srv = s\<rparr> \<and>
    scan_turn posted_unmarshal 1 posted_db = ([], 1, False)"
proof -
  have ok: "\<forall>r \<in> set (db_rows posted_db). row_ok posted_unmarshal r" using posted_row_ok by (simp add: posted_db_def)
  have p: "page 0 MaxInt64_seq posted_db = [posted_row]" "page 1 MaxInt64_seq posted_db = []"
    by (simp_all add: page_def MaxInt64_seq_def maxRowPerQuery_def posted_db_def posted_row_def)
  have "sys_inv (\<lparr>sy_srv = newServer, sy_pending = [], sy_waits = []\<rparr>)" using sys_inv_init by (simp add: sys_init_def)
  then obtain s where s: "pump_batch [ev_of_row posted_unmarshal posted_row] newServer = Done s"
    using live_batch_Done [of _ "[ev_of_row posted_unmarshal posted_row]"] by (force simp: live_def no_nil_def ev_of_row_def)
  have "dreach (\<lambda>_. []) posted_marshal posted_unmarshal \<lparr>ds_db = posted_db, ds_mark = 0, ds_srv = newServer\<rparr>"
    using dreach.step [OF dreach.init dstep.save [where en = demo_env and db' = posted_db and cfg = posted]] posted_save
    by (simp add: posted_fields)
  moreover have "scan_turn posted_unmarshal 0 posted_db = ([ev_of_row posted_unmarshal posted_row], 1, True)"
    using p(1) unfolding scan_turn_ok [OF ok] by (simp add: posted_row_def)
  ultimately have "dreach (\<lambda>_. []) posted_marshal posted_unmarshal \<lparr>ds_db = posted_db, ds_mark = 1, ds_srv = s\<rparr>"
    using dreach.step [OF _ dstep.scan, where y = "\<lparr>ds_db = posted_db, ds_mark = 0, ds_srv = newServer\<rparr>"] s by simp
  moreover have "scan_turn posted_unmarshal 1 posted_db = ([], 1, False)" using p(2) unfolding scan_turn_ok [OF ok] by simp
  ultimately show ?thesis by blast
qed


end
