(* ===== verification/ConfigSeed.thy ===== *)
theory ConfigSeed
  imports ConfigSync GoScan
begin

text \<open>
  The tools that put a test configuration into the table (\<open>configure/cfgimpl/cfgdatagen/main.go\<close>,
  \<open>cfgjsondatagen/main.go\<close>): one statement in one transaction, beside the data writer. Any error panics; the deferred
  rollback undoes the transaction.
\<close>

section \<open>The tools\<close>

text \<open>What the database answers to each call, the codec, and the clock in seconds and in milliseconds at the two places of the statement.\<close>

record seed_env =
  sd_pool :: "go_error option"
  sd_acquire :: "go_error option"
  sd_begin :: "go_error option"
  sd_exec :: "go_error option"
  sd_commit :: "go_error option"
  sd_marshal :: "configuration \<Rightarrow> bytes res"
  sd_unix :: int64
  sd_created :: int64
  sd_updated :: int64

definition seed_selectors :: selectors where
  "seed_selectors = \<lparr>s_Data = [(''dc'', ''dc1'')], s_cached = []\<rparr>"

definition datagen_cfg :: "int \<Rightarrow> int \<Rightarrow> int64 \<Rightarrow> configuration" where
  "datagen_cfg r1 r2 unix =
     \<lparr>cfg_Group = ''group_'' @ FormatInt r1, cfg_Key = ''key_'' @ FormatInt r2, cfg_Version = ''v1.1'', cfg_Value = map (\<lambda>c. word_of_nat (of_char c)) ''test data'',
      cfg_Signature = ''testsig1'', cfg_Selectors = seed_selectors, cfg_OptionalSelectors = selectors_zero, cfg_Timestamp = unix\<rparr>"

definition jsondatagen_cfg :: "int64 \<Rightarrow> configuration" where
  "jsondatagen_cfg unix =
     \<lparr>cfg_Group = ''group_json'', cfg_Key = ''key_json'', cfg_Version = ''v1.1'',
      cfg_Value = map (\<lambda>c. word_of_nat (of_char c)) (CHR ''{'' # CHR 0x22 # ''str'' @ CHR 0x22 # '':'' @ CHR 0x22 # ''test string'' @ CHR 0x22 # '', '' @
        CHR 0x22 # ''int'' @ CHR 0x22 # '': 112233, '' @ CHR 0x22 # ''bool'' @ CHR 0x22 # '':true}''),
      cfg_Signature = ''testsig1'', cfg_Selectors = seed_selectors, cfg_OptionalSelectors = selectors_zero, cfg_Timestamp = unix\<rparr>"

text \<open>The statement takes the next value of the sequence itself; the unique indexes refuse a key or a sequence that is there.\<close>

definition seed_insert :: "seed_env \<Rightarrow> configuration \<Rightarrow> bytes \<Rightarrow> cfg_db \<Rightarrow> unit res \<times> cfg_db" where
  "seed_insert e cfg data db =
     (case sd_exec e of
        Some er \<Rightarrow> (Inl er, db)
      | None \<Rightarrow>
          (let sel = fst (SelectorsHelperCacheValue (cfg_Selectors cfg)); opt = fst (SelectorsHelperCacheValue (cfg_OptionalSelectors cfg)) in
           if \<exists>r \<in> set (db_rows db). row_key r = (sel, opt, cfg_Group cfg, cfg_Key cfg) \<or> cr_seq r = db_nextSeq db
           then (Inl (Errorf ''duplicate key value violates unique constraint''), db)
           else (Inr (), db\<lparr>db_rows := db_rows db @
                 [\<lparr>cr_id = db_nextId db, cr_sel = sel, cr_opt = opt, cr_group = cfg_Group cfg, cr_key = cfg_Key cfg, cr_version = cfg_Version cfg,
                   cr_status = 0, cr_raw = data, cr_created = sd_created e, cr_updated = sd_updated e, cr_seq = db_nextSeq db\<rparr>],
               db_nextId := db_nextId db + 1, db_nextSeq := db_nextSeq db + 16\<rparr>)))"

text \<open>The rest of both programs; a panic leaves the table as it was, but for the numbers that were drawn.\<close>

definition seed_main :: "seed_env \<Rightarrow> configuration \<Rightarrow> cfg_db \<Rightarrow> cfg_db run" where
  "seed_main e cfg db =
     (if sd_pool e \<noteq> None \<or> sd_acquire e \<noteq> None then Panic
      else case sd_marshal e cfg of
        Inl er \<Rightarrow> Panic
      | Inr data \<Rightarrow>
          if sd_begin e \<noteq> None then Panic
          else (case seed_insert e cfg data db of
              (Inl er, _) \<Rightarrow> Panic
            | (Inr _, db') \<Rightarrow> if sd_commit e \<noteq> None then Panic else Done db'))"

definition cfgdatagen_main :: "seed_env \<Rightarrow> int \<Rightarrow> int \<Rightarrow> cfg_db \<Rightarrow> cfg_db run" where
  "cfgdatagen_main e r1 r2 db = seed_main e (datagen_cfg r1 r2 (sd_unix e)) db"

definition cfgjsondatagen_main :: "seed_env \<Rightarrow> cfg_db \<Rightarrow> cfg_db run" where
  "cfgjsondatagen_main e db = seed_main e (jsondatagen_cfg (sd_unix e)) db"

section \<open>What the tools write\<close>

lemma seed_sel: "SelectorsHelperCacheValue seed_selectors = (''dc=dc1'', seed_selectors\<lparr>s_cached := ''dc=dc1''\<rparr>)"
  by (simp add: SelectorsHelperCacheValue_def cache_def seed_selectors_def sel_text_def)

text \<open>The row is one the pump reads and the server can hold, if the codec gives back what it encoded.\<close>

lemma seed_main_follows:
  assumes "seed_main e cfg db = Done db'" "codec_ok (sd_marshal e) u" "follows u db m A"
    and "wire cfg = cfg" "CHR ''|'' \<notin> set (cfg_Group cfg)"
  shows "follows u db' m A \<and> (\<exists>row. touched (fst (SelectorsHelperCacheValue (cfg_Selectors cfg)), fst (SelectorsHelperCacheValue (cfg_OptionalSelectors cfg)),
    cfg_Group cfg, cfg_Key cfg) row db db' \<and> u (cr_raw row) = Inr cfg \<and> cr_status row = 0)"
proof -
  obtain data where d: "sd_marshal e cfg = Inr data" "seed_insert e cfg data db = (Inr (), db')"
    using assms(1) by (auto simp: seed_main_def split: if_splits sum.splits prod.splits)
  let ?sel = "fst (SelectorsHelperCacheValue (cfg_Selectors cfg))" and ?opt = "fst (SelectorsHelperCacheValue (cfg_OptionalSelectors cfg))"
  let ?k = "(?sel, ?opt, cfg_Group cfg, cfg_Key cfg)"
  let ?row = "\<lparr>cr_id = db_nextId db, cr_sel = ?sel, cr_opt = ?opt, cr_group = cfg_Group cfg, cr_key = cfg_Key cfg, cr_version = cfg_Version cfg,
                   cr_status = 0, cr_raw = data, cr_created = sd_created e, cr_updated = sd_updated e, cr_seq = db_nextSeq db\<rparr>"
  have db': "db' = db\<lparr>db_rows := db_rows db @ [?row], db_nextId := db_nextId db + 1, db_nextSeq := db_nextSeq db + 16\<rparr>"
    and fresh: "\<forall>r \<in> set (db_rows db). row_key r \<noteq> ?k"
    using d(2) by (auto simp: seed_insert_def Let_def split: option.splits if_splits)
  have ok: "db_ok db" using assms(3) by (simp add: follows_def)
  have rk: "row_key ?row = ?k" by (simp add: row_key_def)
  have ok': "db_ok db'" using ok fresh rk unfolding db' by (auto simp: db_ok_def)
  have "?row \<notin> set (db_rows db)" using fresh rk by blast
  then have t: "touched ?k ?row db db'" using ok' fresh rk by (auto simp: touched_def db')
  have u: "u data = Inr cfg" using assms(2,4) d(1) by (simp add: codec_ok_def)
  have w: "wire_sel (cfg_Selectors cfg) = cfg_Selectors cfg" "wire_sel (cfg_OptionalSelectors cfg) = cfg_OptionalSelectors cfg"
    using arg_cong [OF assms(4), of cfg_Selectors] arg_cong [OF assms(4), of cfg_OptionalSelectors] by (simp_all add: wire_def)
  have "row_ok u ?row" using u assms(5) by (simp add: row_ok_def cfg_of_def cfg_store_def sel_key_def)
  then have "follows u db' m A" by (rule follows_touched [OF assms(3) t])
  then show ?thesis using t u by (intro conjI exI [of _ ?row]) simp_all
qed

text \<open>Neither configuration has a valid signature: the data writer would refuse it.\<close>

lemma seeds_unsigned: "\<not> ValidateSignature sha (datagen_cfg r1 r2 unix)" "\<not> ValidateSignature sha (jsondatagen_cfg unix)"
  by (simp_all add: ValidateSignature_def GenerateSignature_def datagen_cfg_def jsondatagen_cfg_def)

end
