(* ===== verification/PumpLife.thy ===== *)
theory PumpLife
  imports ConfigDb
begin

text \<open>
  The life of the database pump (\<open>configure/cfgimpl/datapump.go\<close>): its scan loop in the steps that other goroutines can
  fall between, and \<open>Stop\<close> in its own. Sending on a closed channel panics. The pool of connections behaves as its
  documentation says: from the call of \<open>Close\<close> on it refuses to hand out a connection, and \<open>Close\<close> returns when every
  connection has been returned.
\<close>

section \<open>Steps\<close>

text \<open>\<open>AtSend evs m\<close>: the events still to be sent, and the sequence that is marked as read afterwards.\<close>

datatype scan_pc = AtStart | AtTop | AtAcquire | AtQuery | AtSend "event list" int | Ended

datatype stop_pc = Running | ClosingPool | PoolClosed | LoopClosed | Stopped

text \<open>The stages of \<open>Stop\<close>, in the order in which it goes through them.\<close>

fun stage :: "stop_pc \<Rightarrow> nat" where
  "stage Running = 0"
| "stage ClosingPool = 1"
| "stage PoolClosed = 2"
| "stage LoopClosed = 3"
| "stage Stopped = 4"

instantiation stop_pc :: linorder
begin

definition less_eq_stop_pc :: "stop_pc \<Rightarrow> stop_pc \<Rightarrow> bool" where
  "less_eq_stop_pc a b \<longleftrightarrow> stage a \<le> stage b"

definition less_stop_pc :: "stop_pc \<Rightarrow> stop_pc \<Rightarrow> bool" where
  "less_stop_pc a b \<longleftrightarrow> stage a < stage b"

instance
proof
  fix a b :: stop_pc
  show "a \<le> b \<Longrightarrow> b \<le> a \<Longrightarrow> a = b" by (cases a; cases b) (simp_all add: less_eq_stop_pc_def)
qed (auto simp: less_eq_stop_pc_def less_stop_pc_def)

end

lemmas stage_order = less_eq_stop_pc_def less_stop_pc_def

record pump_life =
  pl_db :: cfg_db
  pl_updateScanId :: int
  pl_startScan :: bool       \<comment> \<open>closed\<close>
  pl_closeCh :: bool         \<comment> \<open>closed\<close>
  pl_eventsClosed :: bool
  pl_poolClosed :: bool
  pl_conn :: bool            \<comment> \<open>the scan loop holds a connection\<close>
  pl_scan :: scan_pc
  pl_stop :: stop_pc
  pl_received :: "event list"

definition release :: "pump_life \<Rightarrow> pump_life" where
  "release s = s\<lparr>pl_conn := False, pl_scan := AtTop\<rparr>"

text \<open>A step of \<open>scanLoop\<close>; whether a connection is had, and the query's failure, are arguments. A send is the step in which a receiver takes the event.\<close>

definition scan_step :: "(bytes \<Rightarrow> configuration res) \<Rightarrow> bool \<Rightarrow> go_error option \<Rightarrow> pump_life \<Rightarrow> pump_life run" where
  "scan_step unmarshal acquired qerr s =
     (case pl_scan s of
        AtStart \<Rightarrow> if pl_startScan s then Done (s\<lparr>pl_scan := AtTop\<rparr>) else Block
      | AtTop \<Rightarrow> Done (s\<lparr>pl_scan := if pl_closeCh s then Ended else AtAcquire\<rparr>)
      | AtAcquire \<Rightarrow>
          if pl_poolClosed s \<or> \<not> acquired then Done (s\<lparr>pl_scan := AtTop\<rparr>) else Done (s\<lparr>pl_conn := True, pl_scan := AtQuery\<rparr>)
      | AtQuery \<Rightarrow>
          (case (case qerr of Some e \<Rightarrow> Inl e | None \<Rightarrow> queryConfigurations unmarshal (pl_updateScanId s) MaxInt64_seq (pl_db s)) of
             Inl e \<Rightarrow> Done (release s)
           | Inr [] \<Rightarrow> Done (release s)
           | Inr (x # xs) \<Rightarrow> Done (s\<lparr>pl_scan := AtSend (map row_event (x # xs)) (fst (last (x # xs)))\<rparr>))
      | AtSend [] m \<Rightarrow> Done (release (s\<lparr>pl_updateScanId := m\<rparr>))
      | AtSend (ev # evs) m \<Rightarrow>
          if pl_eventsClosed s then Panic else Done (s\<lparr>pl_received := pl_received s @ [ev], pl_scan := AtSend evs m\<rparr>)
      | Ended \<Rightarrow> Block)"

text \<open>A step of \<open>Stop\<close>; a second call closes a closed channel.\<close>

definition stop_step :: "pump_life \<Rightarrow> pump_life run" where
  "stop_step s =
     (case pl_stop s of
        Running \<Rightarrow> Done (s\<lparr>pl_poolClosed := True, pl_stop := ClosingPool\<rparr>)
      | ClosingPool \<Rightarrow> if pl_conn s then Block else Done (s\<lparr>pl_stop := PoolClosed\<rparr>)
      | PoolClosed \<Rightarrow> Done (s\<lparr>pl_closeCh := True, pl_stop := LoopClosed\<rparr>)
      | LoopClosed \<Rightarrow> Done (s\<lparr>pl_eventsClosed := True, pl_stop := Stopped\<rparr>)
      | Stopped \<Rightarrow> Panic)"

text \<open>The end of the dump, and \<open>Startup\<close>.\<close>

definition dump_end :: "int \<Rightarrow> pump_life \<Rightarrow> pump_life" where
  "dump_end lastUpdateScanId s = s\<lparr>pl_updateScanId := lastUpdateScanId, pl_startScan := True\<rparr>"

definition pump_Startup :: "cfg_db \<Rightarrow> pump_life" where
  "pump_Startup db = \<lparr>pl_db = db, pl_updateScanId = 0, pl_startScan = False, pl_closeCh = False, pl_eventsClosed = False,
     pl_poolClosed = False, pl_conn = False, pl_scan = AtStart, pl_stop = Running, pl_received = []\<rparr>"

text \<open>The states that come about; the table changes at any time, the dump ends once, and \<open>Stop\<close> is called once.\<close>

inductive pump_reach :: "(bytes \<Rightarrow> configuration res) \<Rightarrow> pump_life \<Rightarrow> bool" for unmarshal where
  startup: "pump_reach unmarshal (pump_Startup db)"
| scan: "pump_reach unmarshal s \<Longrightarrow> scan_step unmarshal acquired qerr s = Done s' \<Longrightarrow> pump_reach unmarshal s'"
| stop: "pump_reach unmarshal s \<Longrightarrow> stop_step s = Done s' \<Longrightarrow> pump_reach unmarshal s'"
| dump: "pump_reach unmarshal s \<Longrightarrow> \<not> pl_startScan s \<Longrightarrow> pump_reach unmarshal (dump_end m s)"
| writers: "pump_reach unmarshal s \<Longrightarrow> pump_reach unmarshal (s\<lparr>pl_db := db\<rparr>)"

section \<open>Stopping\<close>

fun holds_conn :: "scan_pc \<Rightarrow> bool" where
  "holds_conn AtQuery = True"
| "holds_conn (AtSend evs m) = True"
| "holds_conn _ = False"

definition life_inv :: "pump_life \<Rightarrow> bool" where
  "life_inv s \<longleftrightarrow> pl_conn s = holds_conn (pl_scan s) \<and> (pl_poolClosed s \<longleftrightarrow> Running < pl_stop s) \<and>
     (pl_conn s \<longrightarrow> pl_stop s < PoolClosed) \<and> (pl_closeCh s \<longleftrightarrow> LoopClosed \<le> pl_stop s) \<and> (pl_eventsClosed s \<longleftrightarrow> Stopped \<le> pl_stop s) \<and>
     (pl_scan s \<noteq> AtStart \<longrightarrow> pl_startScan s)"

text \<open>\<open>Stop\<close> only goes forward.\<close>

lemma stop_forward: "stop_step s = Done s' \<Longrightarrow> pl_stop s < pl_stop s'"
  by (cases "pl_stop s") (auto simp: stop_step_def stage_order split: if_splits)

lemma life_inv_pc:
  assumes "life_inv s" "pl_scan s \<noteq> AtStart"
    and "pl_conn s' = holds_conn (pl_scan s')" "pl_poolClosed s' = pl_poolClosed s" "pl_stop s' = pl_stop s" "pl_closeCh s' = pl_closeCh s"
    "pl_eventsClosed s' = pl_eventsClosed s" "pl_startScan s' = pl_startScan s"
    and "pl_conn s' \<Longrightarrow> pl_conn s \<or> \<not> pl_poolClosed s"
  shows "life_inv s'"
  using assms unfolding life_inv_def by (cases "pl_stop s") (auto simp: stage_order)

lemma life_inv_scan: "life_inv s \<Longrightarrow> scan_step u acquired qerr s = Done s' \<Longrightarrow> life_inv s'"
proof (cases "pl_scan s")
  case AtStart
  assume "life_inv s" "scan_step u acquired qerr s = Done s'"
  then show ?thesis using AtStart by (auto simp: scan_step_def life_inv_def split: if_splits)
next
  case AtQuery
  assume i: "life_inv s" and st: "scan_step u acquired qerr s = Done s'"
  let ?q = "case qerr of Some e \<Rightarrow> Inl e | None \<Rightarrow> queryConfigurations u (pl_updateScanId s) MaxInt64_seq (pl_db s)"
  have c: "pl_conn s" using i AtQuery by (simp add: life_inv_def)
  have "s' = release s \<or> (\<exists>evs m. s' = s\<lparr>pl_scan := AtSend evs m\<rparr>)"
    using st unfolding scan_step_def AtQuery scan_pc.case by (cases ?q) (auto split: list.splits)
  then show ?thesis using AtQuery c by (intro life_inv_pc [OF i]) (auto simp: release_def)
next
  case (AtSend evs m)
  assume i: "life_inv s" and st: "scan_step u acquired qerr s = Done s'"
  have c: "pl_conn s" using i AtSend by (simp add: life_inv_def)
  show ?thesis using st AtSend c
    by (cases evs; intro life_inv_pc [OF i]) (auto simp: scan_step_def release_def split: if_splits)
next
  case AtAcquire
  assume i: "life_inv s" and st: "scan_step u acquired qerr s = Done s'"
  then show ?thesis using AtAcquire
    by (intro life_inv_pc [OF i]) (auto simp: scan_step_def life_inv_def split: if_splits)
next
  case AtTop
  assume i: "life_inv s" and st: "scan_step u acquired qerr s = Done s'"
  then show ?thesis using AtTop
    by (intro life_inv_pc [OF i]) (auto simp: scan_step_def life_inv_def split: if_splits)
qed (simp add: scan_step_def)

lemma life_inv_stop: "life_inv s \<Longrightarrow> stop_step s = Done s' \<Longrightarrow> life_inv s'"
  by (cases "pl_stop s") (auto simp: stop_step_def life_inv_def stage_order split: if_splits)

lemma reach_inv: "pump_reach u s \<Longrightarrow> life_inv s"
proof (induction rule: pump_reach.induct)
  case (startup db)
  show ?case by (simp add: life_inv_def pump_Startup_def stage_order)
next
  case (dump s m)
  then show ?case by (auto simp: life_inv_def dump_end_def)
next
  case (writers s db)
  then show ?case by (auto simp: life_inv_def)
qed (use life_inv_scan life_inv_stop in blast)+

lemma scan_ends:
  assumes "life_inv s" "pl_stop s = Stopped" "pl_scan s \<noteq> AtStart"
  shows "\<exists>s'. run_fold (\<lambda>_ s. if pl_scan s = Ended then Done s else scan_step u acquired qerr s) [0, 1 :: nat] s = Done s' \<and>
    pl_scan s' = Ended \<and> pl_received s' = pl_received s"
  using assms by (cases "pl_scan s") (auto simp: scan_step_def life_inv_def stage_order)

text \<open>C13. Stopping the pump is clean at any moment: whatever the scan loop is doing when \<open>Stop\<close> is called, it never sends on the
  closed channel, because the pool's \<open>Close\<close> waits for its connection; and once \<open>Stop\<close> has returned, a loop that had been started
  ends within two steps, whatever the pool and the database answer, and delivers nothing more.\<close>

theorem pump_stops_cleanly:
  assumes "pump_reach unmarshal s"
  shows "scan_step unmarshal acquired qerr s \<noteq> Panic \<and>
    (pl_stop s = Stopped \<and> pl_scan s \<noteq> AtStart \<longrightarrow>
      (\<exists>s'. run_fold (\<lambda>_ s. if pl_scan s = Ended then Done s else scan_step unmarshal acquired qerr s) [0, 1 :: nat] s = Done s' \<and>
         pl_scan s' = Ended \<and> pl_received s' = pl_received s))"
proof -
  have inv: "life_inv s" by (rule reach_inv [OF assms])
  then have "scan_step unmarshal acquired qerr s \<noteq> Panic"
    by (cases "pl_scan s") (auto simp: scan_step_def life_inv_def stage_order split: list.splits sum.splits option.splits)
  then show ?thesis using scan_ends [OF inv] by blast
qed

section \<open>A round\<close>

text \<open>The steps of an undisturbed round are the turn of the loop that the rest of the development uses.\<close>

fun scan_run :: "(bytes \<Rightarrow> configuration res) \<Rightarrow> nat \<Rightarrow> pump_life \<Rightarrow> pump_life run" where
  "scan_run unmarshal 0 s = Done s"
| "scan_run unmarshal (Suc n) s = run_bind (scan_step unmarshal True None s) (scan_run unmarshal n)"

lemma send_all:
  "pl_scan s = AtSend evs m \<Longrightarrow> \<not> pl_eventsClosed s \<Longrightarrow>
   scan_run u (Suc (length evs)) s =
     Done (s\<lparr>pl_received := pl_received s @ evs, pl_updateScanId := m, pl_conn := False, pl_scan := AtTop\<rparr>)"
proof (induction evs arbitrary: s)
  case (Cons ev evs)
  let ?s = "s\<lparr>pl_received := pl_received s @ [ev], pl_scan := AtSend evs m\<rparr>"
  have "scan_run u (Suc (length evs)) ?s = Done (?s\<lparr>pl_received := pl_received ?s @ evs, pl_updateScanId := m, pl_conn := False, pl_scan := AtTop\<rparr>)"
    by (rule Cons.IH) (use Cons.prems in simp_all)
  moreover have "scan_step u True None s = Done ?s" using Cons.prems by (simp add: scan_step_def)
  ultimately show ?case by simp
qed (simp add: scan_step_def release_def)

text \<open>A round of the loop is one scan: undisturbed, it delivers the events of the rows beyond the mark in their order, and only then
  moves the mark, as the atomic turn does.\<close>

theorem round_is_scan:
  assumes "pl_scan s = AtTop" "pl_stop s = Running" "pump_reach unmarshal s"
    and "scan_turn unmarshal (pl_updateScanId s) (pl_db s) = (evs, m, again)"
  shows "\<exists>n s'. scan_run unmarshal n s = Done s' \<and> pl_scan s' = AtTop \<and> pl_received s' = pl_received s @ evs \<and>
    pl_updateScanId s' = m \<and> \<not> pl_conn s'"
proof -
  have inv: "\<not> pl_closeCh s" "\<not> pl_eventsClosed s" "\<not> pl_conn s" "\<not> pl_poolClosed s"
    using reach_inv [OF assms(3)] assms(1,2) by (simp_all add: life_inv_def stage_order)
  let ?q = "s\<lparr>pl_conn := True, pl_scan := AtQuery\<rparr>"
  have q: "scan_run unmarshal (Suc (Suc n)) s = scan_run unmarshal n ?q" for n
    using assms(1) inv by (simp add: scan_step_def)
  consider (none) "(\<exists>e. queryConfigurations unmarshal (pl_updateScanId s) MaxInt64_seq (pl_db s) = Inl e) \<or>
      queryConfigurations unmarshal (pl_updateScanId s) MaxInt64_seq (pl_db s) = Inr []" "evs = []" "m = pl_updateScanId s"
    | (some) x xs where "queryConfigurations unmarshal (pl_updateScanId s) MaxInt64_seq (pl_db s) = Inr (x # xs)"
      "evs = map row_event (x # xs)" "m = fst (last (x # xs))"
    using assms(4) unfolding scan_turn_def
    by (cases "queryConfigurations unmarshal (pl_updateScanId s) MaxInt64_seq (pl_db s)")
      (simp_all del: last.simps list.map split: list.splits)
  then show ?thesis
  proof cases
    case none
    then have "scan_step unmarshal True None ?q = Done (release ?q)" by (auto simp: scan_step_def)
    then have "scan_run unmarshal (Suc (Suc (Suc 0))) s = Done (release ?q)" unfolding q by simp
    then show ?thesis using none by (intro exI [of _ "Suc (Suc (Suc 0))"] exI [of _ "release ?q"]) (simp add: release_def)
  next
    case some
    let ?r = "?q\<lparr>pl_scan := AtSend evs m\<rparr>"
    have "scan_step unmarshal True None ?q = Done ?r" using some by (simp add: scan_step_def del: last.simps list.map)
    then have "scan_run unmarshal (Suc (Suc (Suc (Suc (length evs))))) s = scan_run unmarshal (Suc (length evs)) ?r"
      unfolding q by simp
    also have "\<dots> = Done (?r\<lparr>pl_received := pl_received ?r @ evs, pl_updateScanId := m, pl_conn := False, pl_scan := AtTop\<rparr>)"
      by (rule send_all) (use inv in simp_all)
    finally have r: "scan_run unmarshal (Suc (Suc (Suc (Suc (length evs))))) s =
        Done (?r\<lparr>pl_received := pl_received ?r @ evs, pl_updateScanId := m, pl_conn := False, pl_scan := AtTop\<rparr>)" .
    show ?thesis by (intro exI conjI, rule r) simp_all
  qed
qed

section \<open>An example\<close>

text \<open>One row.\<close>

definition life_cfg :: configuration where
  "life_cfg = configuration_zero\<lparr>cfg_Group := ''g'', cfg_Key := ''k''\<rparr>"

definition life_unmarshal :: "bytes \<Rightarrow> configuration res" where
  "life_unmarshal bs = Inr life_cfg"

definition life_db :: cfg_db where
  "life_db = empty_db\<lparr>db_rows := [\<lparr>cr_id = 1, cr_sel = ''dc=1'', cr_opt = [], cr_group = ''g'', cr_key = ''k'', cr_version = ''1'',
     cr_status = 0, cr_raw = [], cr_created = 0, cr_updated = 0, cr_seq = 1\<rparr>]\<rparr>"

definition life_event :: event where
  "life_event = \<lparr>ev_Configuration = Some life_cfg, ev_Created = True, ev_Modified = False, ev_Deleted = False\<rparr>"

definition life_top :: pump_life where
  "life_top = (dump_end 0 (pump_Startup life_db))\<lparr>pl_scan := AtTop\<rparr>"

lemma life_query: "queryConfigurations life_unmarshal 0 MaxInt64_seq life_db = Inr [(1, 0, life_cfg)]"
  by (simp add: queryConfigurations_def page_def life_db_def empty_db_def MaxInt64_seq_def maxRowPerQuery_def life_unmarshal_def)

lemma life_top_reach: "pump_reach life_unmarshal life_top"
proof -
  have "pump_reach life_unmarshal (dump_end 0 (pump_Startup life_db))"
    by (rule pump_reach.dump [OF pump_reach.startup]) (simp add: pump_Startup_def)
  then show ?thesis by (rule pump_reach.scan) (simp add: scan_step_def dump_end_def pump_Startup_def life_top_def)
qed

text \<open>\<open>Stop\<close> is called while the loop is sending.\<close>

theorem pump_stops_cleanly_witness:
  "\<exists>s. pump_reach life_unmarshal s \<and> pl_stop s = Stopped \<and> pl_scan s = AtTop \<and> pl_received s = [life_event] \<and>
    (\<exists>s'. run_fold (\<lambda>_ s. if pl_scan s = Ended then Done s else scan_step life_unmarshal True None s) [0, 1 :: nat] s = Done s' \<and>
       pl_scan s' = Ended \<and> pl_received s' = [life_event])"
proof -
  note defs = life_top_def dump_end_def pump_Startup_def
  let ?s1 = "life_top\<lparr>pl_scan := AtAcquire\<rparr>"
  let ?s2 = "life_top\<lparr>pl_conn := True, pl_scan := AtQuery\<rparr>"
  let ?s3 = "life_top\<lparr>pl_conn := True, pl_scan := AtSend [life_event] 1\<rparr>"
  let ?s4 = "?s3\<lparr>pl_poolClosed := True, pl_stop := ClosingPool\<rparr>"
  let ?s5 = "?s4\<lparr>pl_received := [life_event], pl_scan := AtSend [] 1\<rparr>"
  let ?s6 = "?s5\<lparr>pl_updateScanId := 1, pl_conn := False, pl_scan := AtTop\<rparr>"
  let ?s7 = "?s6\<lparr>pl_stop := PoolClosed\<rparr>"
  let ?s8 = "?s6\<lparr>pl_closeCh := True, pl_stop := LoopClosed\<rparr>"
  let ?s9 = "?s6\<lparr>pl_closeCh := True, pl_eventsClosed := True, pl_stop := Stopped\<rparr>"
  have "pump_reach life_unmarshal ?s1" by (rule pump_reach.scan [OF life_top_reach]) (simp add: scan_step_def defs)
  then have "pump_reach life_unmarshal ?s2" by (rule pump_reach.scan [where acquired = True]) (simp add: scan_step_def defs)
  then have "pump_reach life_unmarshal ?s3"
    by (rule pump_reach.scan [where qerr = None]) (simp add: scan_step_def defs life_query life_event_def)
  then have "pump_reach life_unmarshal ?s4" by (rule pump_reach.stop) (simp add: stop_step_def defs)
  then have "pump_reach life_unmarshal ?s5" by (rule pump_reach.scan) (simp add: scan_step_def defs)
  then have "pump_reach life_unmarshal ?s6" by (rule pump_reach.scan) (simp add: scan_step_def release_def)
  then have "pump_reach life_unmarshal ?s7" by (rule pump_reach.stop) (simp add: stop_step_def)
  then have "pump_reach life_unmarshal ?s8" by (rule pump_reach.stop) (simp add: stop_step_def)
  then have r: "pump_reach life_unmarshal ?s9" by (rule pump_reach.stop) (simp add: stop_step_def)
  have st: "pl_stop ?s9 = Stopped" "pl_scan ?s9 = AtTop" "pl_received ?s9 = [life_event]" by simp_all
  then have "\<exists>s'. run_fold (\<lambda>_ s. if pl_scan s = Ended then Done s else scan_step life_unmarshal True None s) [0, 1 :: nat] ?s9 = Done s' \<and>
       pl_scan s' = Ended \<and> pl_received s' = [life_event]"
    using pump_stops_cleanly [OF r, of True None] by (metis scan_pc.distinct(1))
  then show ?thesis using r st by blast
qed

theorem round_is_scan_witness:
  "\<exists>n s'. scan_run life_unmarshal n life_top = Done s' \<and> pl_scan s' = AtTop \<and> pl_received s' = [life_event] \<and>
    pl_updateScanId s' = 1 \<and> \<not> pl_conn s'"
proof -
  have t: "pl_scan life_top = AtTop" "pl_stop life_top = Running" "pl_received life_top = []" "pl_updateScanId life_top = 0" "pl_db life_top = life_db"
    by (simp_all add: life_top_def dump_end_def pump_Startup_def)
  have "scan_turn life_unmarshal 0 life_db = ([life_event], 1, True)"
    by (simp add: scan_turn_def life_query life_event_def)
  from round_is_scan [OF t(1,2) life_top_reach, unfolded t(3-5), OF this] show ?thesis by simp
qed

end
