(* ===== verification/Wal.thy ===== *)
theory Wal
  imports GoScan
begin

text \<open>
  The write-ahead log (\<open>db/alpha/replication/wal.go\<close>, \<open>model.go\<close>): positions, entries, the
  recovery of the last position from a file, start-up, and writes. The file system
  (\<open>afero.Fs\<close>) is a parameter: a record of its operations on a state of its own.
\<close>

section \<open>Positions\<close>

type_synonym Position = "int64 \<times> int64"

definition MaxInt64 :: int64 where
  "MaxInt64 = 0x7fffffffffffffff"

definition ToBytes :: "Position \<Rightarrow> bytes" where
  "ToBytes p = put_be 8 (unat (fst p AND MaxInt64)) @ put_be 8 (unat (snd p AND MaxInt64))"

definition FromBytes :: "bytes \<Rightarrow> Position res" where
  "FromBytes data =
     (if length data \<noteq> 16 then Inl (Errorf ''invalid data length'')
      else Inr (word_of_nat (be_nat (take 8 data)) AND MaxInt64,
                word_of_nat (be_nat (drop 8 data)) AND MaxInt64))"

definition FirstToHexString :: "Position \<Rightarrow> string" where
  "FirstToHexString p = hex_encode (take 8 (ToBytes p))"

definition LastToHexString :: "Position \<Rightarrow> string" where
  "LastToHexString p = hex_encode (drop 8 (ToBytes p))"

section \<open>Entries\<close>

definition headerSize :: nat where
  "headerSize = 16 + 4 + 4 + 8"

text \<open>\<open>hash/adler32\<close>.\<close>

definition adler32 :: "bytes \<Rightarrow> nat" where
  "adler32 bs =
     (let (a, b) = fold (\<lambda>x (a, b). let a' = (a + unat x) mod 65521 in (a', (b + a') mod 65521)) bs (1, 0)
      in b * 65536 + a)"

text \<open>The entry without its position; the size is cut to 32 bits, as the conversion does.\<close>

definition prepareWriteEntry :: "bytes \<Rightarrow> bytes" where
  "prepareWriteEntry data =
     replicate 16 0 @ put_be 4 (length data mod 2 ^ 32) @ put_be 4 (adler32 data) @ replicate 8 0 @ data"

section \<open>The log\<close>

text \<open>The operations of the file system: directory entries with a directory flag, opening for append, reading, appending.\<close>

record 'f walfs =
  fs_ReadDir :: "'f \<Rightarrow> (string \<times> bool) list res"
  fs_OpenFile :: "string \<Rightarrow> 'f \<Rightarrow> unit res \<times> 'f"
  fs_Open :: "string \<Rightarrow> 'f \<Rightarrow> bytes res"
  fs_Append :: "string \<Rightarrow> bytes \<Rightarrow> 'f \<Rightarrow> unit res \<times> 'f"

record Wal =
  currentPosition :: Position
  openFile :: "string option"

definition startingPosition :: Position where
  "startingPosition = (1, 0)"

definition NewWal :: Wal where
  "NewWal = \<lparr>currentPosition = startingPosition, openFile = None\<rparr>"

definition nextPos :: "Wal \<Rightarrow> Position" where
  "nextPos w = (fst (currentPosition w), snd (currentPosition w) + 1)"

definition commitPos :: "Position \<Rightarrow> Wal \<Rightarrow> Wal" where
  "commitPos p w = w\<lparr>currentPosition := p\<rparr>"

text \<open>\<open>doWrite\<close>: the position is copied over the first 16 bytes; it is committed after the write.\<close>

definition doWrite :: "'f walfs \<Rightarrow> bytes \<Rightarrow> Wal \<Rightarrow> 'f \<Rightarrow> (Position res \<times> Wal \<times> 'f) run" where
  "doWrite fs data w f =
     (let newPos = nextPos w;
          data = take 16 (ToBytes newPos) @ drop 16 data
      in case openFile w of
           None \<Rightarrow> Panic
         | Some name \<Rightarrow>
             (case fs_Append fs name data f of
                (Inl e, f) \<Rightarrow> Done (Inl e, w, f)
              | (Inr _, f) \<Rightarrow> Done (Inr newPos, commitPos newPos w, f)))"

text \<open>\<open>Write\<close>, with the turn of \<open>WriteLoop\<close> that serves it; any error becomes code 1.\<close>

definition Write :: "'f walfs \<Rightarrow> bytes \<Rightarrow> Wal \<Rightarrow> 'f \<Rightarrow> (Position res \<times> Wal \<times> 'f) run" where
  "Write fs data w f =
     run_bind (doWrite fs (prepareWriteEntry data) w f) (\<lambda>(r, w, f).
       Done (case r of Inl e \<Rightarrow> Inl (Errorf ''write error: 1'') | Inr pos \<Rightarrow> Inr pos, w, f))"

definition CurrentPosition :: "Wal \<Rightarrow> Position" where
  "CurrentPosition w = currentPosition w"

section \<open>File names\<close>

fun show_hex :: "nat \<Rightarrow> string" where
  "show_hex n = (if n < 16 then [hex_digit n] else show_hex (n div 16) @ [hex_digit (n mod 16)])"

declare show_hex.simps [simp del]

definition pad0 :: "nat \<Rightarrow> string \<Rightarrow> string" where
  "pad0 k s = replicate (k - length s) CHR ''0'' @ s"

text \<open>\<open>fmt.Sprintf("wal_%016x.log", idx)\<close>; the sign of a negative index takes one place.\<close>

definition wal_name :: "int64 \<Rightarrow> string" where
  "wal_name idx =
     ''wal_'' @ (if 0 \<le> sint idx then pad0 16 (show_hex (nat (sint idx)))
               else CHR ''-'' # pad0 15 (show_hex (nat (- sint idx)))) @ ''.log''"

definition fileNameLength :: nat where
  "fileNameLength = length ''wal_0000000000000001.log''"

text \<open>
  \<open>fmt.Sscanf(name, "wal_%016x.log", &idx)\<close>: the literal, blanks, then a sign and hexadecimal
  digits in at most 16 places, then the literal; what follows it is not looked at.
\<close>

fun scan_literal :: "string \<Rightarrow> string \<Rightarrow> string res" where
  "scan_literal [] s = Inr s"
| "scan_literal (c # cs) [] = Inl ErrUnexpectedEOF"
| "scan_literal (c # cs) (x # s) =
     (if x = c then scan_literal cs s else Inl (Errorf ''input does not match format''))"

definition hex_acc :: "string \<Rightarrow> nat" where
  "hex_acc ds = foldl (\<lambda>a c. a * 16 + the (hex_value c)) 0 ds"

definition is_hex :: "char \<Rightarrow> bool" where
  "is_hex c \<longleftrightarrow> hex_value c \<noteq> None"

definition scan_x16 :: "string \<Rightarrow> (int64 \<times> string) res" where
  "scan_x16 s0 = res_bind (SkipSpace s0) (\<lambda>s.
     if s = [] then Inl ErrUnexpectedEOF
     else let sign = (if hd s = CHR ''-'' \<or> hd s = CHR ''+'' then [hd s] else []);
              ds = takeWhile is_hex (take (16 - length sign) (drop (length sign) s));
              v = (if sign = ''-'' then - int (hex_acc ds) else int (hex_acc ds))
          in if ds = [] then Inl (Errorf ''expected integer'')
             else if in_int64 v then Inr (word_of_int v, drop (length sign + length ds) s)
             else Inl ErrRange)"

definition Sscanf_wal :: "string \<Rightarrow> int64 res" where
  "Sscanf_wal k =
     res_bind (scan_literal ''wal_'' k) (\<lambda>s.
     res_bind (scan_x16 s) (\<lambda>(idx, s).
     res_bind (scan_literal ''.log'' s) (\<lambda>_. Inr idx)))"

section \<open>Start-up\<close>

text \<open>
  \<open>walFileReader.readLastPos\<close> on the bytes left in the file: \<open>io.ReadFull\<close> of the header
  reports \<open>io.EOF\<close> only when nothing is left; after a partial read the loop goes on with a
  header whose tail is the previous one.
\<close>

function readLastPos :: "int64 \<Rightarrow> bytes \<Rightarrow> bytes \<Rightarrow> Position \<Rightarrow> Position res" where
  "readLastPos idx header r pos =
     (if r = [] then Inr (idx, snd pos)
      else
        let n = min headerSize (length r);
            header = take n r @ drop n header;
            r = drop n r;
            size = be_nat (take 4 (drop 16 header))
        in if length r < size then Inl (if r = [] then Sentinel ''io.EOF'' else ErrUnexpectedEOF)
           else readLastPos idx header (drop size r)
                  (idx, word_of_nat (be_nat (take 8 (drop 8 header))) AND MaxInt64))"
  by pat_completeness auto
termination
proof (relation "measure (\<lambda>(idx, h, r, pos). length r)")
  fix idx :: int64 and header r :: bytes and pos :: Position and n h r' sz
  assume r: "r \<noteq> []" and n: "n = min headerSize (length r)" and r': "r' = drop n r"
  have "0 < n" using r n by (simp add: headerSize_def)
  then have "length (drop sz r') < length r" using r r' by (simp add: less_diff_conv)
  then show "((idx, h, drop sz r', idx, word_of_nat (be_nat (take 8 (drop 8 h))) AND MaxInt64), (idx, header, r, pos))
      \<in> measure (\<lambda>(idx, h, r, pos). length r)" by simp
qed simp

declare readLastPos.simps [simp del]

definition read_file_pos :: "int64 \<Rightarrow> bytes \<Rightarrow> Position res" where
  "read_file_pos idx content = readLastPos idx (replicate headerSize 0) content (idx, 0)"

fun ascending :: "(string \<times> int64) list \<Rightarrow> bool" where
  "ascending (a # b # fs) \<longleftrightarrow> snd b - snd a = 1 \<and> ascending (b # fs)"
| "ascending _ \<longleftrightarrow> True"

definition wal_files :: "(string \<times> bool) list \<Rightarrow> (string \<times> int64) list" where
  "wal_files files =
     concat (map (\<lambda>k. case Sscanf_wal k of Inl e \<Rightarrow> [] | Inr idx \<Rightarrow> [(k, idx)])
       (sort (remdups (map fst (filter (\<lambda>(name, isdir). \<not> isdir \<and> length name = fileNameLength) files)))))"

definition readAndCheckExistingFile :: "'f walfs \<Rightarrow> 'f \<Rightarrow> Wal \<Rightarrow> (unit res \<times> Wal) run" where
  "readAndCheckExistingFile fs f w =
     (case fs_ReadDir fs f of
        Inl e \<Rightarrow> Done (Inl e, w)
      | Inr files \<Rightarrow>
          if filter (\<lambda>(name, isdir). \<not> isdir \<and> length name = fileNameLength) files = [] then Done (Inr (), w)
          else if \<not> ascending (wal_files files)
            then Done (Inl (Errorf ''wal file names are not continuous''), w)
          else if wal_files files = [] then Panic
          else
            (let l = last (wal_files files) in
             case fs_Open fs (fst l) f of
               Inl e \<Rightarrow> Done (Inl e, w)
             | Inr content \<Rightarrow>
                 (case read_file_pos (snd l) content of
                    Inl e \<Rightarrow> Done (Inl e, w)
                  | Inr pos \<Rightarrow> Done (Inr (), w\<lparr>currentPosition := pos\<rparr>))))"

definition initializeFile :: "'f walfs \<Rightarrow> Wal \<Rightarrow> 'f \<Rightarrow> unit res \<times> Wal \<times> 'f" where
  "initializeFile fs w f =
     (let name = wal_name (fst (currentPosition w)) in
      case fs_OpenFile fs name f of
        (Inl e, f) \<Rightarrow> (Inl e, w, f)
      | (Inr _, f) \<Rightarrow> (Inr (), w\<lparr>openFile := Some name\<rparr>, f))"

definition Wal_Startup :: "'f walfs \<Rightarrow> Wal \<Rightarrow> 'f \<Rightarrow> (unit res \<times> Wal \<times> 'f) run" where
  "Wal_Startup fs w f =
     run_bind (readAndCheckExistingFile fs f w) (\<lambda>(r, w).
       case r of
         Inl e \<Rightarrow> Done (Inl e, w, f)
       | Inr _ \<Rightarrow> Done (initializeFile fs w f))"

text \<open>A sequence of writes: their results.\<close>

fun write_all :: "'f walfs \<Rightarrow> bytes list \<Rightarrow> Wal \<Rightarrow> 'f \<Rightarrow> (Position res list \<times> Wal \<times> 'f) run" where
  "write_all fs [] w f = Done ([], w, f)"
| "write_all fs (d # ds) w f =
     run_bind (Write fs d w f) (\<lambda>(r, w, f).
     run_bind (write_all fs ds w f) (\<lambda>(rs, w, f). Done (r # rs, w, f)))"

section \<open>Lemmas\<close>

lemma length_ToBytes [simp]: "length (ToBytes p) = 16"
  by (simp add: ToBytes_def del: put_be.simps)

lemma mask63: "MaxInt64 = mask 63"
  by (simp add: MaxInt64_def mask_eq_exp_minus_1)

lemma ToBytes_parts: "take 8 (ToBytes p) = put_be 8 (unat (fst p AND MaxInt64))"
  "drop 8 (ToBytes p) = put_be 8 (unat (snd p AND MaxInt64))"
  by (simp_all add: ToBytes_def del: put_be.simps)

lemma be_nat_word: "word_of_nat (be_nat (put_be 8 (unat (w :: int64)))) = w"
proof -
  have "unat w < 256 ^ 8" using unsigned_less [of w] by simp
  then show ?thesis by (simp del: put_be.simps)
qed

text \<open>The entry of position \<open>p\<close>, as \<open>doWrite\<close> appends it.\<close>

definition entry :: "Position \<Rightarrow> bytes \<Rightarrow> bytes" where
  "entry p d = take 16 (ToBytes p) @ drop 16 (prepareWriteEntry d)"

fun entries :: "int64 \<Rightarrow> int64 \<Rightarrow> bytes list \<Rightarrow> bytes" where
  "entries idx n [] = []"
| "entries idx n (d # ds) = entry (idx, n + 1) d @ entries idx (n + 1) ds"

lemma entry_eq:
  "entry p d = ToBytes p @ put_be 4 (length d mod 2 ^ 32) @ put_be 4 (adler32 d) @ replicate 8 0 @ d"
  by (simp add: entry_def prepareWriteEntry_def del: put_be.simps)

lemma readLastPos_step:
  assumes "length header = headerSize" "length h = headerSize" "length d = be_nat (take 4 (drop 16 h))"
    "p = word_of_nat (be_nat (take 8 (drop 8 h))) AND MaxInt64"
  shows "readLastPos idx header (h @ d @ rest) pos = readLastPos idx h rest (idx, p)"
proof -
  have "h \<noteq> []" using assms(2) by (auto simp: headerSize_def)
  moreover have "min headerSize (length (h @ d @ rest)) = length h" using assms(2) by simp
  moreover have "drop (length h) header = []" using assms(1,2) by simp
  ultimately show ?thesis using assms(3-4)
    by (subst readLastPos.simps) (simp add: Let_def)
qed

lemma readLastPos_entry:
  assumes "length d < 2 ^ 32" "length header = headerSize"
  shows "\<exists>header'. length header' = headerSize \<and> readLastPos idx header (entry p d @ rest) pos = readLastPos idx header' rest (idx, snd p AND MaxInt64)"
proof -
  define h where "h = ToBytes p @ put_be 4 (length d) @ put_be 4 (adler32 d) @ replicate 8 0"
  have e: "entry p d = h @ d" using assms(1) by (simp add: entry_eq h_def del: put_be.simps)
  have lh: "length h = headerSize" by (simp add: h_def headerSize_def del: put_be.simps)
  have d16: "take 4 (drop 16 h) = put_be 4 (length d)" by (simp add: h_def del: put_be.simps)
  have size: "length d = be_nat (take 4 (drop 16 h))" using assms(1) unfolding d16 by (simp del: put_be.simps)
  have d8: "take 8 (drop 8 h) = put_be 8 (unat (snd p AND MaxInt64))"
    by (simp add: h_def ToBytes_def del: put_be.simps)
  have pos: "snd p AND MaxInt64 = word_of_nat (be_nat (take 8 (drop 8 h))) AND MaxInt64"
    unfolding d8 be_nat_word by (simp add: and.assoc)
  from readLastPos_step [OF assms(2) lh size pos] lh show ?thesis unfolding e append_assoc by blast
qed

lemma readLastPos_Nil: "readLastPos idx header [] pos = Inr (idx, snd pos)"
  by (subst readLastPos.simps) simp

lemma read_entries:
  assumes "\<forall>d \<in> set ds. length d < 2 ^ 32" "length header = headerSize"
  shows "\<exists>header' pos'. length header' = headerSize \<and>
    readLastPos idx header (entries idx n ds @ rest) pos = readLastPos idx header' rest pos' \<and>
    snd pos' = (if ds = [] then snd pos else (n + word_of_nat (length ds)) AND MaxInt64)"
  using assms
proof (induction ds arbitrary: n header pos)
  case Nil
  then show ?case by (intro exI [of _ header] exI [of _ pos]) simp
next
  case (Cons d ds)
  have d: "length d < 2 ^ 32" using Cons.prems(1) by simp
  obtain h1 where h1: "length h1 = headerSize" "readLastPos idx header (entry (idx, n + 1) d @ entries idx (n + 1) ds @ rest) pos =
      readLastPos idx h1 (entries idx (n + 1) ds @ rest) (idx, (n + 1) AND MaxInt64)"
    using readLastPos_entry [OF d Cons.prems(2), of idx "(idx, n + 1)" "entries idx (n + 1) ds @ rest" pos]
    unfolding snd_conv by blast
  obtain h2 p2 where h2: "length h2 = headerSize" "readLastPos idx h1 (entries idx (n + 1) ds @ rest) (idx, (n + 1) AND MaxInt64) = readLastPos idx h2 rest p2"
    "snd p2 = (if ds = [] then (n + 1) AND MaxInt64 else (n + 1 + word_of_nat (length ds)) AND MaxInt64)"
    using Cons.IH [OF _ h1(1), of "n + 1" "(idx, (n + 1) AND MaxInt64)"] Cons.prems(1)
    unfolding snd_conv by (meson list.set_intros(2))
  have "snd p2 = (n + word_of_nat (length (d # ds))) AND MaxInt64"
    unfolding h2(3) by (simp add: algebra_simps)
  with h1 h2 show ?case by (intro exI [of _ h2] exI [of _ p2]) simp
qed

text \<open>A file that is a parameter: names other than the log's do not matter.\<close>

lemma write_all_entries:
  assumes app: "\<And>bs f. fst (fs_Append fs name bs f) = Inr () \<and>
      fs_Open fs name (snd (fs_Append fs name bs f)) = map_sum id (\<lambda>c. c @ bs) (fs_Open fs name f)"
    and "openFile w = Some name" and "currentPosition w = (i, n)" and "fs_Open fs name f = Inr content"
  shows "\<exists>w' f'. write_all fs ds w f = Done (map (\<lambda>j. Inr (i, n + word_of_nat (Suc j))) [0..<length ds], w', f') \<and>
    fs_Open fs name f' = Inr (content @ entries i n ds)"
  using assms(2-4)
proof (induction ds arbitrary: w f n content)
  case (Cons d ds)
  let ?w = "w\<lparr>currentPosition := (i, n + 1)\<rparr>"
  obtain f1 where a: "fs_Append fs name (entry (i, n + 1) d) f = (Inr (), f1)"
    using app [of "entry (i, n + 1) d" f] by (metis prod.collapse)
  then have w: "Write fs d w f = Done (Inr (i, n + 1), ?w, f1)"
    using Cons.prems by (simp add: Write_def doWrite_def nextPos_def commitPos_def entry_def Let_def)
  have "fs_Open fs name f1 = Inr (content @ entry (i, n + 1) d)"
    using app [of "entry (i, n + 1) d" f] Cons.prems(3) by (simp add: a)
  from Cons.IH [OF _ _ this, of ?w "n + 1"] Cons.prems(1) obtain w' f' where r: "write_all fs ds ?w f1 =
      Done (map (\<lambda>j. Inr (i, n + 1 + word_of_nat (Suc j))) [0..<length ds], w', f')"
    "fs_Open fs name f' = Inr ((content @ entry (i, n + 1) d) @ entries i (n + 1) ds)"
    by auto
  have "map (\<lambda>j. Inr (i, n + word_of_nat (Suc j)) :: Position res) [0..<length (d # ds)] =
      Inr (i, n + 1) # map (\<lambda>j. Inr (i, n + 1 + word_of_nat (Suc j))) [0..<length ds]"
    by (simp add: upt_conv_Cons map_Suc_upt [symmetric] o_def algebra_simps del: upt_Suc)
  with w r show ?case by (intro exI [of _ w'] exI [of _ f']) simp
qed simp

section \<open>Properties\<close>

text \<open>What was written is where the log resumes: reading back a file to which the entries of the
  data \<open>ds\<close> were written from position \<open>(idx, n)\<close> on gives the position of the last entry,
  \<open>(idx, n + length ds)\<close>, whatever the data (of less than 4 GB each, while the positions stay
  below the limit of 63 bits).\<close>

theorem read_file_pos_entries:
  assumes "\<forall>d \<in> set ds. length d < 2 ^ 32" "ds \<noteq> []" "(n + word_of_nat (length ds)) AND MaxInt64 = n + word_of_nat (length ds)"
  shows "read_file_pos idx (entries idx n ds) = Inr (idx, n + word_of_nat (length ds))"
  using read_entries [OF assms(1), of "replicate headerSize 0" idx n "[]" "(idx, 0)"] assms(2,3)
  by (auto simp: read_file_pos_def readLastPos_Nil)

theorem read_file_pos_entries_witness:
  "read_file_pos 1 (entries 1 4 [[7, 8], []]) = Inr (1, 6)"
  using read_file_pos_entries [of "[[7, 8], []]" 4 1] by (simp add: MaxInt64_def)

lemma SkipSpace_zero: "SkipSpace (CHR ''0'' # s) = Inr (CHR ''0'' # s)"
  by (rule SkipSpace_plain) (simp_all add: plain_char_def)

lemma Sscanf_wal_one: "Sscanf_wal ''wal_0000000000000001.log'' = Inr 1"
  by (simp add: Sscanf_wal_def scan_x16_def SkipSpace_zero is_hex_def hex_value_def hex_acc_def in_int64_def
      eval_nat_numeral)

lemma wal_name_one: "wal_name 1 = ''wal_0000000000000001.log''"
  by code_simp

lemma entries_append:
  "entries idx n (a @ b) = entries idx n a @ entries idx (n + word_of_nat (length a)) b"
  by (induction a arbitrary: n) (simp_all add: algebra_simps)

lemma read_old:
  assumes "\<forall>d \<in> set old. length d < 2 ^ 32" "length old < 2 ^ 63"
  shows "read_file_pos 1 (entries 1 0 old) = Inr (1, word_of_nat (length old))"
proof -
  have "(word_of_nat (length old) :: int64) AND MaxInt64 = word_of_nat (length old)"
    using assms(2) unfolding mask63 take_bit_eq_mask [symmetric]
    by (simp add: take_bit_of_nat take_bit_nat_eq_self)
  then show ?thesis
    using read_entries [OF assms(1), of "replicate headerSize 0" 1 0 "[]" "(1, 0)"]
    by (auto simp: read_file_pos_def readLastPos_Nil split: if_splits)
qed

text \<open>C24. The whole life of a log file: after a restart on a directory whose one log file holds what
  was written before, every write gets the next position, without a gap or a repetition, and
  the file holds the old entries followed by the new ones. The file system is assumed to
  append what it is given and to open the existing file unchanged.\<close>

theorem restart_continues:
  assumes dir: "fs_ReadDir fs f = Inr [(''wal_0000000000000001.log'', False)]"
    and cont: "fs_Open fs ''wal_0000000000000001.log'' f = Inr (entries 1 0 old)"
    and opens: "fs_OpenFile fs ''wal_0000000000000001.log'' f = (Inr (), f)"
    and app: "\<And>bs f. fst (fs_Append fs ''wal_0000000000000001.log'' bs f) = Inr () \<and>
      fs_Open fs ''wal_0000000000000001.log'' (snd (fs_Append fs ''wal_0000000000000001.log'' bs f)) =
        map_sum id (\<lambda>c. c @ bs) (fs_Open fs ''wal_0000000000000001.log'' f)"
    and size: "\<forall>d \<in> set old. length d < 2 ^ 32" "length old < 2 ^ 63"
  shows "\<exists>w w' f'. Wal_Startup fs NewWal f = Done (Inr (), w, f) \<and>
    write_all fs new w f = Done (map (\<lambda>i. Inr (1, word_of_nat (length old + Suc i))) [0..<length new], w', f') \<and>
    fs_Open fs ''wal_0000000000000001.log'' f' = Inr (entries 1 0 (old @ new))"
proof -
  let ?n = "''wal_0000000000000001.log''"
  let ?init = "\<lparr>currentPosition = (1, word_of_nat (length old)), openFile = None\<rparr>"
  let ?w = "\<lparr>currentPosition = (1, word_of_nat (length old)), openFile = Some ?n\<rparr>"
  have f: "filter (\<lambda>(name, isdir). \<not> isdir \<and> length name = fileNameLength) [(?n, False)] = [(?n, False)]"
    by (simp add: fileNameLength_def)
  then have wf: "wal_files [(?n, False)] = [(?n, 1)]" by (simp add: wal_files_def Sscanf_wal_one)
  have "readAndCheckExistingFile fs f NewWal = Done (Inr (), ?init)"
    by (simp add: readAndCheckExistingFile_def dir fileNameLength_def wf cont read_old [OF size] NewWal_def)
  then have s: "Wal_Startup fs NewWal f = Done (Inr (), ?w, f)"
    using opens by (simp add: Wal_Startup_def initializeFile_def wal_name_one Let_def)
  from write_all_entries [OF app _ _ cont, of ?w 1 "word_of_nat (length old)" new] obtain w' f' where
    "write_all fs new ?w f = Done (map (\<lambda>i. Inr (1, word_of_nat (length old) + word_of_nat (Suc i))) [0..<length new], w', f')"
    "fs_Open fs ?n f' = Inr (entries 1 0 old @ entries 1 (word_of_nat (length old)) new)"
    by auto
  with s show ?thesis by (auto simp: entries_append)
qed

text \<open>A file system of one directory, kept in memory.\<close>

definition memfs :: "(string \<Rightarrow> bytes option) walfs" where
  "memfs = \<lparr>
     fs_ReadDir = (\<lambda>f. Inr (if f ''wal_0000000000000001.log'' = None then [] else [(''wal_0000000000000001.log'', False)])),
     fs_OpenFile = (\<lambda>n f. (Inr (), if f n = None then f(n \<mapsto> []) else f)),
     fs_Open = (\<lambda>n f. case f n of None \<Rightarrow> Inl (Errorf ''file does not exist'') | Some c \<Rightarrow> Inr c),
     fs_Append = (\<lambda>n bs f. (Inr (), case f n of None \<Rightarrow> f | Some c \<Rightarrow> f(n \<mapsto> c @ bs)))\<rparr>"

theorem restart_continues_witness:
  "\<exists>w w' f'. Wal_Startup memfs NewWal [''wal_0000000000000001.log'' \<mapsto> entries 1 0 [[1], [2, 3]]] =
      Done (Inr (), w, [''wal_0000000000000001.log'' \<mapsto> entries 1 0 [[1], [2, 3]]]) \<and>
    write_all memfs [[9]] w [''wal_0000000000000001.log'' \<mapsto> entries 1 0 [[1], [2, 3]]] =
      Done (map (\<lambda>i. Inr (1, word_of_nat (length [[1], [2, 3 :: byte]] + Suc i))) [0..<length [[9 :: byte]]], w', f') \<and>
    fs_Open memfs ''wal_0000000000000001.log'' f' = Inr (entries 1 0 ([[1], [2, 3]] @ [[9]]))"
  by (rule restart_continues) (auto simp: memfs_def split: option.splits)

text \<open>A crash in the middle of an entry makes the log unusable: if the file ends inside the data
  of its last entry, reading the position fails, and with it the start-up.\<close>

theorem torn_entry_fails:
  assumes "\<forall>d \<in> set ds. length d < 2 ^ 32" "length d < 2 ^ 32" "headerSize \<le> k" "k < headerSize + length d"
  shows "\<exists>e. read_file_pos idx (entries idx n ds @ take k (entry p d)) = Inl e"
proof -
  define h where "h = ToBytes p @ put_be 4 (length d) @ put_be 4 (adler32 d) @ replicate 8 0"
  have lh: "length h = headerSize" by (simp add: h_def headerSize_def del: put_be.simps)
  have e: "entry p d = h @ d" using assms(2) by (simp add: entry_eq h_def del: put_be.simps)
  have t: "take k (entry p d) = h @ take (k - headerSize) d" using assms(3) lh by (simp add: e)
  have d16: "take 4 (drop 16 h) = put_be 4 (length d)" by (simp add: h_def del: put_be.simps)
  have size: "be_nat (take 4 (drop 16 h)) = length d" using assms(2) unfolding d16 by (simp del: put_be.simps)
  obtain header pos where r: "length header = headerSize"
    "read_file_pos idx (entries idx n ds @ take k (entry p d)) = readLastPos idx header (h @ take (k - headerSize) d) pos"
    using read_entries [OF assms(1), of "replicate headerSize 0" idx n "take k (entry p d)" "(idx, 0)"]
    unfolding t read_file_pos_def by auto
  have "h \<noteq> []" using lh by (auto simp: headerSize_def)
  moreover have "min headerSize (length (h @ take (k - headerSize) d)) = length h" using lh by simp
  moreover have "drop (length h) header = []" using r(1) lh by simp
  moreover have "k - headerSize < length d" using assms(3,4) by simp
  ultimately have "\<exists>e. readLastPos idx header (h @ take (k - headerSize) d) pos = Inl e"
    using size by (subst readLastPos.simps) (simp add: Let_def min_def)
  then show ?thesis using r(2) by simp
qed

theorem torn_entry_fails_witness:
  "\<exists>e. read_file_pos 1 (entries 1 0 [[5]] @ take 33 (entry (1, 2) [6, 7])) = Inl e"
  by (rule torn_entry_fails) (simp_all add: headerSize_def)

text \<open>One file of the right length with another name is enough to crash the start-up: the log
  takes the last of an empty list of log files.\<close>

theorem foreign_file_panics:
  assumes "fs_ReadDir fs f = Inr [(name, False)]" "length name = 24" "Sscanf_wal name = Inl e"
  shows "Wal_Startup fs w f = Panic"
  using assms by (simp add: Wal_Startup_def readAndCheckExistingFile_def fileNameLength_def wal_files_def)

theorem foreign_file_panics_witness:
  "Wal_Startup (memfs\<lparr>fs_ReadDir := (\<lambda>f. Inr [(''abcdefghijklmnopqrstuvwx'', False)])\<rparr>) NewWal (\<lambda>_. None) = Panic"
  by (rule foreign_file_panics [where name = "''abcdefghijklmnopqrstuvwx''" and e = "Errorf ''input does not match format''"])
    (simp_all add: Sscanf_wal_def)

text \<open>The bytes of a position read back as the position, for the positions that are not negative.\<close>

theorem FromBytes_ToBytes:
  assumes "0 \<le> sint (fst p)" "0 \<le> sint (snd p)"
  shows "FromBytes (ToBytes p) = Inr p"
proof -
  have m: "w AND MaxInt64 = w" if "0 \<le> sint w" for w :: int64
  proof -
    have "take_bit 63 (uint w) = uint w"
      using that unsigned_less [of w, where 'a = int] sint_less [of w]
      by (intro take_bit_int_eq_self) (simp_all add: sint64_cases split: if_splits)
    then show ?thesis unfolding mask63 by (metis take_bit_eq_mask unsigned_take_bit_eq word_eq_iff_unsigned)
  qed
  show ?thesis using m [OF assms(1)] m [OF assms(2)]
    by (simp only: FromBytes_def length_ToBytes ToBytes_parts be_nat_word) simp
qed

theorem FromBytes_ToBytes_witness:
  "FromBytes (ToBytes (1, 300)) = Inr (1, 300)"
  by (rule FromBytes_ToBytes) simp_all

end
