(* ===== verification/WalLoop.thy ===== *)
theory WalLoop
  imports Wal
begin

text \<open>
  The write loop of the log (\<open>Write\<close>, \<open>WriteLoop\<close>, \<open>Shutdown\<close> of \<open>db/alpha/replication/wal.go\<close>) among its callers:
  requests wait in the queue of the log, the loop serves them one by one, and each request has a result channel of its own.
\<close>

section \<open>The loop and its callers\<close>

text \<open>
  \<open>sy_reqs\<close>: the data of the requests made so far, in the order in which they entered the queue; the place in this list is the
  number of a request. \<open>sy_res\<close>: what the loop has put into the result channels.
\<close>

record 'f wal_sys =
  sy_wal :: Wal
  sy_files :: 'f
  sy_closed :: bool
  sy_queue :: "(nat \<times> bytes) list"
  sy_reqs :: "bytes list"
  sy_res :: "(nat \<times> nat \<times> Position) list"

definition constWriteErrorGeneral :: nat where "constWriteErrorGeneral = 1"

definition queue_size :: nat where "queue_size = 128"

text \<open>\<open>Write\<close> up to its wait; a full queue holds the caller.\<close>

definition Write_send :: "bytes \<Rightarrow> 'f wal_sys \<Rightarrow> 'f wal_sys run" where
  "Write_send data s =
     (if queue_size \<le> length (sy_queue s) then Block
      else Done (s\<lparr>sy_reqs := sy_reqs s @ [data], sy_queue := sy_queue s @ [(length (sy_reqs s), prepareWriteEntry data)]\<rparr>))"

text \<open>The rest of \<open>Write\<close>.\<close>

definition Write_receive :: "nat \<Rightarrow> 'f wal_sys \<Rightarrow> Position res run" where
  "Write_receive i s =
     (case map_of (sy_res s) i of
        None \<Rightarrow> Block
      | Some (code, pos) \<Rightarrow> Done (if code \<noteq> 0 then Inl (Errorf ''write error'') else Inr pos))"

text \<open>Writing to a closed file fails.\<close>

definition file_fs :: "'f walfs \<Rightarrow> 'f wal_sys \<Rightarrow> 'f walfs" where
  "file_fs fs s = (if sy_closed s then fs\<lparr>fs_Append := \<lambda>_ _ f. (Inl (Sentinel ''fs.ErrClosed''), f)\<rparr> else fs)"

definition WriteLoop_turn :: "'f walfs \<Rightarrow> 'f wal_sys \<Rightarrow> 'f wal_sys run" where
  "WriteLoop_turn fs s =
     (case sy_queue s of
        [] \<Rightarrow> Block
      | (i, data) # queue \<Rightarrow>
          run_bind (doWrite (file_fs fs s) data (sy_wal s) (sy_files s)) (\<lambda>(r, w, f).
            Done (s\<lparr>sy_wal := w, sy_files := f, sy_queue := queue,
              sy_res := sy_res s @ [(i, case r of Inl e \<Rightarrow> (constWriteErrorGeneral, (0, 0)) | Inr pos \<Rightarrow> (0, pos))]\<rparr>)))"

text \<open>The queue stays open: the loop goes on.\<close>

definition Wal_Shutdown :: "'f wal_sys \<Rightarrow> unit res \<times> 'f wal_sys" where
  "Wal_Shutdown s = (Inr (), if openFile (sy_wal s) = None then s else s\<lparr>sy_closed := True\<rparr>)"

text \<open>Not implemented: no reader and no error.\<close>

definition RoughReader :: "Position \<Rightarrow> unit option res" where
  "RoughReader pos = Inr None"

inductive wal_step :: "'f walfs \<Rightarrow> 'f wal_sys \<Rightarrow> 'f wal_sys \<Rightarrow> bool" for fs where
  send: "Write_send data s = Done s' \<Longrightarrow> wal_step fs s s'"
| turn: "WriteLoop_turn fs s = Done s' \<Longrightarrow> wal_step fs s s'"
| stop: "Wal_Shutdown s = (r, s') \<Longrightarrow> wal_step fs s s'"

inductive wal_steps :: "'f walfs \<Rightarrow> 'f wal_sys \<Rightarrow> 'f wal_sys \<Rightarrow> bool" for fs where
  start: "wal_steps fs s s"
| step: "wal_steps fs s s' \<Longrightarrow> wal_step fs s' s'' \<Longrightarrow> wal_steps fs s s''"

inductive_cases wal_stepE: "wal_step fs s s'"

section \<open>The order of the writes\<close>

text \<open>A log that has started and its callers have not yet written.\<close>

definition started :: "Wal \<Rightarrow> 'f \<Rightarrow> 'f wal_sys" where
  "started w f = \<lparr>sy_wal = w, sy_files = f, sy_closed = False, sy_queue = [], sy_reqs = [], sy_res = []\<rparr>"

text \<open>The file system appends all or nothing.\<close>

definition append_ok :: "'f walfs \<Rightarrow> string \<Rightarrow> bool" where
  "append_ok fs name \<longleftrightarrow> (\<forall>bs f f' r. fs_Append fs name bs f = (r, f') \<longrightarrow>
     fs_Open fs name f' = (case r of Inl e \<Rightarrow> fs_Open fs name f | Inr _ \<Rightarrow> map_sum id (\<lambda>c. c @ bs) (fs_Open fs name f)))"

text \<open>The requests that were answered with success.\<close>

definition acked :: "'f wal_sys \<Rightarrow> nat list" where
  "acked s = map fst (filter (\<lambda>(i, code, pos). code = 0) (sy_res s))"

definition acked_positions :: "'f wal_sys \<Rightarrow> Position list" where
  "acked_positions s = map (snd \<circ> snd) (filter (\<lambda>(i, code, pos). code = 0) (sy_res s))"

definition wal_inv :: "'f walfs \<Rightarrow> string \<Rightarrow> int64 \<Rightarrow> int64 \<Rightarrow> bytes \<Rightarrow> 'f wal_sys \<Rightarrow> bool" where
  "wal_inv fs name i n content s \<longleftrightarrow>
     openFile (sy_wal s) = Some name \<and> currentPosition (sy_wal s) = (i, n + word_of_nat (length (acked s))) \<and>
     map fst (sy_res s) @ map fst (sy_queue s) = [0..<length (sy_reqs s)] \<and>
     (\<forall>(k, e) \<in> set (sy_queue s). e = prepareWriteEntry (sy_reqs s ! k)) \<and>
     acked_positions s = map (\<lambda>j. (i, n + word_of_nat (Suc j))) [0..<length (acked s)] \<and>
     fs_Open fs name (sy_files s) = Inr (content @ entries i n (map ((!) (sy_reqs s)) (acked s)))"

lemma wal_inv_started:
  "openFile w = Some name \<Longrightarrow> currentPosition w = (i, n) \<Longrightarrow> fs_Open fs name f = Inr content \<Longrightarrow> wal_inv fs name i n content (started w f)"
  by (simp add: wal_inv_def started_def acked_def acked_positions_def)

lemma acked_known: "wal_inv fs name i n content s \<Longrightarrow> k \<in> set (acked s) \<Longrightarrow> k < length (sy_reqs s)"
proof -
  assume "wal_inv fs name i n content s" "k \<in> set (acked s)"
  moreover from this(2) have "k \<in> fst ` set (sy_res s)" unfolding acked_def by auto
  then have "k \<in> set (map fst (sy_res s) @ map fst (sy_queue s))" by simp
  moreover have "map fst (sy_res s) @ map fst (sy_queue s) = [0..<length (sy_reqs s)]"
    using \<open>wal_inv fs name i n content s\<close> by (simp add: wal_inv_def)
  ultimately show ?thesis by (metis atLeastLessThan_iff set_upt)
qed

lemma wal_inv_send:
  assumes "wal_inv fs name i n content s" "Write_send data s = Done s'"
  shows "wal_inv fs name i n content s'"
proof -
  have s': "s' = s\<lparr>sy_reqs := sy_reqs s @ [data], sy_queue := sy_queue s @ [(length (sy_reqs s), prepareWriteEntry data)]\<rparr>"
    using assms(2) by (simp add: Write_send_def split: if_splits)
  have a: "acked s' = acked s" "acked_positions s' = acked_positions s" by (simp_all add: s' acked_def acked_positions_def)
  have q: "map fst (sy_res s) @ map fst (sy_queue s) = [0..<length (sy_reqs s)]" using assms(1) by (simp add: wal_inv_def)
  then have "fst x < length (sy_reqs s)" if "x \<in> set (sy_queue s)" for x
    using that by (metis UnCI atLeastLessThan_iff image_eqI set_append set_map set_upt)
  then have queue: "\<forall>(k, e) \<in> set (sy_queue s'). e = prepareWriteEntry (sy_reqs s' ! k)"
    using assms(1) by (fastforce simp: s' wal_inv_def nth_append)
  have same: "map ((!) (sy_reqs s')) (acked s) = map ((!) (sy_reqs s)) (acked s)"
    using acked_known [OF assms(1)] by (simp add: s' nth_append)
  have o: "fs_Open fs name (sy_files s') = Inr (content @ entries i n (map ((!) (sy_reqs s')) (acked s)))"
    unfolding same using assms(1) by (simp add: s' wal_inv_def)
  show ?thesis unfolding wal_inv_def a using assms(1) q queue o by (simp add: s' wal_inv_def)
qed

lemma entries_snoc: "entries i n (ds @ [d]) = entries i n ds @ entry (i, n + word_of_nat (Suc (length ds))) d"
  by (simp add: entries_append add.commute add.left_commute)

lemma wal_inv_turn:
  assumes inv: "wal_inv fs name i n content s" and t: "WriteLoop_turn fs s = Done s'" and app: "append_ok fs name"
  shows "wal_inv fs name i n content s'"
proof -
  obtain k data queue where q: "sy_queue s = (k, data) # queue"
    using t by (cases "sy_queue s") (auto simp: WriteLoop_turn_def)
  let ?pos = "(i, n + word_of_nat (Suc (length (acked s))))"
  have w: "openFile (sy_wal s) = Some name" "nextPos (sy_wal s) = ?pos" "data = prepareWriteEntry (sy_reqs s ! k)"
    using inv q by (simp_all add: wal_inv_def nextPos_def algebra_simps)
  let ?bs = "entry ?pos (sy_reqs s ! k)"
  obtain r f' where a: "fs_Append (file_fs fs s) name ?bs (sy_files s) = (r, f')" by (rule prod.exhaust)
  have s': "s' = s\<lparr>sy_wal := (case r of Inl e \<Rightarrow> sy_wal s | Inr _ \<Rightarrow> commitPos ?pos (sy_wal s)), sy_files := f', sy_queue := queue,
      sy_res := sy_res s @ [(k, case r of Inl e \<Rightarrow> (1, (0, 0)) | Inr _ \<Rightarrow> (0, ?pos))]\<rparr>"
    using t q w a by (cases r) (auto simp: WriteLoop_turn_def doWrite_def entry_def constWriteErrorGeneral_def Let_def)
  show ?thesis
  proof (cases r)
    case (Inl e)
    have "fs_Open fs name f' = fs_Open fs name (sy_files s)"
      using a app Inl by (auto simp: file_fs_def append_ok_def split: if_splits)
    moreover have "acked s' = acked s" "acked_positions s' = acked_positions s"
      by (simp_all add: s' acked_def acked_positions_def Inl)
    ultimately show ?thesis using inv unfolding wal_inv_def by (simp add: s' Inl q)
  next
    case (Inr u)
    have "\<not> sy_closed s" using a Inr by (auto simp: file_fs_def split: if_splits)
    then have "fs_Open fs name f' = map_sum id (\<lambda>c. c @ ?bs) (fs_Open fs name (sy_files s))"
      using a app Inr by (simp add: file_fs_def append_ok_def)
    then have o: "fs_Open fs name f' = Inr (content @ entries i n (map ((!) (sy_reqs s)) (acked s @ [k])))"
      using inv entries_snoc [of i n "map ((!) (sy_reqs s)) (acked s)" "sy_reqs s ! k"] by (simp add: wal_inv_def)
    have ak: "acked s' = acked s @ [k]" "acked_positions s' = acked_positions s @ [?pos]"
      by (simp_all add: s' acked_def acked_positions_def Inr)
    show ?thesis using inv o unfolding wal_inv_def ak by (simp add: s' Inr q commitPos_def)
  qed
qed

lemma wal_inv_step: "wal_step fs s s' \<Longrightarrow> append_ok fs name \<Longrightarrow> wal_inv fs name i n content s \<Longrightarrow> wal_inv fs name i n content s'"
proof (erule wal_stepE)
  fix r
  assume "wal_inv fs name i n content s" "Wal_Shutdown s = (r, s')"
  then show ?thesis by (auto simp: Wal_Shutdown_def wal_inv_def acked_def acked_positions_def split: if_splits)
qed (use wal_inv_send wal_inv_turn in blast)+


section \<open>An example\<close>

text \<open>Two requests, of which the second is served after the log was shut down.\<close>

definition demo_wal :: Wal where
  "demo_wal = \<lparr>currentPosition = (1, 0), openFile = Some ''wal_0000000000000001.log''\<rparr>"

definition demo_sys :: "(string \<Rightarrow> bytes option) wal_sys" where
  "demo_sys = \<lparr>sy_wal = demo_wal\<lparr>currentPosition := (1, 1)\<rparr>, sy_files = [''wal_0000000000000001.log'' \<mapsto> entry (1, 1) [5]], sy_closed = True,
     sy_queue = [], sy_reqs = [[5], [6]], sy_res = [(0, 0, (1, 1)), (1, 1, (0, 0))]\<rparr>"


end
