(* ===== verification/Chi2.thy ===== *)
theory Chi2
  imports HttpTypes
begin

text \<open>
  The controller layer (\<open>http/chi2\<close>): renders, the generic controller, the registration of
  controllers by the tags of their fields, the validator of content types, and the handler that is mounted for a
  route. The router and its middlewares are third-party code: \<open>BuildFor\<close> yields what the router is
  given. JSON encoding is a parameter.
\<close>

section \<open>Renders\<close>

text \<open>The values the controllers put into a JSON object. A nil slice of strings is the empty list.\<close>

datatype json_val = JString string | JBool bool | JStrings "string list" | JBytes bytes

type_synonym json_obj = "(string \<times> json_val) list"

datatype render = StatusRender nat | JsonObjRender nat json_obj | ErrRender go_error

definition NewStatusRender :: "nat \<Rightarrow> render" where "NewStatusRender code = StatusRender code"
definition NewJsonOkRender :: "json_obj \<Rightarrow> render" where "NewJsonOkRender obj = JsonObjRender StatusOK obj"
definition NewJsonObjRender :: "nat \<Rightarrow> json_obj \<Rightarrow> render" where "NewJsonObjRender code obj = JsonObjRender code obj"
definition NewErrRender :: "go_error \<Rightarrow> render" where "NewErrRender e = ErrRender e"

lemmas render_defs = NewStatusRender_def NewJsonOkRender_def NewJsonObjRender_def NewErrRender_def

text \<open>What \<open>Render\<close> writes, and its error, which the caller drops.\<close>

fun Render :: "(json_obj \<Rightarrow> bytes res) \<Rightarrow> render \<Rightarrow> http_response \<times> go_error option" where
  "Render marshal (StatusRender code) = (status_only code, None)"
| "Render marshal (JsonObjRender code obj) =
     (case marshal obj of
        Inl e \<Rightarrow> (status_only StatusInternalServerError, Some e)
      | Inr data \<Rightarrow>
          (\<lparr>rs_status = code, rs_headers = [(''Content-Type'', ''application/json; charset=utf-8'')], rs_body = data\<rparr>, None))"
| "Render marshal (ErrRender e) = (status_only StatusInternalServerError, Some e)"

section \<open>Controllers\<close>

text \<open>The middlewares the program mounts, by name.\<close>

datatype middleware = Logger | RealIP | Recoverer

text \<open>A validator lets a request pass (\<open>None\<close>, the nil render) or answers it; it reads the state \<open>'s\<close> behind the server.\<close>

type_synonym 's validator = "http_request \<Rightarrow> 's \<Rightarrow> render option run"
type_synonym 's http_handler = "http_request \<Rightarrow> 's \<Rightarrow> (render \<times> 's) run"

record ('s, 'm) Controller =
  ctl_Middlewares :: "middleware list"
  ctl_RequestValidators :: "'s validator list"
  ctl_BodyParser :: "(http_request \<Rightarrow> bytes res \<Rightarrow> 'm res) option"
  ctl_BodyVerifier :: "(http_request \<Rightarrow> 'm \<Rightarrow> render option) option"
  ctl_NewCustomErrorRender :: "(go_error \<Rightarrow> render) option"

text \<open>A nil parser panics.\<close>

definition ParseBody :: "('s, 'm) Controller \<Rightarrow> http_request \<Rightarrow> 'm res run" where
  "ParseBody c r = (case ctl_BodyParser c of None \<Rightarrow> Panic | Some parse \<Rightarrow> Done (parse r (rq_body r)))"

definition HandleModel :: "('s, 'm) Controller \<Rightarrow> 'm \<Rightarrow> 's http_handler" where
  "HandleModel c model r s = Panic"

definition error_render :: "('s, 'm) Controller \<Rightarrow> go_error \<Rightarrow> render" where
  "error_render c e = (case ctl_NewCustomErrorRender c of None \<Rightarrow> NewErrRender e | Some f \<Rightarrow> f e)"

text \<open>The handler that a controller inherits when it defines none of its own.\<close>

definition Controller_HandleHttp :: "('s, 'm) Controller \<Rightarrow> 's http_handler" where
  "Controller_HandleHttp c r s =
     run_bind (ParseBody c r) (\<lambda>obj. case obj of
       Inl e \<Rightarrow> Done (error_render c e, s)
     | Inr model \<Rightarrow>
         (case ctl_BodyVerifier c of
            None \<Rightarrow> Done (error_render c (Errorf ''body verifier is nil''), s)
          | Some verify \<Rightarrow>
              (case verify r model of
                 Some rd \<Rightarrow> Done (rd, s)
               | None \<Rightarrow> HandleModel c model r s)))"

text \<open>
  What registration sees of a controller: by reflection, the type's name and the tag of a field, and its handler,
  middlewares and validators.
\<close>

record 's api_controller =
  ac_field :: "string \<Rightarrow> (string \<times> (string \<Rightarrow> string)) option"
  ac_Middlewares :: "middleware list"
  ac_RequestValidators :: "'s validator list"
  ac_HandleHttp :: "'s http_handler"

section \<open>Registration\<close>

definition ErrFieldNotFound :: go_error where "ErrFieldNotFound = Sentinel ''chi2.ErrFieldNotFound''"
definition ErrFieldTypeMismatch :: go_error where "ErrFieldTypeMismatch = Sentinel ''chi2.ErrFieldTypeMismatch''"
definition ErrMethodInvalid :: go_error where "ErrMethodInvalid = Sentinel ''chi2.ErrMethodInvalid''"
definition ErrEmptyURL :: go_error where "ErrEmptyURL = Sentinel ''chi2.ErrEmptyURL''"

definition httpMethods :: "string list" where
  "httpMethods = [''GET'', ''POST'', ''PUT'', ''CONNECT'', ''DELETE'', ''HEAD'', ''OPTIONS'', ''PATCH'', ''TRACE'']"

definition extractUrl :: "'s api_controller \<Rightarrow> string res" where
  "extractUrl c =
     (case ac_field c ''URL'' of
        None \<Rightarrow> Inl ErrFieldNotFound
      | Some (ty, tag) \<Rightarrow>
          if ty \<noteq> ''string'' then Inl ErrFieldTypeMismatch
          else let url = TrimSpace (tag ''url'') in
               if url = [] then Inl ErrEmptyURL else Inr url)"

definition extractMethod :: "'s api_controller \<Rightarrow> string res" where
  "extractMethod c =
     (case ac_field c ''Method'' of
        None \<Rightarrow> Inl ErrFieldNotFound
      | Some (ty, tag) \<Rightarrow>
          if ty \<noteq> ''string'' then Inl ErrFieldTypeMismatch
          else let method = ToUpper (TrimSpace (tag ''method'')) in
               if method \<notin> set httpMethods then Inl ErrMethodInvalid else Inr method)"

record 's api_item =
  it_m :: string
  it_u :: string
  it_Middlewares :: "middleware list"
  it_RequestValidators :: "'s validator list"
  it_HandleHttp :: "'s http_handler"

type_synonym 's ChiApiStub = "(string, (string, 's api_item) gomap) gomap"

definition NewChiApiStub :: "'s ChiApiStub" where
  "NewChiApiStub = []"

text \<open>
  The items are values: the assignments to the fields of an item that was found change a copy
  of it, and the map keeps what it had.
\<close>

definition addItem ::
  "string \<Rightarrow> string \<Rightarrow> middleware list \<Rightarrow> 's validator list \<Rightarrow> 's http_handler \<Rightarrow> 's ChiApiStub \<Rightarrow> 's ChiApiStub" where
  "addItem method url mw rv ct items =
     (let sub = (case map_of items method of Some sub \<Rightarrow> sub | None \<Rightarrow> []) in
      case map_of sub url of
        None \<Rightarrow>
          AList.update method (AList.update url
            \<lparr>it_m = method, it_u = url, it_Middlewares = mw, it_RequestValidators = rv, it_HandleHttp = ct\<rparr> sub) items
      | Some item \<Rightarrow> items)"

text \<open>An error ends the loop; the controllers before it stay registered.\<close>

fun RegisterControllers :: "'s api_controller list \<Rightarrow> 's ChiApiStub \<Rightarrow> unit res \<times> 's ChiApiStub" where
  "RegisterControllers [] items = (Inr (), items)"
| "RegisterControllers (c # cs) items =
     (case extractMethod c of
        Inl e \<Rightarrow> (Inl e, items)
      | Inr m \<Rightarrow>
          (case extractUrl c of
             Inl e \<Rightarrow> (Inl e, items)
           | Inr u \<Rightarrow>
               RegisterControllers cs
                 (addItem m u (ac_Middlewares c) (ac_RequestValidators c) (ac_HandleHttp c) items)))"

section \<open>Handling\<close>

text \<open>The first validator that answers ends the request.\<close>

fun run_validators :: "'s validator list \<Rightarrow> 's validator" where
  "run_validators [] r s = Done None"
| "run_validators (rv # rvs) r s =
     run_bind (rv r s) (\<lambda>rd. case rd of Some rd \<Rightarrow> Done (Some rd) | None \<Rightarrow> run_validators rvs r s)"

definition generalHandler ::
  "(json_obj \<Rightarrow> bytes res) \<Rightarrow> 's api_item \<Rightarrow> http_request \<Rightarrow> 's \<Rightarrow> (http_response \<times> 's) run" where
  "generalHandler marshal item r s =
     run_bind (run_validators (it_RequestValidators item) r s) (\<lambda>v. case v of
       Some rd \<Rightarrow> Done (fst (Render marshal rd), s)
     | None \<Rightarrow> run_bind (it_HandleHttp item r s) (\<lambda>(rd, s'). Done (fst (Render marshal rd), s')))"

text \<open>What \<open>BuildFor\<close> hands to the router: for each route its middlewares and its handler.\<close>

record 's mounted =
  mt_method :: string
  mt_url :: string
  mt_Middlewares :: "middleware list"
  mt_handler :: "http_request \<Rightarrow> 's \<Rightarrow> (http_response \<times> 's) run"

definition BuildFor :: "(json_obj \<Rightarrow> bytes res) \<Rightarrow> 's ChiApiStub \<Rightarrow> 's mounted list" where
  "BuildFor marshal items =
     concat (map (\<lambda>(method, sub). map (\<lambda>(url, item).
       \<lparr>mt_method = method, mt_url = url, mt_Middlewares = it_Middlewares item, mt_handler = generalHandler marshal item\<rparr>) sub) items)"

text \<open>\<open>AllowContentTypeFor\<close>.\<close>

definition StatusUnsupportedMediaType :: nat where "StatusUnsupportedMediaType = 415"

definition AllowContentTypeFor :: "string list \<Rightarrow> 's validator" where
  "AllowContentTypeFor contentTypes r s =
     (let ct = TrimSpace (hd (Split CHR '';'' (rq_header r ''Content-Type''))) in
      Done (if ct \<in> set contentTypes then None else Some (NewStatusRender StatusUnsupportedMediaType)))"

section \<open>Lemmas\<close>

text \<open>The item of a route.\<close>

definition item_at :: "string \<Rightarrow> string \<Rightarrow> 's ChiApiStub \<Rightarrow> 's api_item option" where
  "item_at method url items = Option.bind (map_of items method) (\<lambda>sub. map_of sub url)"

lemma item_at_New [simp]: "item_at m u NewChiApiStub = None"
  by (simp add: item_at_def NewChiApiStub_def)

text \<open>The first registration of a route is the one that stays.\<close>

lemma item_at_addItem:
  "item_at m u (addItem m' u' mw rv ct items) =
    (if m = m' \<and> u = u' \<and> item_at m u items = None
     then Some \<lparr>it_m = m, it_u = u, it_Middlewares = mw, it_RequestValidators = rv, it_HandleHttp = ct\<rparr>
     else item_at m u items)"
proof -
  let ?sub = "case map_of items m' of Some sub \<Rightarrow> sub | None \<Rightarrow> []"
  have i: "item_at m' x items = map_of ?sub x" for x by (cases "map_of items m'") (simp_all add: item_at_def)
  show ?thesis
  proof (cases "map_of ?sub u'")
    case None
    then show ?thesis unfolding addItem_def Let_def using i by (simp add: item_at_def update_conv)
  next
    case (Some item)
    have "addItem m' u' mw rv ct items = items" unfolding addItem_def Let_def Some option.case ..
    moreover have "item_at m' u' items = Some item" unfolding i Some ..
    ultimately show ?thesis by (cases "m = m'"; cases "u = u'") simp_all
  qed
qed

lemma generalHandler_cases:
  assumes "generalHandler marshal item r s = Done (resp, s')"
  shows "(\<exists>rd. run_validators (it_RequestValidators item) r s = Done (Some rd) \<and> resp = fst (Render marshal rd) \<and> s' = s) \<or>
    (\<exists>rd. run_validators (it_RequestValidators item) r s = Done None \<and>
       it_HandleHttp item r s = Done (rd, s') \<and> resp = fst (Render marshal rd))"
proof -
  obtain v where v: "run_validators (it_RequestValidators item) r s = Done v"
    and h: "(case v of Some rd \<Rightarrow> Done (fst (Render marshal rd), s)
      | None \<Rightarrow> run_bind (it_HandleHttp item r s) (\<lambda>(rd, s'). Done (fst (Render marshal rd), s'))) = Done (resp, s')"
    using assms unfolding generalHandler_def run_bind_Done by blast
  show ?thesis
  proof (cases v)
    case None
    with h obtain rd s1 where "it_HandleHttp item r s = Done (rd, s1)" "fst (Render marshal rd) = resp" "s1 = s'"
      by (cases "it_HandleHttp item r s") (simp_all split: prod.splits)
    with v None show ?thesis by blast
  next
    case (Some rd)
    with h v show ?thesis by simp
  qed
qed

lemma run_validators_None:
  "run_validators rvs r s = Done None \<longleftrightarrow> (\<forall>rv \<in> set rvs. rv r s = Done None)"
proof (induction rvs)
  case (Cons rv rvs)
  show ?case
  proof
    assume "run_validators (rv # rvs) r s = Done None"
    then obtain v where v: "rv r s = Done v" "(case v of Some rd \<Rightarrow> Done (Some rd) | None \<Rightarrow> run_validators rvs r s) = Done None" by auto
    then have "v = None" by (cases v) auto
    with v Cons.IH show "\<forall>rv \<in> set (rv # rvs). rv r s = Done None" by simp
  qed (use Cons.IH in simp)
qed simp

lemma run_validators_Some:
  "run_validators rvs r s = Done (Some rd) \<Longrightarrow> \<exists>rv \<in> set rvs. rv r s = Done (Some rd)"
  by (induction rvs) (auto split: option.splits)

lemma AllowContentTypeFor_cases:
  "AllowContentTypeFor cts r s = Done None \<or> AllowContentTypeFor cts r s = Done (Some (StatusRender 415))"
  by (simp add: AllowContentTypeFor_def Let_def NewStatusRender_def StatusUnsupportedMediaType_def)

end
