(* ===== verification/KeyTypes.thy ===== *)
theory KeyTypes
  imports Codec
begin

text \<open>
  Keys of the secret component (\<open>configure/secretapi\<close>: \<open>store.go\<close>, \<open>keygen.go\<close>, \<open>pem.go\<close>,
  \<open>cipher.raw.go\<close>): key types and their names, key sets with their checksums, the generator, and
  the PEM tool. The cryptography, PEM and JSON of the standard library are a record of
  functions; the random source and the key generators are another.
\<close>

section \<open>Key types\<close>

type_synonym KeyType = int64

definition KeyKeySet :: KeyType where "KeyKeySet = 501"
definition KeyAES128 :: KeyType where "KeyAES128 = 1001"
definition KeyAES192 :: KeyType where "KeyAES192 = 1002"
definition KeyAES256 :: KeyType where "KeyAES256 = 1003"
definition KeyRSA1024 :: KeyType where "KeyRSA1024 = 2001"
definition KeyRSA2048 :: KeyType where "KeyRSA2048 = 2002"
definition KeyRSA3072 :: KeyType where "KeyRSA3072 = 2003"
definition KeyRSA4096 :: KeyType where "KeyRSA4096 = 2004"
definition KeyECDSA224 :: KeyType where "KeyECDSA224 = 2101"
definition KeyECDSA256 :: KeyType where "KeyECDSA256 = 2102"
definition KeyECDSA384 :: KeyType where "KeyECDSA384 = 2103"
definition KeyECDSA521 :: KeyType where "KeyECDSA521 = 2104"
definition KeyEd25519 :: KeyType where "KeyEd25519 = 2201"
definition KeyGeneral64B :: KeyType where "KeyGeneral64B = 3001"
definition KeyGeneral128B :: KeyType where "KeyGeneral128B = 3002"

lemmas key_types = KeyKeySet_def KeyAES128_def KeyAES192_def KeyAES256_def KeyRSA1024_def KeyRSA2048_def
  KeyRSA3072_def KeyRSA4096_def KeyECDSA224_def KeyECDSA256_def KeyECDSA384_def KeyECDSA521_def
  KeyEd25519_def KeyGeneral64B_def KeyGeneral128B_def

definition key_type_names :: "(KeyType \<times> string) list" where
  "key_type_names =
    [(KeyKeySet, ''KeySet''), (KeyAES128, ''KeyAES128''), (KeyAES192, ''KeyAES192''), (KeyAES256, ''KeyAES256''),
     (KeyEd25519, ''KeyEd25519''), (KeyRSA1024, ''KeyRSA1024''), (KeyRSA2048, ''KeyRSA2048''),
     (KeyRSA4096, ''KeyRSA4096''), (KeyRSA3072, ''KeyRSA3072''), (KeyECDSA224, ''KeyECDSA224''),
     (KeyECDSA256, ''KeyECDSA256''), (KeyECDSA384, ''KeyECDSA384''), (KeyECDSA521, ''KeyECDSA521''),
     (KeyGeneral64B, ''KeyGeneral64B''), (KeyGeneral128B, ''KeyGeneral128B'')]"

text \<open>\<open>KeyType.String\<close> and \<open>KeyType.FromString\<close>: unknown types and names panic.\<close>

definition kt_String :: "KeyType \<Rightarrow> string run" where
  "kt_String k = (case map_of key_type_names k of Some s \<Rightarrow> Done s | None \<Rightarrow> Panic)"

definition kt_FromString :: "string \<Rightarrow> KeyType run" where
  "kt_FromString str =
     (case map_of (map (\<lambda>(k, s). (s, k)) key_type_names) str of Some k \<Rightarrow> Done k | None \<Rightarrow> Panic)"

definition known_type :: "KeyType \<Rightarrow> bool" where
  "known_type k \<longleftrightarrow> k \<in> set (map fst key_type_names)"

definition is_rsa :: "KeyType \<Rightarrow> bool" where
  "is_rsa kt \<longleftrightarrow> kt \<in> {KeyRSA1024, KeyRSA2048, KeyRSA3072, KeyRSA4096}"

definition is_ecdsa :: "KeyType \<Rightarrow> bool" where
  "is_ecdsa kt \<longleftrightarrow> kt \<in> {KeyECDSA224, KeyECDSA256, KeyECDSA384, KeyECDSA521}"

section \<open>Key sets\<close>

record KeySet =
  AES256 :: bytes
  CRC_AES256 :: string
  RSA4096 :: bytes
  CRC_RSA4096 :: string
  ECDSA_P521 :: bytes
  CRC_ECDSA_P521 :: string
  ED25519_PRI :: bytes
  CRC_ED25519_PRI :: string
  ED25519_PUB :: bytes
  CRC_ED25519_PUB :: string

text \<open>\<open>new(KeySet)\<close>.\<close>

definition zero_KeySet :: KeySet where
  "zero_KeySet = \<lparr>AES256 = [], CRC_AES256 = [], RSA4096 = [], CRC_RSA4096 = [], ECDSA_P521 = [],
     CRC_ECDSA_P521 = [], ED25519_PRI = [], CRC_ED25519_PRI = [], ED25519_PUB = [], CRC_ED25519_PUB = []\<rparr>"

text \<open>
  The standard library: PEM blocks (an encoder, and a decoder that yields the bytes of the first
  block), the encodings of private keys, JSON of a key set, and AES-GCM with its 12-byte nonce.
\<close>

record 'pk keylib =
  kl_pem_encode :: "string \<Rightarrow> bytes \<Rightarrow> bytes"
  kl_pem_decode :: "bytes \<Rightarrow> bytes option"
  kl_pkcs1_marshal :: "'pk \<Rightarrow> bytes"
  kl_pkcs1_parse :: "bytes \<Rightarrow> 'pk res"
  kl_ec_marshal :: "'pk \<Rightarrow> bytes res"
  kl_ec_parse :: "bytes \<Rightarrow> 'pk res"
  kl_json_marshal :: "KeySet \<Rightarrow> bytes res"
  kl_json_decode :: "bytes \<Rightarrow> KeySet res"
  kl_seal :: "bytes \<Rightarrow> bytes \<Rightarrow> bytes \<Rightarrow> bytes \<Rightarrow> bytes"
  kl_open :: "bytes \<Rightarrow> bytes \<Rightarrow> bytes \<Rightarrow> bytes \<Rightarrow> bytes res"

datatype curve = P224 | P256 | P384 | P521

text \<open>The random source and the generators of \<open>crypto/rsa\<close>, \<open>crypto/ecdsa\<close>, \<open>crypto/ed25519\<close>.\<close>

record 'pk rng =
  rg_read :: "nat \<Rightarrow> bytes res"
  rg_rsa :: "nat \<Rightarrow> 'pk res"
  rg_ecdsa :: "curve \<Rightarrow> 'pk res"
  rg_ed25519 :: "(bytes \<times> bytes) res"

text \<open>\<open>aes.NewCipher\<close> accepts keys of 16, 24 and 32 bytes.\<close>

definition aes_NewCipher :: "bytes \<Rightarrow> bytes res" where
  "aes_NewCipher key =
     (if length key \<in> {16, 24, 32} then Inr key else Inl (Errorf ''crypto/aes: invalid key size''))"

definition gcm_nonce_size :: nat where "gcm_nonce_size = 12"

text \<open>\<open>aead.Open\<close> panics on a nonce of another length.\<close>

definition aead_Open :: "'pk keylib \<Rightarrow> bytes \<Rightarrow> bytes \<Rightarrow> bytes \<Rightarrow> bytes \<Rightarrow> bytes res run" where
  "aead_Open lib key nonce ciphertext aad =
     (if length nonce \<noteq> gcm_nonce_size then Panic else Done (kl_open lib key nonce ciphertext aad))"

definition ks_Aes :: "KeySet \<Rightarrow> bytes res" where
  "ks_Aes k = aes_NewCipher (AES256 k)"

text \<open>The result: the ciphertext and the nonce, read from the random source.\<close>

definition AesGCMEnc :: "'pk keylib \<Rightarrow> 'pk rng \<Rightarrow> KeySet \<Rightarrow> bytes \<Rightarrow> (bytes \<times> bytes) res" where
  "AesGCMEnc lib rg k data =
     res_bind (ks_Aes k) (\<lambda>block.
     res_bind (rg_read rg gcm_nonce_size) (\<lambda>nonce.
       Inr (kl_seal lib block nonce data [], nonce)))"

definition AesGCMDec :: "'pk keylib \<Rightarrow> KeySet \<Rightarrow> bytes \<Rightarrow> bytes \<Rightarrow> bytes res run" where
  "AesGCMDec lib k encrypted nonce =
     (case ks_Aes k of
        Inl e \<Rightarrow> Done (Inl e)
      | Inr block \<Rightarrow> aead_Open lib block nonce encrypted [])"

definition ks_Rsa :: "'pk keylib \<Rightarrow> KeySet \<Rightarrow> 'pk res" where
  "ks_Rsa lib k =
     (case kl_pem_decode lib (RSA4096 k) of
        None \<Rightarrow> Inl (Errorf ''rsa private key error'')
      | Some block \<Rightarrow> kl_pkcs1_parse lib block)"

definition ks_Ecdsa :: "'pk keylib \<Rightarrow> KeySet \<Rightarrow> 'pk res" where
  "ks_Ecdsa lib k =
     (case kl_pem_decode lib (ECDSA_P521 k) of
        None \<Rightarrow> Inl (Errorf ''ecdsa private key error'')
      | Some block \<Rightarrow> kl_ec_parse lib block)"

definition ks_Ed25519 :: "KeySet \<Rightarrow> bytes \<times> bytes" where
  "ks_Ed25519 k = (ED25519_PRI k, ED25519_PUB k)"

subsection \<open>Checksums\<close>

text \<open>\<open>crc32.ChecksumIEEE\<close>, bit by bit with the reversed polynomial.\<close>

definition crc_step :: "32 word \<Rightarrow> 32 word" where
  "crc_step c = (if bit c 0 then drop_bit 1 c XOR 0xEDB88320 else drop_bit 1 c)"

definition crc32 :: "bytes \<Rightarrow> 32 word" where
  "crc32 bs = NOT (fold (\<lambda>b c. (crc_step ^^ 8) (c XOR ucast b)) bs (- 1))"

text \<open>\<open>binary.LittleEndian.PutUint32\<close> of the checksum, in hex.\<close>

definition crc_hex :: "bytes \<Rightarrow> string" where
  "crc_hex data = hex_encode (rev (put_be 4 (unat (crc32 data))))"

definition VerifyCrc :: "KeySet \<Rightarrow> bool" where
  "VerifyCrc k =
     (if CRC_AES256 k \<noteq> crc_hex (AES256 k) then False
      else if CRC_RSA4096 k \<noteq> crc_hex (RSA4096 k) then False
      else if CRC_ECDSA_P521 k \<noteq> crc_hex (ECDSA_P521 k) then False
      else if CRC_ED25519_PRI k \<noteq> crc_hex (ED25519_PRI k) then False
      else if CRC_ED25519_PUB k \<noteq> crc_hex (ED25519_PUB k) then False
      else True)"

definition CalculateCrc :: "KeySet \<Rightarrow> KeySet" where
  "CalculateCrc k =
     k\<lparr>CRC_AES256 := crc_hex (AES256 k), CRC_RSA4096 := crc_hex (RSA4096 k),
       CRC_ECDSA_P521 := crc_hex (ECDSA_P521 k), CRC_ED25519_PRI := crc_hex (ED25519_PRI k),
       CRC_ED25519_PUB := crc_hex (ED25519_PUB k)\<rparr>"

definition LoadFromBytes :: "'pk keylib \<Rightarrow> bytes \<Rightarrow> KeySet res" where
  "LoadFromBytes lib data = kl_json_decode lib data"

definition SaveAsBytes :: "'pk keylib \<Rightarrow> KeySet \<Rightarrow> bytes res" where
  "SaveAsBytes lib k = kl_json_marshal lib k"

section \<open>The PEM tool\<close>

definition EncodeCustom :: "'pk keylib \<Rightarrow> bytes \<Rightarrow> string \<Rightarrow> bytes res" where
  "EncodeCustom lib data typeName = Inr (kl_pem_encode lib typeName data)"

definition ParseCustom :: "'pk keylib \<Rightarrow> bytes \<Rightarrow> bytes res" where
  "ParseCustom lib data =
     (case kl_pem_decode lib data of None \<Rightarrow> Inl (Errorf ''pem decode failed'') | Some b \<Rightarrow> Inr b)"

definition EncodeKeySet :: "'pk keylib \<Rightarrow> KeySet \<Rightarrow> bytes res" where
  "EncodeKeySet lib ks = res_bind (SaveAsBytes lib ks) (\<lambda>data. Inr (kl_pem_encode lib ''KeySet'' data))"

definition ParseKeySet :: "'pk keylib \<Rightarrow> bytes \<Rightarrow> KeySet res" where
  "ParseKeySet lib data =
     (case kl_pem_decode lib data of
        None \<Rightarrow> Inl (Errorf ''pem decode failed'')
      | Some b \<Rightarrow> LoadFromBytes lib b)"

definition EncodeRsaPrivateKey :: "'pk keylib \<Rightarrow> 'pk \<Rightarrow> bytes res" where
  "EncodeRsaPrivateKey lib pri = Inr (kl_pem_encode lib ''RSA PRIVATE KEY'' (kl_pkcs1_marshal lib pri))"

definition ParseRsaPrivateKey :: "'pk keylib \<Rightarrow> bytes \<Rightarrow> 'pk res" where
  "ParseRsaPrivateKey lib data =
     (case kl_pem_decode lib data of
        None \<Rightarrow> Inl (Errorf ''rsa private key error'')
      | Some b \<Rightarrow> kl_pkcs1_parse lib b)"

definition EncodeECDSAPrivateKey :: "'pk keylib \<Rightarrow> 'pk \<Rightarrow> bytes res" where
  "EncodeECDSAPrivateKey lib pri =
     res_bind (kl_ec_marshal lib pri) (\<lambda>keydata. Inr (kl_pem_encode lib ''EC PRIVATE KEY'' keydata))"

definition ParseECDSAPrivateKey :: "'pk keylib \<Rightarrow> bytes \<Rightarrow> 'pk res" where
  "ParseECDSAPrivateKey lib data =
     (case kl_pem_decode lib data of
        None \<Rightarrow> Inl (Errorf ''ecdsa private key error'')
      | Some b \<Rightarrow> kl_ec_parse lib b)"

definition ConvertPKISupportedKey :: "'pk keylib \<Rightarrow> KeyType \<Rightarrow> bytes \<Rightarrow> 'pk res" where
  "ConvertPKISupportedKey lib keyType key =
     (if is_rsa keyType then ParseRsaPrivateKey lib key
      else if is_ecdsa keyType then ParseECDSAPrivateKey lib key
      else Inl (Errorf ''ConvertPKISupportedKey: unsupported key type''))"

section \<open>The generator\<close>

definition read_random :: "'pk rng \<Rightarrow> nat \<Rightarrow> bytes res" where
  "read_random rg n =
     res_bind (rg_read rg n) (\<lambda>buf.
       if length buf \<noteq> n then Inl (Errorf ''failed to read random data'') else Inr buf)"

definition gen_ECDSA :: "'pk keylib \<Rightarrow> 'pk rng \<Rightarrow> KeyType \<Rightarrow> bytes res" where
  "gen_ECDSA lib rg keyType =
     (let curve = (if keyType = KeyECDSA224 then Some P224 else if keyType = KeyECDSA256 then Some P256
                   else if keyType = KeyECDSA384 then Some P384 else if keyType = KeyECDSA521 then Some P521
                   else None)
      in case curve of
           None \<Rightarrow> Inl (Errorf ''invalid rsa key type'')
         | Some c \<Rightarrow> res_bind (rg_ecdsa rg c) (EncodeECDSAPrivateKey lib))"

definition gen_RSA :: "'pk keylib \<Rightarrow> 'pk rng \<Rightarrow> KeyType \<Rightarrow> bytes res" where
  "gen_RSA lib rg keyType =
     (let bits = (if keyType = KeyRSA1024 then Some 1024 else if keyType = KeyRSA2048 then Some 2048
                  else if keyType = KeyRSA4096 then Some 4096 else if keyType = KeyRSA3072 then Some 3072
                  else None)
      in case bits of
           None \<Rightarrow> Inl (Errorf ''invalid rsa key type'')
         | Some n \<Rightarrow> res_bind (rg_rsa rg n) (EncodeRsaPrivateKey lib))"

definition General64B :: "'pk rng \<Rightarrow> bytes res" where "General64B rg = read_random rg 64"
definition General128B :: "'pk rng \<Rightarrow> bytes res" where "General128B rg = read_random rg 128"
definition genAes :: "'pk rng \<Rightarrow> nat \<Rightarrow> bytes res" where "genAes rg sz = read_random rg (sz div 8)"
definition Aes128 :: "'pk rng \<Rightarrow> bytes res" where "Aes128 rg = genAes rg 128"
definition Aes192 :: "'pk rng \<Rightarrow> bytes res" where "Aes192 rg = genAes rg 192"
definition Aes256 :: "'pk rng \<Rightarrow> bytes res" where "Aes256 rg = genAes rg 256"

definition GenerateVitalKeySet :: "'pk keylib \<Rightarrow> 'pk rng \<Rightarrow> KeySet res" where
  "GenerateVitalKeySet lib rg =
     res_bind (read_random rg (256 div 8)) (\<lambda>buf.
     res_bind (rg_rsa rg 4096) (\<lambda>rsa.
     res_bind (rg_ecdsa rg P521) (\<lambda>ec.
     res_bind (kl_ec_marshal lib ec) (\<lambda>keydata.
     res_bind (rg_ed25519 rg) (\<lambda>(pri, pub).
       Inr (CalculateCrc (zero_KeySet
         \<lparr>AES256 := buf,
          RSA4096 := kl_pem_encode lib ''RSA PRIVATE KEY'' (kl_pkcs1_marshal lib rsa),
          ECDSA_P521 := kl_pem_encode lib ''EC PRIVATE KEY'' keydata,
          ED25519_PUB := pub, ED25519_PRI := pri\<rparr>)))))))"

section \<open>Lemmas\<close>

text \<open>What the library's documentation promises of the encodings and of AES-GCM.\<close>

definition keylib_ok :: "'pk keylib \<Rightarrow> bool" where
  "keylib_ok lib \<longleftrightarrow>
     (\<forall>t d. kl_pem_decode lib (kl_pem_encode lib t d) = Some d) \<and>
     (\<forall>k. kl_pkcs1_parse lib (kl_pkcs1_marshal lib k) = Inr k) \<and>
     (\<forall>k d. kl_ec_marshal lib k = Inr d \<longrightarrow> kl_ec_parse lib d = Inr k) \<and>
     (\<forall>ks d. VerifyCrc ks \<longrightarrow> kl_json_marshal lib ks = Inr d \<longrightarrow> kl_json_decode lib d = Inr ks) \<and>
     (\<forall>key nonce p a. length key \<in> {16, 24, 32} \<longrightarrow> length nonce = 12 \<longrightarrow>
        kl_open lib key nonce (kl_seal lib key nonce p a) a = Inr p)"

lemma keylib_okD:
  assumes "keylib_ok lib"
  shows "kl_pem_decode lib (kl_pem_encode lib t d) = Some d"
    and "kl_pkcs1_parse lib (kl_pkcs1_marshal lib k) = Inr k"
    and "kl_ec_marshal lib k = Inr d \<Longrightarrow> kl_ec_parse lib d = Inr k"
    and "VerifyCrc ks \<Longrightarrow> kl_json_marshal lib ks = Inr d \<Longrightarrow> kl_json_decode lib d = Inr ks"
    and "length key \<in> {16, 24, 32} \<Longrightarrow> length nonce = 12 \<Longrightarrow> kl_open lib key nonce (kl_seal lib key nonce p a) a = Inr p"
  using assms unfolding keylib_ok_def by blast+

lemma VerifyCrc_CalculateCrc [simp]: "VerifyCrc (CalculateCrc k)"
  by (simp add: VerifyCrc_def CalculateCrc_def)

lemma VerifyCrc_iff: "VerifyCrc k \<longleftrightarrow> CalculateCrc k = k"
  by (cases k) (auto simp: VerifyCrc_def CalculateCrc_def)

lemma key_type_names_distinct: "distinct (map fst key_type_names)" "distinct (map snd key_type_names)"
  by (simp_all add: key_type_names_def key_types)

lemma map_of_swap:
  "distinct (map snd xs) \<Longrightarrow> (k, s) \<in> set xs \<Longrightarrow> map_of (map (\<lambda>(k, s). (s, k)) xs) s = Some k"
  by (rule map_of_is_SomeI) (force simp: comp_def case_prod_beta)+

lemma kt_String_Done: "kt_String k = Done s \<longleftrightarrow> (k, s) \<in> set key_type_names"
  unfolding kt_String_def map_of_eq_Some_iff [OF key_type_names_distinct(1), symmetric]
  by (auto split: option.splits)

lemma FromString_String_Done: "kt_String k = Done s \<Longrightarrow> kt_FromString s = Done k"
  unfolding kt_String_Done kt_FromString_def by (simp add: map_of_swap [OF key_type_names_distinct(2)])

lemma known_type_String: "known_type k \<longleftrightarrow> (\<exists>s. kt_String k = Done s)"
  unfolding known_type_def kt_String_Done by force

text \<open>Decryption returns what was encrypted.\<close>

lemma AesGCMDec_Enc:
  assumes "keylib_ok lib" "AesGCMEnc lib rg k p = Inr (c, n)" "length n = 12"
  shows "AesGCMDec lib k c n = Done (Inr p)"
proof -
  have e: "ks_Aes k = Inr (AES256 k)" "length (AES256 k) \<in> {16, 24, 32}" "c = kl_seal lib (AES256 k) n p []"
    using assms(2) by (auto simp: AesGCMEnc_def ks_Aes_def aes_NewCipher_def split: if_splits)
  have "kl_open lib (AES256 k) n c [] = Inr p"
    unfolding e(3) by (rule keylib_okD(5) [OF assms(1) e(2) assms(3)])
  then show ?thesis using e(1) assms(3) by (simp add: AesGCMDec_def aead_Open_def gcm_nonce_size_def)
qed

text \<open>A generated key set has right checksums and a usable AES-256 key; its RSA and ECDSA keys are the
  generated ones; it survives the PEM encoding; what is encrypted with it is decrypted.\<close>

theorem vital_keyset:
  assumes "keylib_ok lib" "GenerateVitalKeySet lib rg = Inr ks" "EncodeKeySet lib ks = Inr data"
    "\<And>bs. rg_read rg gcm_nonce_size = Inr bs \<Longrightarrow> length bs = gcm_nonce_size"
  shows "VerifyCrc ks \<and> length (AES256 ks) = 32 \<and> ks_Rsa lib ks = rg_rsa rg 4096 \<and> ks_Ecdsa lib ks = rg_ecdsa rg P521 \<and>
    ParseKeySet lib data = Inr ks \<and>
    (\<forall>p c n. AesGCMEnc lib rg ks p = Inr (c, n) \<longrightarrow> AesGCMDec lib ks c n = Done (Inr p))"
proof -
  obtain buf rsa ec kd pri pub where g: "rg_read rg 32 = Inr buf" "length buf = 32" "rg_rsa rg 4096 = Inr rsa"
    "rg_ecdsa rg P521 = Inr ec" "kl_ec_marshal lib ec = Inr kd" "rg_ed25519 rg = Inr (pri, pub)"
    and ks: "ks = CalculateCrc (zero_KeySet
         \<lparr>AES256 := buf, RSA4096 := kl_pem_encode lib ''RSA PRIVATE KEY'' (kl_pkcs1_marshal lib rsa),
          ECDSA_P521 := kl_pem_encode lib ''EC PRIVATE KEY'' kd, ED25519_PUB := pub, ED25519_PRI := pri\<rparr>)"
    using assms(2) unfolding GenerateVitalKeySet_def read_random_def
    by (auto simp: res_bind_Inr split: if_splits)
  have v: "VerifyCrc ks" unfolding ks by simp
  have f: "AES256 ks = buf" "RSA4096 ks = kl_pem_encode lib ''RSA PRIVATE KEY'' (kl_pkcs1_marshal lib rsa)"
    "ECDSA_P521 ks = kl_pem_encode lib ''EC PRIVATE KEY'' kd"
    unfolding ks by (simp_all add: CalculateCrc_def)
  have "ks_Rsa lib ks = rg_rsa rg 4096" "ks_Ecdsa lib ks = rg_ecdsa rg P521"
    using keylib_okD(1-3) [OF assms(1)] g by (simp_all add: ks_Rsa_def ks_Ecdsa_def f)
  moreover have "ParseKeySet lib data = Inr ks"
    using assms(3) keylib_okD(1,4) [OF assms(1)] v
    by (auto simp: EncodeKeySet_def ParseKeySet_def SaveAsBytes_def LoadFromBytes_def)
  moreover have "AesGCMDec lib ks c n = Done (Inr p)" if e: "AesGCMEnc lib rg ks p = Inr (c, n)" for p c n
  proof (rule AesGCMDec_Enc [OF assms(1) e])
    have "rg_read rg gcm_nonce_size = Inr n" using e by (auto simp: AesGCMEnc_def)
    then show "length n = 12" using assms(4) by (simp add: gcm_nonce_size_def)
  qed
  ultimately show ?thesis using v f(1) g(2) by auto
qed

definition demo_keyset :: KeySet where
  "demo_keyset = CalculateCrc (zero_KeySet\<lparr>AES256 := replicate 32 7, RSA4096 := [1], ECDSA_P521 := [2], ED25519_PUB := [3], ED25519_PRI := [4]\<rparr>)"

definition demo_keylib :: "bytes keylib" where
  "demo_keylib = \<lparr>kl_pem_encode = \<lambda>t d. d, kl_pem_decode = \<lambda>d. Some d, kl_pkcs1_marshal = \<lambda>k. k, kl_pkcs1_parse = \<lambda>d. Inr d,
     kl_ec_marshal = \<lambda>k. Inr k, kl_ec_parse = \<lambda>d. Inr d,
     kl_json_marshal = \<lambda>k. if k = demo_keyset then Inr [9] else Inl (Errorf []),
     kl_json_decode = \<lambda>d. if d = [9] then Inr demo_keyset else Inl (Errorf []),
     kl_seal = \<lambda>key nonce p a. hd key # p,
     kl_open = \<lambda>key nonce c a. if c = [] then Inl (Errorf []) else Inr (if hd c = hd key then tl c else 0 # tl c)\<rparr>"

definition demo_rng :: "bytes rng" where
  "demo_rng = \<lparr>rg_read = \<lambda>n. Inr (replicate n 7), rg_rsa = \<lambda>_. Inr [1], rg_ecdsa = \<lambda>_. Inr [2], rg_ed25519 = Inr ([4], [3])\<rparr>"

lemma demo_keylib_ok [simp]: "keylib_ok demo_keylib"
  by (auto simp: keylib_ok_def demo_keylib_def split: if_splits)

lemma demo_generate: "GenerateVitalKeySet demo_keylib demo_rng = Inr demo_keyset"
  by (simp add: GenerateVitalKeySet_def read_random_def demo_rng_def demo_keylib_def demo_keyset_def)

theorem vital_keyset_witness:
  "VerifyCrc demo_keyset \<and> length (AES256 demo_keyset) = 32 \<and> ks_Rsa demo_keylib demo_keyset = Inr [1] \<and>
   ParseKeySet demo_keylib [9] = Inr demo_keyset \<and>
   AesGCMEnc demo_keylib demo_rng demo_keyset [1, 2] = Inr ([7, 1, 2], replicate 12 7) \<and>
   AesGCMDec demo_keylib demo_keyset [7, 1, 2] (replicate 12 7) = Done (Inr [1, 2])"
proof -
  have "AesGCMEnc demo_keylib demo_rng demo_keyset [1, 2] = Inr ([7, 1, 2], replicate 12 7)"
    by (simp add: AesGCMEnc_def ks_Aes_def aes_NewCipher_def demo_keyset_def CalculateCrc_def demo_keylib_def demo_rng_def gcm_nonce_size_def)
  moreover have "EncodeKeySet demo_keylib demo_keyset = Inr [9]"
    by (simp add: EncodeKeySet_def SaveAsBytes_def demo_keylib_def)
  ultimately show ?thesis
    using vital_keyset [OF demo_keylib_ok demo_generate, of "[9]"] by (simp add: demo_rng_def)
qed

end
