(* ===== verification/Certs.thy ===== *)
theory Certs
  imports KeyTypes
begin

text \<open>
  Certificates (\<open>configure/secretapi\<close>: \<open>cert.go\<close>, \<open>cert.tool.go\<close>, the certificate part of
  \<open>pem.go\<close>): serial numbers as text, the templates the tool fills for the standard library, and the PEM
  encodings. \<open>crypto/x509\<close> is a record of functions.
\<close>

section \<open>Levels\<close>

type_synonym CertKeyLevel = int
type_synonym CertLevelType = int

definition CertKeyLevelUnseal :: CertKeyLevel where "CertKeyLevelUnseal = 1"
definition CertKeyLevelLevel1Rsa :: CertKeyLevel where "CertKeyLevelLevel1Rsa = 1001"
definition CertKeyLevelLevel1Ecdsa :: CertKeyLevel where "CertKeyLevelLevel1Ecdsa = 1002"
definition CertKeyLevelLevel2Rsa :: CertKeyLevel where "CertKeyLevelLevel2Rsa = 2001"
definition CertKeyLevelLevel2Ecdsa :: CertKeyLevel where "CertKeyLevelLevel2Ecdsa = 2002"
definition CertKeyLevelLevel2Custom :: CertKeyLevel where "CertKeyLevelLevel2Custom = 2999"
definition CertKeyLevelExternal :: CertKeyLevel where "CertKeyLevelExternal = 9001"

definition CertLevelTypeRootCA :: CertLevelType where "CertLevelTypeRootCA = 1"
definition CertLevelTypeIntermediateCA :: CertLevelType where "CertLevelTypeIntermediateCA = 2"
definition CertLevelTypeCert :: CertLevelType where "CertLevelTypeCert = 3"

lemmas cert_levels = CertKeyLevelUnseal_def CertKeyLevelLevel1Rsa_def CertKeyLevelLevel1Ecdsa_def
  CertKeyLevelLevel2Rsa_def CertKeyLevelLevel2Ecdsa_def CertKeyLevelLevel2Custom_def CertKeyLevelExternal_def

lemmas cert_types = CertLevelTypeRootCA_def CertLevelTypeIntermediateCA_def CertLevelTypeCert_def

record CertKeyInfo =
  ki_CertKeyLevel :: CertKeyLevel
  ki_CertKeyId :: string

section \<open>Serial numbers\<close>

text \<open>\<open>big.Int.Bytes\<close>: the absolute value, big-endian, without leading zeros.\<close>

fun nat_bytes :: "nat \<Rightarrow> bytes" where
  "nat_bytes n = (if n = 0 then [] else nat_bytes (n div 256) @ [word_of_nat (n mod 256)])"

declare nat_bytes.simps [simp del]

definition big_Bytes :: "int \<Rightarrow> bytes" where
  "big_Bytes i = nat_bytes (nat \<bar>i\<bar>)"

type_synonym CertSerialNumber = string

definition ToBigInt :: "CertSerialNumber \<Rightarrow> int res" where
  "ToBigInt s = res_bind (hex_decode s) (\<lambda>data. Inr (int (be_nat data)))"

definition sn_FromInt64 :: "int64 \<Rightarrow> CertSerialNumber" where
  "sn_FromInt64 n = hex_encode (big_Bytes (sint n))"

definition sn_FromBytes :: "bytes \<Rightarrow> CertSerialNumber" where
  "sn_FromBytes data = hex_encode data"

definition sn_FromBigInt :: "int \<Rightarrow> CertSerialNumber" where
  "sn_FromBigInt i = sn_FromBytes (big_Bytes i)"

lemma be_nat_nat_bytes [simp]: "be_nat (nat_bytes n) = n"
proof (induction n rule: nat_bytes.induct)
  case (1 n)
  show ?case
  proof (cases "n = 0")
    case True
    then show ?thesis by (subst nat_bytes.simps) (simp add: be_nat_def)
  next
    case False
    have "be_nat (nat_bytes n) = be_nat (nat_bytes (n div 256)) * 256 + n mod 256"
      using False by (subst nat_bytes.simps) (simp add: be_nat_def)
    with 1 False show ?thesis by simp
  qed
qed

lemma nat_bytes_Nil [simp]: "nat_bytes n = [] \<longleftrightarrow> n = 0"
  by (subst nat_bytes.simps) simp

lemma ToBigInt_FromBigInt: "ToBigInt (sn_FromBigInt i) = Inr \<bar>i\<bar>"
  by (simp add: ToBigInt_def sn_FromBigInt_def sn_FromBytes_def big_Bytes_def hex_decode_encode)

lemma sn_inj: "sn_FromBigInt i = sn_FromBigInt j \<Longrightarrow> \<bar>i\<bar> = \<bar>j\<bar>"
  using ToBigInt_FromBigInt [of i] ToBigInt_FromBigInt [of j] by simp

lemma hex_encode_Nil: "hex_encode bs = [] \<longleftrightarrow> bs = []"
  by (cases bs) auto

lemma sn_empty: "sn_FromBigInt i = [] \<longleftrightarrow> i = 0"
  by (simp add: sn_FromBigInt_def sn_FromBytes_def big_Bytes_def hex_encode_Nil)

section \<open>The standard library\<close>

record pkix_name =
  pn_Country :: "string list"
  pn_Organization :: "string list"
  pn_Locality :: "string list"
  pn_Province :: "string list"
  pn_StreetAddress :: "string list"
  pn_PostalCode :: "string list"
  pn_CommonName :: string

type_synonym KeyUsage = int64
type_synonym ExtKeyUsage = int64

definition KeyUsageDigitalSignature :: KeyUsage where "KeyUsageDigitalSignature = 1"
definition KeyUsageContentCommitment :: KeyUsage where "KeyUsageContentCommitment = 2"
definition KeyUsageKeyEncipherment :: KeyUsage where "KeyUsageKeyEncipherment = 4"
definition KeyUsageDataEncipherment :: KeyUsage where "KeyUsageDataEncipherment = 8"
definition KeyUsageKeyAgreement :: KeyUsage where "KeyUsageKeyAgreement = 16"
definition KeyUsageCertSign :: KeyUsage where "KeyUsageCertSign = 32"
definition KeyUsageCRLSign :: KeyUsage where "KeyUsageCRLSign = 64"
definition ExtKeyUsageServerAuth :: ExtKeyUsage where "ExtKeyUsageServerAuth = 1"
definition ExtKeyUsageClientAuth :: ExtKeyUsage where "ExtKeyUsageClientAuth = 2"

text \<open>The fields of a certificate that the code reads or fills; a time is its nanoseconds since the epoch.\<close>

record Certificate =
  xc_Raw :: bytes
  xc_SerialNumber :: int
  xc_Subject :: pkix_name
  xc_NotBefore :: int
  xc_NotAfter :: int
  xc_Version :: int
  xc_IsCA :: bool
  xc_BasicConstraintsValid :: bool
  xc_KeyUsage :: KeyUsage
  xc_ExtKeyUsage :: "ExtKeyUsage list"
  xc_MaxPathLen :: int
  xc_MaxPathLenZero :: bool
  xc_DNSNames :: "string list"
  xc_EmailAddresses :: "string list"
  xc_IPAddresses :: "bytes list"
  xc_URIs :: "string list"

record 'pub CertificateRequest =
  xr_Raw :: bytes
  xr_Subject :: pkix_name
  xr_DNSNames :: "string list"
  xr_EmailAddresses :: "string list"
  xr_IPAddresses :: "bytes list"
  xr_URIs :: "string list"
  xr_Version :: int
  xr_PublicKey :: "'pub option"         \<comment> \<open>nil in a template\<close>

text \<open>Creation yields DER bytes, or an error of the library; the signer draws its own randomness.\<close>

record ('pk, 'pub) x509lib =
  xl_create_cert :: "Certificate \<Rightarrow> Certificate \<Rightarrow> 'pub option \<Rightarrow> 'pk \<Rightarrow> bytes res"  \<comment> \<open>template, parent, key, signer\<close>
  xl_parse_cert :: "bytes \<Rightarrow> Certificate res"
  xl_create_req :: "'pub CertificateRequest \<Rightarrow> 'pk \<Rightarrow> bytes res"
  xl_parse_req :: "bytes \<Rightarrow> 'pub CertificateRequest res"
  xl_public :: "'pk \<Rightarrow> 'pub"
  xl_parse_ip :: "string \<Rightarrow> bytes option"

section \<open>The certificate tool\<close>

record ('pk, 'pub) CertKeyPair =
  kp_PrivateKey :: 'pk
  kp_PublicKey :: 'pub

definition FromPrivateKey :: "('pk, 'pub) x509lib \<Rightarrow> 'pk \<Rightarrow> ('pk, 'pub) CertKeyPair" where
  "FromPrivateKey xl pri = \<lparr>kp_PrivateKey = pri, kp_PublicKey = xl_public xl pri\<rparr>"

record CACertReq =
  ca_SerialNumber :: int
  ca_CommonName :: string
  ca_Organization :: string
  ca_Country :: string
  ca_Province :: string
  ca_Locality :: string
  ca_StreetAddress :: string
  ca_PostalCode :: string
  ca_StartTime :: int
  ca_ExpireTime :: int
  ca_Version :: int

definition ca_Duration :: "int64 \<Rightarrow> CACertReq \<Rightarrow> CACertReq" where
  "ca_Duration duration k = k\<lparr>ca_ExpireTime := ca_StartTime k + sint duration\<rparr>"

record CertReq =
  cq_CommonName :: string
  cq_Organization :: string
  cq_Country :: string
  cq_Province :: string
  cq_Locality :: string
  cq_StreetAddress :: string
  cq_PostalCode :: string
  cq_DNSNames :: "string list"
  cq_EmailAddresses :: "string list"
  cq_IPAddresses :: "bytes list"
  cq_URLs :: "string list"

record ('pk, 'pub) CertMeta =
  cm_SerialNumber :: int
  cm_StartTime :: int
  cm_ExpireTime :: int
  cm_Version :: int
  cm_SignerCert :: Certificate
  cm_Signer :: "('pk, 'pub) CertKeyPair"

definition cm_Duration :: "int64 \<Rightarrow> ('pk, 'pub) CertMeta \<Rightarrow> ('pk, 'pub) CertMeta" where
  "cm_Duration duration m = m\<lparr>cm_ExpireTime := cm_StartTime m + sint duration\<rparr>"

record CertTool =
  EndUserCertKeyUsage :: KeyUsage
  EndUserCertExtKeyUsage :: "ExtKeyUsage list"

definition SetupDefaultServerCertKeyUsage :: "CertTool \<Rightarrow> CertTool" where
  "SetupDefaultServerCertKeyUsage c =
     c\<lparr>EndUserCertKeyUsage := KeyUsageDigitalSignature OR KeyUsageKeyEncipherment OR KeyUsageDataEncipherment OR KeyUsageKeyAgreement,
       EndUserCertExtKeyUsage := [ExtKeyUsageServerAuth]\<rparr>"

definition SetupDefaultClientCertKeyUsage :: "CertTool \<Rightarrow> CertTool" where
  "SetupDefaultClientCertKeyUsage c =
     c\<lparr>EndUserCertKeyUsage := KeyUsageDigitalSignature OR KeyUsageKeyEncipherment OR KeyUsageContentCommitment
         OR KeyUsageDataEncipherment OR KeyUsageKeyAgreement,
       EndUserCertExtKeyUsage := [ExtKeyUsageClientAuth]\<rparr>"

definition SetupDefaultBothCertKeyUsage :: "CertTool \<Rightarrow> CertTool" where
  "SetupDefaultBothCertKeyUsage c =
     c\<lparr>EndUserCertKeyUsage := KeyUsageDigitalSignature OR KeyUsageKeyEncipherment OR KeyUsageContentCommitment
         OR KeyUsageDataEncipherment OR KeyUsageKeyAgreement,
       EndUserCertExtKeyUsage := [ExtKeyUsageClientAuth, ExtKeyUsageServerAuth]\<rparr>"

text \<open>A missing CA certificate makes the new one self-signed.\<close>

definition createCACert ::
  "('pk, 'pub) x509lib \<Rightarrow> CACertReq \<Rightarrow> Certificate option \<Rightarrow> ('pk, 'pub) CertKeyPair \<Rightarrow> ('pk, 'pub) CertKeyPair \<Rightarrow> int \<Rightarrow> Certificate res" where
  "createCACert xl req caCert certKeyPair signerKeyPair maxPath =
     (let cert =
        \<lparr>xc_Raw = [], xc_SerialNumber = ca_SerialNumber req,
         xc_Subject = \<lparr>pn_Country = [ca_Country req], pn_Organization = [ca_Organization req], pn_Locality = [ca_Locality req],
           pn_Province = [ca_Province req], pn_StreetAddress = [ca_StreetAddress req], pn_PostalCode = [ca_PostalCode req],
           pn_CommonName = ca_CommonName req\<rparr>,
         xc_NotBefore = ca_StartTime req, xc_NotAfter = ca_ExpireTime req, xc_Version = ca_Version req, xc_IsCA = True,
         xc_BasicConstraintsValid = True, xc_KeyUsage = KeyUsageCertSign OR KeyUsageCRLSign OR KeyUsageDigitalSignature,
         xc_ExtKeyUsage = [], xc_MaxPathLen = (if maxPath = -1 then 0 else maxPath), xc_MaxPathLenZero = (maxPath = 0),
         xc_DNSNames = [], xc_EmailAddresses = [], xc_IPAddresses = [], xc_URIs = []\<rparr>;
        caCert = (case caCert of None \<Rightarrow> cert | Some c \<Rightarrow> c)
      in res_bind (xl_create_cert xl cert caCert (Some (kp_PublicKey certKeyPair)) (kp_PrivateKey signerKeyPair)) (xl_parse_cert xl))"

definition CreateRootCACertificate :: "('pk, 'pub) x509lib \<Rightarrow> CACertReq \<Rightarrow> ('pk, 'pub) CertKeyPair \<Rightarrow> Certificate res" where
  "CreateRootCACertificate xl req keyPair = createCACert xl req None keyPair keyPair (-1)"

definition CreateIntermediateCACertificate ::
  "('pk, 'pub) x509lib \<Rightarrow> CACertReq \<Rightarrow> Certificate \<Rightarrow> ('pk, 'pub) CertKeyPair \<Rightarrow> ('pk, 'pub) CertKeyPair \<Rightarrow> Certificate res" where
  "CreateIntermediateCACertificate xl req ca caKeyPair curKeyPair = createCACert xl req (Some ca) curKeyPair caKeyPair 0"

definition CreateCertificateRequest ::
  "('pk, 'pub) x509lib \<Rightarrow> CertReq \<Rightarrow> ('pk, 'pub) CertKeyPair \<Rightarrow> 'pub CertificateRequest res" where
  "CreateCertificateRequest xl req curKeyPair =
     res_bind (xl_create_req xl
        \<lparr>xr_Raw = [],
         xr_Subject = \<lparr>pn_Country = [cq_Country req], pn_Organization = [cq_Organization req], pn_Locality = [cq_Locality req],
           pn_Province = [cq_Province req], pn_StreetAddress = [cq_StreetAddress req], pn_PostalCode = [cq_PostalCode req],
           pn_CommonName = cq_CommonName req\<rparr>,
         xr_DNSNames = cq_DNSNames req, xr_EmailAddresses = cq_EmailAddresses req, xr_IPAddresses = cq_IPAddresses req,
         xr_URIs = cq_URLs req, xr_Version = 0, xr_PublicKey = None\<rparr> (kp_PrivateKey curKeyPair)) (xl_parse_req xl)"

text \<open>The template of an end-user certificate.\<close>

definition cert_template :: "CertTool \<Rightarrow> 'pub CertificateRequest \<Rightarrow> ('pk, 'pub) CertMeta \<Rightarrow> Certificate" where
  "cert_template c req meta =
     \<lparr>xc_Raw = [], xc_SerialNumber = cm_SerialNumber meta, xc_Subject = xr_Subject req, xc_NotBefore = cm_StartTime meta,
      xc_NotAfter = cm_ExpireTime meta, xc_Version = xr_Version req, xc_IsCA = False, xc_BasicConstraintsValid = True,
      xc_KeyUsage = EndUserCertKeyUsage c, xc_ExtKeyUsage = EndUserCertExtKeyUsage c, xc_MaxPathLen = 0, xc_MaxPathLenZero = False,
      xc_DNSNames = xr_DNSNames req, xc_EmailAddresses = xr_EmailAddresses req, xc_IPAddresses = xr_IPAddresses req, xc_URIs = xr_URIs req\<rparr>"

definition CreateCertificate ::
  "('pk, 'pub) x509lib \<Rightarrow> CertTool \<Rightarrow> 'pub CertificateRequest \<Rightarrow> ('pk, 'pub) CertMeta \<Rightarrow> Certificate res" where
  "CreateCertificate xl c req meta =
     res_bind (xl_create_cert xl (cert_template c req meta) (cm_SignerCert meta) (xr_PublicKey req) (kp_PrivateKey (cm_Signer meta)))
       (xl_parse_cert xl)"

section \<open>PEM\<close>

definition EncodeCertificateRequest :: "'pk keylib \<Rightarrow> bytes \<Rightarrow> bytes res" where
  "EncodeCertificateRequest lib csr = Inr (kl_pem_encode lib ''CERTIFICATE REQUEST'' csr)"

definition ParseCertificateRequest :: "'pk keylib \<Rightarrow> ('pk, 'pub) x509lib \<Rightarrow> bytes \<Rightarrow> 'pub CertificateRequest res" where
  "ParseCertificateRequest lib xl pemData =
     (case kl_pem_decode lib pemData of
        None \<Rightarrow> Inl (Errorf ''pem decode failed'')
      | Some block \<Rightarrow> xl_parse_req xl block)"

definition EncodeCertificateRevocationList :: "'pk keylib \<Rightarrow> bytes \<Rightarrow> bytes res" where
  "EncodeCertificateRevocationList lib csr = Inr (kl_pem_encode lib ''X509 CRL'' csr)"

definition EncodeCertificate :: "'pk keylib \<Rightarrow> Certificate \<Rightarrow> bytes res" where
  "EncodeCertificate lib cert = Inr (kl_pem_encode lib ''CERTIFICATE'' (xc_Raw cert))"

definition ParseCertificate :: "'pk keylib \<Rightarrow> ('pk, 'pub) x509lib \<Rightarrow> bytes \<Rightarrow> Certificate res" where
  "ParseCertificate lib xl data =
     (case kl_pem_decode lib data of
        None \<Rightarrow> Inl (Errorf ''failed to decode PEM block'')
      | Some block \<Rightarrow> xl_parse_cert xl block)"

section \<open>Laws\<close>

text \<open>
  What the library's documentation promises: a parsed certificate keeps the bytes it was parsed from, and a
  certificate that was created has the template's serial number, names and usages; serial numbers are not negative.
\<close>

definition x509_ok :: "('pk, 'pub) x509lib \<Rightarrow> bool" where
  "x509_ok xl \<longleftrightarrow>
     (\<forall>der c. xl_parse_cert xl der = Inr c \<longrightarrow> xc_Raw c = der) \<and>
     (\<forall>t par pub k der c. xl_create_cert xl t par pub k = Inr der \<longrightarrow> xl_parse_cert xl der = Inr c \<longrightarrow>
        0 \<le> xc_SerialNumber t \<and> xc_SerialNumber c = xc_SerialNumber t \<and> xc_Subject c = xc_Subject t \<and> xc_DNSNames c = xc_DNSNames t \<and>
        xc_KeyUsage c = xc_KeyUsage t \<and> xc_ExtKeyUsage c = xc_ExtKeyUsage t \<and> xc_IsCA c = xc_IsCA t)"

text \<open>A certificate that the library has parsed, with its own bytes.\<close>

definition parsed :: "('pk, 'pub) x509lib \<Rightarrow> Certificate \<Rightarrow> bool" where
  "parsed xl c \<longleftrightarrow> xl_parse_cert xl (xc_Raw c) = Inr c"

lemma parsed_parse: "x509_ok xl \<Longrightarrow> xl_parse_cert xl der = Inr c \<Longrightarrow> parsed xl c"
  unfolding x509_ok_def parsed_def by metis

lemma ParseCertificate_Encode:
  assumes "keylib_ok lib" "parsed xl c" "EncodeCertificate lib c = Inr d"
  shows "ParseCertificate lib xl d = Inr c"
  using assms keylib_okD(1) [OF assms(1)] by (auto simp: EncodeCertificate_def ParseCertificate_def parsed_def)

lemma CreateCertificate_ok:
  assumes "x509_ok xl" "CreateCertificate xl ct req meta = Inr c"
  shows "parsed xl c" "xc_SerialNumber c = cm_SerialNumber meta" "0 \<le> xc_SerialNumber c"
    "xc_Subject c = xr_Subject req" "xc_DNSNames c = xr_DNSNames req" "xc_KeyUsage c = EndUserCertKeyUsage ct"
    "xc_ExtKeyUsage c = EndUserCertExtKeyUsage ct" "\<not> xc_IsCA c"
proof -
  obtain der where d: "xl_create_cert xl (cert_template ct req meta) (cm_SignerCert meta) (xr_PublicKey req) (kp_PrivateKey (cm_Signer meta)) = Inr der"
    "xl_parse_cert xl der = Inr c"
    using assms(2) unfolding CreateCertificate_def by auto
  show "parsed xl c" by (rule parsed_parse [OF assms(1) d(2)])
  have "0 \<le> xc_SerialNumber (cert_template ct req meta) \<and> xc_SerialNumber c = xc_SerialNumber (cert_template ct req meta) \<and>
      xc_Subject c = xc_Subject (cert_template ct req meta) \<and> xc_DNSNames c = xc_DNSNames (cert_template ct req meta) \<and>
      xc_KeyUsage c = xc_KeyUsage (cert_template ct req meta) \<and> xc_ExtKeyUsage c = xc_ExtKeyUsage (cert_template ct req meta) \<and>
      xc_IsCA c = xc_IsCA (cert_template ct req meta)"
    using assms(1) d unfolding x509_ok_def by blast
  then show "xc_SerialNumber c = cm_SerialNumber meta" "0 \<le> xc_SerialNumber c" "xc_Subject c = xr_Subject req"
    "xc_DNSNames c = xr_DNSNames req" "xc_KeyUsage c = EndUserCertKeyUsage ct" "xc_ExtKeyUsage c = EndUserCertExtKeyUsage ct" "\<not> xc_IsCA c"
    by (simp_all add: cert_template_def)
qed

end
