(* ===== verification/Unseal.thy ===== *)
theory Unseal
  imports KeyTypes
begin

text \<open>
  Sealed data: the helpers of the key storage (\<open>configure/secretimpl/secret.pg.utils.go\<close>), the
  interface of an unseal provider (\<open>secretapi/unseal.go\<close>) and the provider that reads its key
  sets from files (\<open>configure/secret/unseal.local.go\<close>).
\<close>

section \<open>Bytes and strings\<close>

definition bytes_of :: "string \<Rightarrow> bytes" where
  "bytes_of s = map (\<lambda>c. word_of_nat (of_char c)) s"

definition string_of :: "bytes \<Rightarrow> string" where
  "string_of bs = map (\<lambda>b. char_of (unat b)) bs"

lemma string_of_bytes_of [simp]: "string_of (bytes_of s) = s"
proof -
  have "unat (word_of_nat (of_char c) :: byte) = of_char c" for c :: char
    by (simp add: unat_of_nat take_bit_eq_mod [symmetric])
  then show ?thesis by (simp add: string_of_def bytes_of_def comp_def)
qed

lemma bytes_of_string_of [simp]: "bytes_of (string_of bs) = bs"
proof -
  have "(of_char (char_of (unat b) :: char) :: nat) = unat b" for b :: byte
    using unat_byte_less [of b] by simp
  then show ?thesis by (simp add: string_of_def bytes_of_def comp_def)
qed

text \<open>Binding for calls that may panic and may return an error.\<close>

definition rr_bind :: "'a res run \<Rightarrow> ('a \<Rightarrow> 'b res run) \<Rightarrow> 'b res run" where
  "rr_bind m f = run_bind m (\<lambda>r. case r of Inl e \<Rightarrow> Done (Inl e) | Inr x \<Rightarrow> f x)"

lemma rr_bind_simps [simp]:
  "rr_bind (Done (Inr x)) f = f x" "rr_bind (Done (Inl e)) f = Done (Inl e)"
  "rr_bind Panic f = Panic" "rr_bind Block f = Block"
  by (simp_all add: rr_bind_def)

lemma rr_bind_Inr: "rr_bind m f = Done (Inr y) \<longleftrightarrow> (\<exists>x. m = Done (Inr x) \<and> f x = Done (Inr y))"
  by (cases m; cases "case m of Done r \<Rightarrow> r | _ \<Rightarrow> Inl (Errorf [])") (auto simp: rr_bind_def split: sum.splits)

section \<open>Helpers of the key storage\<close>

definition TokenName :: string where "TokenName = ''secret_token''"
definition DefaultTokenString :: string where "DefaultTokenString = ''secret/default_token''"

definition checkAvailableKeyName :: "string \<Rightarrow> unit res" where
  "checkAvailableKeyName name = (if name = TokenName then Inl (Errorf ''cannot use token name'') else Inr ())"

definition checkRotateLevel2Key :: "KeyType \<Rightarrow> KeyType \<Rightarrow> unit res" where
  "checkRotateLevel2Key keyType expectedKeyType =
     (if keyType = 0 then Inl (Errorf ''key type is 0'')
      else if keyType \<noteq> expectedKeyType then Inl (Errorf ''key type mismatch'')
      else Inr ())"

definition dataEncryptByL1 :: "'pk keylib \<Rightarrow> 'pk rng \<Rightarrow> bytes \<Rightarrow> int64 \<Rightarrow> KeySet \<Rightarrow> bytes res" where
  "dataEncryptByL1 lib rg data i lv1Ks =
     res_bind (AesGCMEnc lib rg lv1Ks data) (\<lambda>(ciphertext, nonce).
       Inr (bytes_of (envelope_format b64_encode i ciphertext nonce)))"

definition dataDecryptByL1 :: "'pk keylib \<Rightarrow> bytes \<Rightarrow> KeySet \<Rightarrow> (int64 \<times> bytes) res run" where
  "dataDecryptByL1 lib data lv1Ks =
     (case envelope_scan ''invalid cipher data'' b64_decode (string_of data) of
        Inl e \<Rightarrow> Done (Inl e)
      | Inr (keyId, ciphertext, nonce) \<Rightarrow>
          rr_bind (AesGCMDec lib lv1Ks ciphertext nonce) (\<lambda>plaintext. Done (Inr (keyId, plaintext))))"

definition keySetEncryptByL1 :: "'pk keylib \<Rightarrow> 'pk rng \<Rightarrow> KeySet \<Rightarrow> int64 \<Rightarrow> KeySet \<Rightarrow> bytes res" where
  "keySetEncryptByL1 lib rg keySet i lv1Ks =
     res_bind (kl_json_marshal lib keySet) (\<lambda>data.
     res_bind (AesGCMEnc lib rg lv1Ks data) (\<lambda>(ciphertext, nonce).
       Inr (bytes_of (envelope_format b64_encode i ciphertext nonce))))"

definition keySetDecryptByL1 :: "'pk keylib \<Rightarrow> bytes \<Rightarrow> KeySet \<Rightarrow> (int64 \<times> KeySet) res run" where
  "keySetDecryptByL1 lib data lv1Ks =
     (case envelope_scan ''invalid cipher data'' b64_decode (string_of data) of
        Inl e \<Rightarrow> Done (Inl e)
      | Inr (keyId, ciphertext, nonce) \<Rightarrow>
          rr_bind (AesGCMDec lib lv1Ks ciphertext nonce) (\<lambda>plaintext.
            Done (res_bind (kl_json_decode lib plaintext) (\<lambda>keySet. Inr (keyId, keySet)))))"

section \<open>Unseal providers\<close>

record UnsealResponse =
  ur_Selector :: string
  ur_Token :: string

text \<open>The interface \<open>UnsealProvider\<close>.\<close>

record 'pk unseal_provider =
  up_Wait :: "string \<Rightarrow> UnsealResponse res run"
  up_Encrypt :: "'pk rng \<Rightarrow> bytes \<Rightarrow> (bytes \<times> string) res"
  up_Decrypt :: "bytes \<Rightarrow> bytes res run"

definition keySetEncrypt :: "'pk keylib \<Rightarrow> 'pk rng \<Rightarrow> KeySet \<Rightarrow> 'pk unseal_provider \<Rightarrow> (bytes \<times> string) res" where
  "keySetEncrypt lib rg keySet up = res_bind (kl_json_marshal lib keySet) (\<lambda>rawData. up_Encrypt up rg rawData)"

definition keySetDecrypt :: "'pk keylib \<Rightarrow> bytes \<Rightarrow> 'pk unseal_provider \<Rightarrow> KeySet res run" where
  "keySetDecrypt lib data up = rr_bind (up_Decrypt up data) (\<lambda>rawData. Done (kl_json_decode lib rawData))"

record LocalFileUnsealProvider =
  lp_keySets :: "(int64, KeySet) gomap"
  lp_latestKeyId :: int64
  lp_latestKey :: KeySet

text \<open>
  \<open>NewLocalFileUnsealProvider\<close>: the mapping from key ids to files in the order the map is
  iterated; the files are read by a function. \<open>slices.Max\<close> of no keys panics.
\<close>

fun load_key_files ::
  "'pk keylib \<Rightarrow> (string \<Rightarrow> bytes res) \<Rightarrow> (int64, string) gomap \<Rightarrow> (int64, KeySet) gomap \<Rightarrow> (int64, KeySet) gomap res" where
  "load_key_files lib read [] keySets = Inr keySets"
| "load_key_files lib read ((keyId, filePath) # rest) keySets =
     res_bind (read filePath) (\<lambda>data.
     res_bind (LoadFromBytes lib data) (\<lambda>keySet.
       if \<not> VerifyCrc keySet then Inl (Errorf ''keySet does not have the expected crc'')
       else load_key_files lib read rest (AList.update keyId keySet keySets)))"

definition NewLocalFileUnsealProvider ::
  "'pk keylib \<Rightarrow> (string \<Rightarrow> bytes res) \<Rightarrow> (int64, string) gomap \<Rightarrow> LocalFileUnsealProvider res run" where
  "NewLocalFileUnsealProvider lib read keyFileMapping =
     (case load_key_files lib read keyFileMapping [] of
        Inl e \<Rightarrow> Done (Inl e)
      | Inr keySets \<Rightarrow>
          if keySets = [] then Panic
          else
            let maxKeyId = word_of_int (Max (set (map (sint \<circ> fst) keySets)))
            in Done (Inr \<lparr>lp_keySets = keySets, lp_latestKeyId = maxKeyId,
                 lp_latestKey = the (map_of keySets maxKeyId)\<rparr>))"

definition formatEncryptedData :: "int64 \<Rightarrow> bytes \<Rightarrow> bytes \<Rightarrow> string" where
  "formatEncryptedData keyId data nonce = envelope_format hex_encode keyId data nonce"

definition scanEncryptedData :: "string \<Rightarrow> (int64 \<times> bytes \<times> bytes) res" where
  "scanEncryptedData str = envelope_scan ''invalid encrypted data and nonce'' hex_decode str"

definition UseKeyId :: "LocalFileUnsealProvider \<Rightarrow> string" where
  "UseKeyId l = FormatInt (sint (lp_latestKeyId l))"

definition lp_Encrypt :: "'pk keylib \<Rightarrow> LocalFileUnsealProvider \<Rightarrow> 'pk rng \<Rightarrow> bytes \<Rightarrow> (bytes \<times> string) res" where
  "lp_Encrypt lib l rg plaintext =
     res_bind (AesGCMEnc lib rg (lp_latestKey l) plaintext) (\<lambda>(encData, nonce).
       Inr (bytes_of (formatEncryptedData (lp_latestKeyId l) encData nonce), UseKeyId l))"

definition decryptInternal :: "'pk keylib \<Rightarrow> LocalFileUnsealProvider \<Rightarrow> bytes \<Rightarrow> (bytes \<times> int64) res run" where
  "decryptInternal lib l ciphertext =
     (case scanEncryptedData (string_of ciphertext) of
        Inl e \<Rightarrow> Done (Inl e)
      | Inr (keyId, data, nonce) \<Rightarrow>
          (case map_of (lp_keySets l) keyId of
             None \<Rightarrow> Done (Inl (Errorf ''no recent KeySet provided for decrypting token''))
           | Some keyset \<Rightarrow> rr_bind (AesGCMDec lib keyset data nonce) (\<lambda>result. Done (Inr (result, keyId)))))"

definition lp_Decrypt :: "'pk keylib \<Rightarrow> LocalFileUnsealProvider \<Rightarrow> bytes \<Rightarrow> bytes res run" where
  "lp_Decrypt lib l ciphertext = rr_bind (decryptInternal lib l ciphertext) (\<lambda>(result, _). Done (Inr result))"

definition WaitUnsealOperation :: "'pk keylib \<Rightarrow> LocalFileUnsealProvider \<Rightarrow> string \<Rightarrow> UnsealResponse res run" where
  "WaitUnsealOperation lib l encToken =
     (if encToken = [] then Done (Inr \<lparr>ur_Selector = [], ur_Token = []\<rparr>)
      else if lp_keySets l = [] then Done (Inl (Errorf ''no secret unseal''))
      else rr_bind (decryptInternal lib l (bytes_of encToken)) (\<lambda>(plaintext, keyId).
             Done (Inr \<lparr>ur_Selector = FormatInt (sint keyId), ur_Token = string_of plaintext\<rparr>)))"

text \<open>The file provider as an unseal provider.\<close>

definition local_provider :: "'pk keylib \<Rightarrow> LocalFileUnsealProvider \<Rightarrow> 'pk unseal_provider" where
  "local_provider lib l =
     \<lparr>up_Wait = WaitUnsealOperation lib l, up_Encrypt = lp_Encrypt lib l, up_Decrypt = lp_Decrypt lib l\<rparr>"

section \<open>Lemmas\<close>

definition rng_ok :: "'pk rng \<Rightarrow> bool" where
  "rng_ok rg \<longleftrightarrow> (\<forall>n bs. rg_read rg n = Inr bs \<longrightarrow> length bs = n)"

lemma AesGCM_roundtrip:
  assumes "keylib_ok lib" "rng_ok rg" "AesGCMEnc lib rg k p = Inr (c, n)"
  shows "AesGCMDec lib k c n = Done (Inr p)"
proof (rule AesGCMDec_Enc [OF assms(1,3)])
  have "rg_read rg gcm_nonce_size = Inr n" using assms(3) by (auto simp: AesGCMEnc_def)
  with assms(2) show "length n = 12" by (auto simp: rng_ok_def gcm_nonce_size_def)
qed

lemma dataDecryptByL1_Encrypt:
  assumes "keylib_ok lib" "rng_ok rg" "dataEncryptByL1 lib rg data i ks = Inr enc"
  shows "dataDecryptByL1 lib enc ks = Done (Inr (i, data))"
  using assms(3) AesGCM_roundtrip [OF assms(1,2), of ks data]
  by (auto simp: dataEncryptByL1_def dataDecryptByL1_def b64.envelope_roundtrip)

lemma keySetDecryptByL1_Encrypt:
  assumes "keylib_ok lib" "rng_ok rg" "VerifyCrc keySet" "keySetEncryptByL1 lib rg keySet i ks = Inr enc"
  shows "keySetDecryptByL1 lib enc ks = Done (Inr (i, keySet))"
  using assms(3,4) AesGCM_roundtrip [OF assms(1,2), of ks] keylib_okD(4) [OF assms(1)]
  by (auto simp: keySetEncryptByL1_def keySetDecryptByL1_def b64.envelope_roundtrip)

text \<open>A provider whose latest key is the one its table holds.\<close>

definition lp_ok :: "LocalFileUnsealProvider \<Rightarrow> bool" where
  "lp_ok l \<longleftrightarrow> map_of (lp_keySets l) (lp_latestKeyId l) = Some (lp_latestKey l)"

lemma lp_Decrypt_Encrypt:
  assumes "keylib_ok lib" "rng_ok rg" "lp_ok l" "lp_Encrypt lib l rg p = Inr (c, u)"
  shows "decryptInternal lib l c = Done (Inr (p, lp_latestKeyId l)) \<and> lp_Decrypt lib l c = Done (Inr p) \<and> u = UseKeyId l"
  using assms(3,4) AesGCM_roundtrip [OF assms(1,2), of "lp_latestKey l" p]
  by (auto simp: lp_Encrypt_def lp_Decrypt_def decryptInternal_def formatEncryptedData_def scanEncryptedData_def
      hex.envelope_roundtrip lp_ok_def)

lemma load_key_files_Inr:
  "load_key_files lib read m ks0 = Inr ks \<Longrightarrow> fst ` set ks = fst ` set ks0 \<union> fst ` set m"
proof (induction m arbitrary: ks0)
  case (Cons p m)
  obtain i f where p: "p = (i, f)" by (cases p)
  from Cons.prems obtain k where "load_key_files lib read m (AList.update i k ks0) = Inr ks"
    unfolding p by (auto split: if_splits)
  from Cons.IH [OF this] show ?case unfolding p by (simp add: dom_update)
qed simp

lemma NewLocalFileUnsealProvider_ok:
  assumes "NewLocalFileUnsealProvider lib read m = Done (Inr l)"
  shows "lp_ok l \<and> (\<forall>i \<in> fst ` set m. sint i \<le> sint (lp_latestKeyId l)) \<and> lp_latestKeyId l \<in> fst ` set m"
proof -
  obtain ks where ks: "load_key_files lib read m [] = Inr ks" and ne: "ks \<noteq> []"
    and l: "l = \<lparr>lp_keySets = ks, lp_latestKeyId = word_of_int (Max (set (map (sint \<circ> fst) ks))),
         lp_latestKey = the (map_of ks (word_of_int (Max (set (map (sint \<circ> fst) ks)))))\<rparr>"
    using assms by (auto simp: NewLocalFileUnsealProvider_def Let_def split: sum.splits if_splits)
  let ?S = "set (map (sint \<circ> fst) ks)"
  have S: "finite ?S" "?S \<noteq> {}" using ne by auto
  have dom: "fst ` set ks = fst ` set m" using load_key_files_Inr [OF ks] by simp
  from Max_in [OF S] obtain i f where i: "(i, f) \<in> set ks" "Max ?S = sint i" by auto
  have mx: "lp_latestKeyId l = i" unfolding l i(2) by simp
  have im: "i \<in> fst ` set ks" using i(1) by force
  then obtain k where "map_of ks i = Some k" by (metis map_of_eq_None_iff not_None_eq)
  moreover have "lp_keySets l = ks" "lp_latestKey l = the (map_of ks i)" unfolding l i(2) by simp_all
  ultimately have "lp_ok l" using mx unfolding lp_ok_def by simp
  moreover have "sint j \<le> sint i" if "j \<in> fst ` set m" for j
  proof -
    have "sint j \<in> ?S" using that dom by force
    then show ?thesis using Max_ge [OF S(1)] i(2) by metis
  qed
  ultimately show ?thesis using mx im dom by auto
qed

end
