(* ===== verification/KeyTable.thy ===== *)
theory KeyTable
  imports Unseal
begin

text \<open>
  The two key tables of the secret database (\<open>configure/secretimpl/ddl_pg.sql\<close>) and what a
  rotation does to them: a row of the next version is inserted and the older versions of the
  name become read-only. The columns both tables share are one record, which the rows of each
  table extend, so that the lemmas about rotation hold for both.
\<close>

record key_row =
  k_id :: int
  k_name :: string
  k_version :: int
  k_status :: int          \<comment> \<open>0 valid, 1 decrypt only\<close>
  k_encrypted :: bytes
  k_expired :: int
  k_created :: int64
  k_updated :: int64

record l1_row = key_row +
  k_use_provider :: string

record l2_row = key_row +
  k_use_l1 :: int
  k_type :: string

text \<open>\<open>order by f desc limit 1\<close>.\<close>

fun top_by :: "('a \<Rightarrow> int) \<Rightarrow> 'a list \<Rightarrow> 'a option" where
  "top_by f [] = None"
| "top_by f (x # xs) =
     (case top_by f xs of None \<Rightarrow> Some x | Some y \<Rightarrow> Some (if f y \<le> f x then x else y))"

definition named :: "string \<Rightarrow> 'a key_row_scheme list \<Rightarrow> 'a key_row_scheme list" where
  "named name rows = filter (\<lambda>r. k_name r = name) rows"

text \<open>\<open>select ... where key_name = name and key_status = 0 order by key_version desc limit 1\<close>.\<close>

definition active_row :: "string \<Rightarrow> 'a key_row_scheme list \<Rightarrow> 'a key_row_scheme option" where
  "active_row name rows = top_by k_version (filter (\<lambda>r. k_status r = 0) (named name rows))"

definition latest_row :: "string \<Rightarrow> 'a key_row_scheme list \<Rightarrow> 'a key_row_scheme option" where
  "latest_row name rows = top_by k_version (named name rows)"

definition row_by_id :: "int \<Rightarrow> 'a key_row_scheme list \<Rightarrow> 'a key_row_scheme option" where
  "row_by_id i rows = find (\<lambda>r. k_id r = i) rows"

text \<open>\<open>select max(key_version) ... where key_name = name\<close>; no row yields 0.\<close>

definition max_version :: "string \<Rightarrow> 'a key_row_scheme list \<Rightarrow> int" where
  "max_version name rows = (case latest_row name rows of None \<Rightarrow> 0 | Some r \<Rightarrow> k_version r)"

text \<open>The insertion, with the unique index on name and version.\<close>

definition insert_row :: "'a key_row_scheme \<Rightarrow> 'a key_row_scheme list \<Rightarrow> 'a key_row_scheme list res" where
  "insert_row r rows =
     (if \<exists>x \<in> set rows. k_name x = k_name r \<and> k_version x = k_version r
      then Inl (Errorf ''duplicate key value violates unique constraint'')
      else Inr (rows @ [r]))"

text \<open>\<open>update ... set key_status = 1, time_updated = now where key_name = name and key_version < v\<close>.\<close>

definition retire :: "int64 \<Rightarrow> string \<Rightarrow> int \<Rightarrow> 'a key_row_scheme list \<Rightarrow> 'a key_row_scheme list" where
  "retire now name v rows =
     map (\<lambda>r. if k_name r = name \<and> k_version r < v then r\<lparr>k_status := 1, k_updated := now\<rparr> else r) rows"

section \<open>Queries\<close>

lemma top_by_None [simp]: "top_by f xs = None \<longleftrightarrow> xs = []"
  by (cases xs) (auto split: option.splits)

lemma top_by_Some: "top_by f xs = Some r \<Longrightarrow> r \<in> set xs \<and> (\<forall>x \<in> set xs. f x \<le> f r)"
  by (induction xs arbitrary: r) (auto split: option.splits if_splits)

lemma top_by_unique:
  assumes "x \<in> set xs" "\<forall>y \<in> set xs. y \<noteq> x \<longrightarrow> f y < f x"
  shows "top_by f xs = Some x"
proof -
  obtain r where r: "top_by f xs = Some r" using assms(1) by (cases "top_by f xs") auto
  from top_by_Some [OF r] assms show ?thesis using r by force
qed

lemma named_append [simp]: "named n (xs @ ys) = named n xs @ named n ys"
  by (simp add: named_def)

lemma set_named: "r \<in> set (named n rows) \<longleftrightarrow> r \<in> set rows \<and> k_name r = n"
  by (auto simp: named_def)

lemma max_version_ge: "r \<in> set rows \<Longrightarrow> k_name r = n \<Longrightarrow> k_version r \<le> max_version n rows"
  unfolding max_version_def latest_row_def
  by (cases "top_by k_version (named n rows)") (auto simp: set_named named_def filter_empty_conv dest!: top_by_Some)

section \<open>The invariant\<close>

text \<open>
  Ids and pairs of name and version are unique, ids are below the next one; versions start at 1
  without gaps; the valid row of a name is the one of the greatest version, every other row
  is read-only.
\<close>

definition rows_ok :: "int \<Rightarrow> 'a key_row_scheme list \<Rightarrow> bool" where
  "rows_ok nxt rows \<longleftrightarrow>
     distinct (map k_id rows) \<and> distinct (map (\<lambda>r. (k_name r, k_version r)) rows) \<and>
     (\<forall>r \<in> set rows. k_id r < nxt \<and> 1 \<le> k_version r \<and>
        k_status r = (if k_version r = max_version (k_name r) rows then 0 else 1) \<and>
        (\<forall>v. 1 \<le> v \<longrightarrow> v \<le> k_version r \<longrightarrow> (\<exists>x \<in> set rows. k_name x = k_name r \<and> k_version x = v)))"

lemma rows_ok_Nil [simp]: "rows_ok nxt []"
  by (simp add: rows_ok_def)

lemma rows_okD:
  assumes "rows_ok nxt rows" "r \<in> set rows"
  shows "k_id r < nxt" "1 \<le> k_version r"
    and "k_status r = (if k_version r = max_version (k_name r) rows then 0 else 1)"
    and "1 \<le> v \<Longrightarrow> v \<le> k_version r \<Longrightarrow> \<exists>x \<in> set rows. k_name x = k_name r \<and> k_version x = v"
  using assms unfolding rows_ok_def by blast+

lemma rows_ok_distinct: "rows_ok nxt rows \<Longrightarrow> distinct (map k_id rows)"
  by (simp add: rows_ok_def)

lemma rows_ok_inj:
  assumes "rows_ok nxt rows" "x \<in> set rows" "y \<in> set rows" "k_name x = k_name y" "k_version x = k_version y"
  shows "x = y"
proof -
  have "distinct (map (\<lambda>r. (k_name r, k_version r)) rows)" using assms(1) by (simp add: rows_ok_def)
  then have "inj_on (\<lambda>r. (k_name r, k_version r)) (set rows)" by (simp add: distinct_map)
  from inj_onD [OF this _ assms(2,3)] assms(4,5) show ?thesis by simp
qed

lemma row_by_id_in:
  "distinct (map k_id rows) \<Longrightarrow> r \<in> set rows \<Longrightarrow> row_by_id (k_id r) rows = Some r"
proof (induction rows)
  case (Cons x rows)
  then show ?case by (cases "x = r") (auto simp: row_by_id_def)
qed simp

lemma row_by_id_Some: "row_by_id i rows = Some r \<Longrightarrow> r \<in> set rows \<and> k_id r = i"
  by (auto simp: row_by_id_def find_Some_iff)

lemma row_by_id_None: "row_by_id i rows = None \<longleftrightarrow> i \<notin> k_id ` set rows"
  by (auto simp: row_by_id_def find_None_iff)

text \<open>Under the invariant the valid row of a name is its latest row.\<close>

lemma active_latest:
  assumes "rows_ok nxt rows"
  shows "active_row n rows = latest_row n rows"
proof (cases "latest_row n rows")
  case None
  then show ?thesis by (simp add: latest_row_def active_row_def)
next
  case (Some r)
  then have t: "r \<in> set (named n rows)" "\<forall>x \<in> set (named n rows). k_version x \<le> k_version r"
    unfolding latest_row_def by (auto dest: top_by_Some)
  have mv: "max_version n rows = k_version r" using Some by (simp add: max_version_def)
  have st: "k_status x = (if k_version x = k_version r then 0 else 1)" if "x \<in> set (named n rows)" for x
    using rows_okD(3) [OF assms, of x] that mv by (simp add: set_named)
  have "y = r" if "y \<in> set (named n rows)" "k_version y = k_version r" for y
    using rows_ok_inj [OF assms, of y r] that t(1) by (simp add: set_named)
  then have "top_by k_version (filter (\<lambda>r. k_status r = 0) (named n rows)) = Some r"
    using t(1) st by (intro top_by_unique) (auto split: if_splits)
  then show ?thesis using Some by (simp add: active_row_def)
qed

section \<open>Rotation\<close>

lemma retire_id [simp]: "map k_id (retire now n v rows) = map k_id rows"
  by (induction rows) (simp_all add: retire_def)

lemma retire_keys [simp]:
  "map (\<lambda>r. (k_name r, k_version r)) (retire now n v rows) = map (\<lambda>r. (k_name r, k_version r)) rows"
  by (induction rows) (simp_all add: retire_def)

text \<open>What a rotation keeps of a row: everything but its status and its time.\<close>

definition same_key :: "'a key_row_scheme \<Rightarrow> 'a key_row_scheme \<Rightarrow> bool" where
  "same_key x y \<longleftrightarrow> x\<lparr>k_status := 0, k_updated := 0\<rparr> = y\<lparr>k_status := 0, k_updated := 0\<rparr>"

lemma same_key_refl [simp]: "same_key x x"
  by (simp add: same_key_def)

lemma same_key_trans: "same_key x y \<Longrightarrow> same_key y z \<Longrightarrow> same_key x z"
  by (simp add: same_key_def)

lemma same_keyD:
  assumes "same_key x y"
  shows "k_id x = k_id y" "k_name x = k_name y" "k_version x = k_version y" "k_encrypted x = k_encrypted y"
    "key_row.more x = key_row.more y"
  using assms unfolding same_key_def by (cases x; cases y; simp)+

lemma retire_row: "r \<in> set (retire now n v rows) \<Longrightarrow> \<exists>x \<in> set rows. same_key x r \<and>
    (k_status r = (if k_name x = n \<and> k_version x < v then 1 else k_status x))"
  by (auto simp: retire_def same_key_def)

lemma row_by_id_retire:
  "row_by_id i rows = Some r \<Longrightarrow> \<exists>r'. row_by_id i (retire now n v rows) = Some r' \<and> same_key r r'"
  by (induction rows) (auto simp: row_by_id_def retire_def same_key_def split: if_splits)

lemma row_by_id_append:
  "row_by_id i (xs @ ys) = (case row_by_id i xs of Some r \<Rightarrow> Some r | None \<Rightarrow> row_by_id i ys)"
  by (induction xs) (auto simp: row_by_id_def)

definition rotate :: "int64 \<Rightarrow> 'a key_row_scheme \<Rightarrow> 'a key_row_scheme list \<Rightarrow> 'a key_row_scheme list" where
  "rotate now r rows = retire now (k_name r) (k_version r) (rows @ [r])"

lemma rotate_eq: "rotate now r rows = retire now (k_name r) (k_version r) rows @ [r]"
  by (simp add: rotate_def retire_def)

lemma set_rotate: "r \<in> set (rotate now r rows)"
  by (simp add: rotate_eq)

lemma named_retire_other: "m \<noteq> n \<Longrightarrow> named m (retire now n v rows) = named m rows"
  by (induction rows) (auto simp: named_def retire_def)

lemma rotate_other:
  assumes "m \<noteq> k_name r"
  shows "named m (rotate now r rows) = named m rows"
  using assms named_retire_other [of m "k_name r"] by (simp add: rotate_eq) (simp add: named_def)

lemma rotate_latest:
  assumes "k_version r = max_version (k_name r) rows + 1"
  shows "latest_row (k_name r) (rotate now r rows) = Some r"
proof -
  have less: "k_version x < k_version r" if "x \<in> set (named (k_name r) (retire now (k_name r) (k_version r) rows))" for x
  proof -
    from that obtain y where "y \<in> set rows" "same_key y x" "k_name x = k_name r"
      by (auto simp: set_named dest: retire_row)
    then show ?thesis using max_version_ge [of y rows "k_name r"] same_keyD [of y x] assms by simp
  qed
  show ?thesis unfolding latest_row_def
  proof (rule top_by_unique)
    show "r \<in> set (named (k_name r) (rotate now r rows))" by (simp add: set_named set_rotate)
    show "\<forall>y \<in> set (named (k_name r) (rotate now r rows)). y \<noteq> r \<longrightarrow> k_version y < k_version r"
      using less by (auto simp: rotate_eq set_named)
  qed
qed

lemma rotate_row_by_id:
  assumes "row_by_id i rows = Some x"
  shows "\<exists>y. row_by_id i (rotate now r rows) = Some y \<and> same_key x y"
proof -
  from row_by_id_retire [OF assms] obtain y where "row_by_id i (retire now (k_name r) (k_version r) rows) = Some y" "same_key x y"
    by blast
  then show ?thesis by (auto simp: rotate_eq row_by_id_append)
qed

text \<open>A rotation to the next version, with a fresh id, keeps the invariant.\<close>

lemma rows_ok_rotate:
  assumes ok: "rows_ok nxt rows" and r: "k_id r = nxt" "k_version r = max_version (k_name r) rows + 1" "k_status r = 0"
  shows "rows_ok (nxt + 1) (rotate now r rows)"
proof -
  let ?rows = "rotate now r rows"
  have mv: "max_version (k_name r) ?rows = k_version r"
    using rotate_latest [OF r(2), of now] by (simp add: max_version_def)
  have mvo: "max_version m ?rows = max_version m rows" if "m \<noteq> k_name r" for m
    using rotate_other [OF that] by (simp add: max_version_def latest_row_def)
  have pos: "0 \<le> max_version (k_name r) rows"
  proof (cases "latest_row (k_name r) rows")
    case (Some x)
    then have "x \<in> set rows" by (auto simp: latest_row_def set_named dest!: top_by_Some)
    then show ?thesis using rows_okD(2) [OF ok, of x] Some by (simp add: max_version_def)
  qed (simp add: max_version_def)
  have new: "k_version x < k_version r" if "x \<in> set rows" "k_name x = k_name r" for x
    using max_version_ge [OF that] r(2) by simp
  have d1: "distinct (map k_id ?rows)"
  proof -
    have "k_id r \<notin> set (map k_id rows)" using rows_okD(1) [OF ok] r(1) by fastforce
    then show ?thesis using rows_ok_distinct [OF ok] unfolding rotate_eq map_append retire_id by simp
  qed
  have d2: "distinct (map (\<lambda>r. (k_name r, k_version r)) ?rows)"
  proof -
    have "(k_name r, k_version r) \<notin> set (map (\<lambda>r. (k_name r, k_version r)) rows)" using new by fastforce
    then show ?thesis using ok unfolding rows_ok_def rotate_eq map_append retire_keys by simp
  qed
  have gap: "\<exists>y \<in> set ?rows. k_name y = m \<and> k_version y = v" if "\<exists>x \<in> set rows. k_name x = m \<and> k_version x = v" for m v
  proof -
    from that obtain x where "x \<in> set rows" "k_name x = m" "k_version x = v" by blast
    then have "(m, v) \<in> set (map (\<lambda>r. (k_name r, k_version r)) (retire now (k_name r) (k_version r) rows))"
      unfolding retire_keys by force
    then have "(m, v) \<in> (\<lambda>r. (k_name r, k_version r)) ` set (retire now (k_name r) (k_version r) rows)"
      unfolding set_map .
    then show ?thesis unfolding rotate_eq by auto
  qed
  have row: "k_id x < nxt + 1 \<and> 1 \<le> k_version x \<and>
      k_status x = (if k_version x = max_version (k_name x) ?rows then 0 else 1) \<and>
      (\<forall>v. 1 \<le> v \<longrightarrow> v \<le> k_version x \<longrightarrow> (\<exists>y \<in> set ?rows. k_name y = k_name x \<and> k_version y = v))"
    if x: "x \<in> set ?rows" for x
  proof (cases "x = r")
    case True
    have "\<exists>y \<in> set ?rows. k_name y = k_name r \<and> k_version y = v" if v: "1 \<le> v" "v \<le> k_version r" for v
    proof (cases "v = k_version r")
      case True
      then show ?thesis using set_rotate by blast
    next
      case False
      with v r(2) have le: "v \<le> max_version (k_name r) rows" by simp
      obtain z where z: "latest_row (k_name r) rows = Some z"
        using v(1) le by (cases "latest_row (k_name r) rows") (auto simp: max_version_def)
      then have "z \<in> set rows" "k_name z = k_name r" by (auto simp: latest_row_def set_named dest!: top_by_Some)
      moreover have "v \<le> k_version z" using le z by (simp add: max_version_def)
      ultimately show ?thesis using rows_okD(4) [OF ok, of z v] v(1) gap by metis
    qed
    then show ?thesis using True r mv pos by simp
  next
    case False
    with x obtain z where z: "z \<in> set rows" "same_key z x"
      "k_status x = (if k_name z = k_name r \<and> k_version z < k_version r then 1 else k_status z)"
      by (auto simp: rotate_eq dest: retire_row)
    note s = same_keyD [OF z(2)]
    have "k_status x = (if k_version x = max_version (k_name x) ?rows then 0 else 1)"
    proof (cases "k_name z = k_name r")
      case True
      then show ?thesis using z(3) new [OF z(1) True] mv s by simp
    next
      case False
      then show ?thesis using z(3) rows_okD(3) [OF ok z(1)] mvo [OF False] s by simp
    qed
    moreover have "\<exists>y \<in> set ?rows. k_name y = k_name x \<and> k_version y = v" if "1 \<le> v" "v \<le> k_version x" for v
      using rows_okD(4) [OF ok z(1), of v] that s by (intro gap) auto
    ultimately show ?thesis using rows_okD(1,2) [OF ok z(1)] s by simp
  qed
  show ?thesis unfolding rows_ok_def using d1 d2 row by blast
qed

text \<open>The next version never collides with a stored one.\<close>

lemma insert_row_next: "k_version r = max_version (k_name r) rows + 1 \<Longrightarrow> insert_row r rows = Inr (rows @ [r])"
  unfolding insert_row_def using max_version_ge [of _ rows "k_name r"] by fastforce

end
