(* ===== verification/CertStore.thy ===== *)
theory CertStore
  imports Certs KeyTable
begin

text \<open>
  The certificate storage on PostgreSQL (\<open>configure/secretimpl/secret.pg.cert.go\<close>, table
  \<open>secret_cert\<close> and sequence \<open>cert_id_seq\<close> of \<open>ddl_pg.sql\<close>). The failures of the database in one call
  are an argument.
\<close>

section \<open>The table\<close>

record cert_row =
  ce_id :: CertSerialNumber
  ce_type :: CertLevelType
  ce_name :: string
  ce_version :: int
  ce_status :: int            \<comment> \<open>0 valid, 1 archived\<close>
  ce_parent :: CertSerialNumber
  ce_level :: CertKeyLevel
  ce_key :: string
  ce_content :: bytes
  ce_expired :: int
  ce_created :: int64
  ce_updated :: int64

record cert_db =
  cd_rows :: "cert_row list"
  cd_seq :: int               \<comment> \<open>the sequence's next value\<close>

definition new_cert_db :: cert_db where
  "new_cert_db = \<lparr>cd_rows = [], cd_seq = 1\<rparr>"

record cert_env =
  cv_now :: "nat \<Rightarrow> int64"
  cv_begin :: "go_error option"
  cv_query :: "go_error option"
  cv_update :: "go_error option"
  cv_update_rows :: "go_error option"
  cv_insert :: "go_error option"
  cv_insert_rows :: "go_error option"
  cv_commit :: "go_error option"
  cv_rollback :: "go_error option"

definition ErrNoRows :: go_error where "ErrNoRows = Sentinel ''sql.ErrNoRows''"

definition unix_milli :: "int \<Rightarrow> int" where
  "unix_milli t = t div 1000000"

definition certs_named :: "CertLevelType \<Rightarrow> string \<Rightarrow> cert_row list \<Rightarrow> cert_row list" where
  "certs_named t name rows = filter (\<lambda>r. ce_type r = t \<and> ce_name r = name) rows"

text \<open>\<open>select max(cert_version)\<close>; the null of an empty set reads as 0.\<close>

definition max_cert_version :: "CertLevelType \<Rightarrow> string \<Rightarrow> cert_row list \<Rightarrow> int" where
  "max_cert_version t name rows = (case top_by ce_version (certs_named t name rows) of None \<Rightarrow> 0 | Some r \<Rightarrow> ce_version r)"

definition archive :: "int64 \<Rightarrow> CertLevelType \<Rightarrow> string \<Rightarrow> cert_row list \<Rightarrow> cert_row list" where
  "archive now t name rows =
     map (\<lambda>r. if ce_type r = t \<and> ce_name r = name then r\<lparr>ce_status := 1, ce_updated := now\<rparr> else r) rows"

text \<open>The insertion, with the primary key and the unique index.\<close>

definition insert_cert :: "cert_row \<Rightarrow> cert_row list \<Rightarrow> cert_row list res" where
  "insert_cert r rows =
     (if \<exists>x \<in> set rows. ce_id x = ce_id r then Inl (Errorf ''duplicate key value violates unique constraint'')
      else if \<exists>x \<in> set rows. ce_type x = ce_type r \<and> ce_name x = ce_name r \<and> ce_version x = ce_version r
      then Inl (Errorf ''duplicate key value violates unique constraint'')
      else Inr (rows @ [r]))"

section \<open>Saving\<close>

definition ok_unless :: "go_error option \<Rightarrow> unit res" where
  "ok_unless e = (case e of Some e \<Rightarrow> Inl e | None \<Rightarrow> Inr ())"

definition cert_new ::
  "cert_env \<Rightarrow> CertLevelType \<Rightarrow> string \<Rightarrow> int \<Rightarrow> CertSerialNumber \<Rightarrow> Certificate \<Rightarrow> bytes \<Rightarrow> CertKeyInfo \<Rightarrow> cert_row" where
  "cert_new en t name version caCertSN cert certData keyInfo =
     \<lparr>ce_id = sn_FromBigInt (xc_SerialNumber cert), ce_type = t, ce_name = name, ce_version = version, ce_status = 0,
      ce_parent = caCertSN, ce_level = ki_CertKeyLevel keyInfo, ce_key = ki_CertKeyId keyInfo, ce_content = certData,
      ce_expired = unix_milli (xc_NotAfter cert), ce_created = cv_now en 1, ce_updated = cv_now en 1\<rparr>"

text \<open>
  The transaction. A failure of the version's query leaves the version null, which reads as 0, and its
  error is dropped.
\<close>

definition cert_save_tx ::
  "cert_env \<Rightarrow> CertLevelType \<Rightarrow> string \<Rightarrow> CertSerialNumber \<Rightarrow> Certificate \<Rightarrow> bytes \<Rightarrow> CertKeyInfo \<Rightarrow> cert_row list \<Rightarrow> cert_row list res" where
  "cert_save_tx en t name caCertSN cert certData keyInfo rows =
     (let maxVersion = (case cv_query en of Some e \<Rightarrow> 0 | None \<Rightarrow> max_cert_version t name rows);
          nextVersion = maxVersion + 1 in
      res_bind (ok_unless (cv_update en)) (\<lambda>_.
      let rows = archive (cv_now en 0) t name rows in
      res_bind (ok_unless (cv_update_rows en)) (\<lambda>_.
      res_bind (ok_unless (cv_insert en)) (\<lambda>_.
      res_bind (insert_cert (cert_new en t name nextVersion caCertSN cert certData keyInfo) rows) (\<lambda>rows.
      res_bind (ok_unless (cv_insert_rows en)) (\<lambda>_. Inr rows))))))"

definition saveInternal ::
  "'pk keylib \<Rightarrow> cert_env \<Rightarrow> CertLevelType \<Rightarrow> string \<Rightarrow> CertSerialNumber \<Rightarrow> Certificate \<Rightarrow> CertKeyInfo \<Rightarrow> cert_db \<Rightarrow>
   CertSerialNumber res \<times> cert_db" where
  "saveInternal lib en certLevelType certName caCertSN cert keyInfo db =
     (case EncodeCertificate lib cert of
        Inl e \<Rightarrow> (Inl e, db)
      | Inr certData \<Rightarrow>
          let caCertSN = (if certLevelType = CertLevelTypeRootCA then [] else caCertSN) in
          (case cv_begin en of
             Some e \<Rightarrow> (Inl e, db)
           | None \<Rightarrow>
               (case cert_save_tx en certLevelType certName caCertSN cert certData keyInfo (cd_rows db) of
                  Inl e \<Rightarrow> (Inl (case cv_rollback en of Some e' \<Rightarrow> e' | None \<Rightarrow> e), db)
                | Inr rows \<Rightarrow>
                    (case cv_commit en of
                       Some e \<Rightarrow> (Inl e, db)
                     | None \<Rightarrow> (Inr (sn_FromBigInt (xc_SerialNumber cert)), db\<lparr>cd_rows := rows\<rparr>)))))"

definition SaveRootCA ::
  "'pk keylib \<Rightarrow> cert_env \<Rightarrow> string \<Rightarrow> Certificate \<Rightarrow> CertKeyInfo \<Rightarrow> cert_db \<Rightarrow> CertSerialNumber res \<times> cert_db" where
  "SaveRootCA lib en certName cert keyInfo = saveInternal lib en CertLevelTypeRootCA certName [] cert keyInfo"

definition SaveIntermediateCA ::
  "'pk keylib \<Rightarrow> cert_env \<Rightarrow> string \<Rightarrow> CertSerialNumber \<Rightarrow> Certificate \<Rightarrow> CertKeyInfo \<Rightarrow> cert_db \<Rightarrow> CertSerialNumber res \<times> cert_db" where
  "SaveIntermediateCA lib en certName ca cert keyInfo = saveInternal lib en CertLevelTypeIntermediateCA certName ca cert keyInfo"

definition SaveCert ::
  "'pk keylib \<Rightarrow> cert_env \<Rightarrow> string \<Rightarrow> CertSerialNumber \<Rightarrow> Certificate \<Rightarrow> CertKeyInfo \<Rightarrow> cert_db \<Rightarrow> CertSerialNumber res \<times> cert_db" where
  "SaveCert lib en certName ca cert keyInfo = saveInternal lib en CertLevelTypeCert certName ca cert keyInfo"

section \<open>Loading\<close>

definition key_info :: "cert_row \<Rightarrow> CertKeyInfo" where
  "key_info r = \<lparr>ki_CertKeyLevel = ce_level r, ki_CertKeyId = ce_key r\<rparr>"

definition cert_by_id :: "CertSerialNumber \<Rightarrow> cert_row list \<Rightarrow> cert_row option" where
  "cert_by_id sn rows = top_by ce_version (filter (\<lambda>r. ce_id r = sn) rows)"

definition LoadCertByName ::
  "'pk keylib \<Rightarrow> ('pk, 'pub) x509lib \<Rightarrow> go_error option \<Rightarrow> string \<Rightarrow> CertLevelType \<Rightarrow> cert_db \<Rightarrow> (Certificate \<times> CertKeyInfo) res" where
  "LoadCertByName lib xl qe certName t db =
     (case qe of
        Some e \<Rightarrow> Inl e
      | None \<Rightarrow>
          (case top_by ce_version (certs_named t certName (cd_rows db)) of
             None \<Rightarrow> Inl ErrNoRows
           | Some r \<Rightarrow> res_bind (ParseCertificate lib xl (ce_content r)) (\<lambda>cert. Inr (cert, key_info r))))"

definition LoadCertById ::
  "'pk keylib \<Rightarrow> ('pk, 'pub) x509lib \<Rightarrow> go_error option \<Rightarrow> CertSerialNumber \<Rightarrow> cert_db \<Rightarrow> (Certificate \<times> CertLevelType \<times> CertKeyInfo) res" where
  "LoadCertById lib xl qe sn db =
     (case qe of
        Some e \<Rightarrow> Inl e
      | None \<Rightarrow>
          (case cert_by_id sn (cd_rows db) of
             None \<Rightarrow> Inl ErrNoRows
           | Some r \<Rightarrow> res_bind (ParseCertificate lib xl (ce_content r)) (\<lambda>cert. Inr (cert, ce_type r, key_info r))))"

text \<open>The nil certificate of a root is \<open>None\<close>; the two queries fail by number.\<close>

definition LoadParentCertByCertId ::
  "'pk keylib \<Rightarrow> ('pk, 'pub) x509lib \<Rightarrow> (nat \<Rightarrow> go_error option) \<Rightarrow> CertSerialNumber \<Rightarrow> cert_db \<Rightarrow>
   (Certificate \<times> CertLevelType \<times> CertKeyInfo) option res" where
  "LoadParentCertByCertId lib xl qe sn db =
     (case qe 0 of
        Some e \<Rightarrow> Inl e
      | None \<Rightarrow>
          (case cert_by_id sn (cd_rows db) of
             None \<Rightarrow> Inl ErrNoRows
           | Some r \<Rightarrow>
               if ce_parent r = [] then Inr None
               else res_bind (LoadCertById lib xl (qe 1) (ce_parent r) db) (\<lambda>x. Inr (Some x))))"

definition MaxLevels :: nat where "MaxLevels = 10"

text \<open>The loop of \<open>LoadCertChainByName\<close>, with the turns that are left; \<open>parent i\<close> is the turn's call.\<close>

fun chain_loop ::
  "(nat \<Rightarrow> CertSerialNumber \<Rightarrow> (Certificate \<times> CertLevelType \<times> CertKeyInfo) option res) \<Rightarrow> nat \<Rightarrow> Certificate \<Rightarrow> Certificate list \<Rightarrow> Certificate list res" where
  "chain_loop parent 0 prevCert certs = Inl (Errorf ''reaching max cert level'')"
| "chain_loop parent (Suc n) prevCert certs =
     (case parent n (sn_FromBigInt (xc_SerialNumber prevCert)) of
        Inl e \<Rightarrow> Inl e
      | Inr None \<Rightarrow> Inr certs
      | Inr (Some (cert, _, _)) \<Rightarrow> chain_loop parent n cert (certs @ [cert]))"

definition LoadCertChainByName ::
  "'pk keylib \<Rightarrow> ('pk, 'pub) x509lib \<Rightarrow> go_error option \<Rightarrow> (nat \<Rightarrow> nat \<Rightarrow> go_error option) \<Rightarrow> string \<Rightarrow> CertLevelType \<Rightarrow> cert_db \<Rightarrow>
   (Certificate list \<times> CertKeyInfo) res" where
  "LoadCertChainByName lib xl qe qes certName t db =
     res_bind (LoadCertByName lib xl qe certName t db) (\<lambda>(cert, info).
     res_bind (chain_loop (\<lambda>n sn. LoadParentCertByCertId lib xl (qes n) sn db) MaxLevels cert [cert]) (\<lambda>certs. Inr (certs, info)))"

text \<open>The sequence advances by 16, whatever becomes of the transaction that asked for it.\<close>

definition NextCertSerialNumber :: "go_error option \<Rightarrow> cert_db \<Rightarrow> CertSerialNumber res \<times> cert_db" where
  "NextCertSerialNumber qe db =
     (case qe of
        Some e \<Rightarrow> (Inl e, db)
      | None \<Rightarrow>
          if 9223372036854775807 < cd_seq db then (Inl (Errorf ''reached maximum value of sequence''), db)
          else (Inr (sn_FromInt64 (word_of_int (cd_seq db))), db\<lparr>cd_seq := cd_seq db + 16\<rparr>))"

end
