(* ===== verification/CertChain.thy ===== *)
theory CertChain
  imports CertStore
begin

text \<open>
  Chains of certificates: the walk from a certificate to its root, as the controller does it
  (\<open>recursiveRetrieveCerts\<close> of \<open>controller.cert.manage.go\<close>) and as the storage does it; the Go interface
  \<open>CertStorage\<close> as a locale, with the lemmas a client needs, and its interpretation by the PostgreSQL
  storage, whose table keeps an invariant.
\<close>

section \<open>Walking to the root\<close>

type_synonym parent_fn = "CertSerialNumber \<Rightarrow> (Certificate \<times> CertLevelType \<times> CertKeyInfo) option res"

definition sn_of :: "Certificate \<Rightarrow> CertSerialNumber" where
  "sn_of c = sn_FromBigInt (xc_SerialNumber c)"

text \<open>
  The recursion of the controller: it has no bound of its own, so a call that does not return is \<open>None\<close>. The
  storage's answer may differ from call to call (\<open>parent n\<close> is the \<open>n\<close>th call's).
\<close>

partial_function (option) recursiveRetrieveCerts ::
  "(nat \<Rightarrow> parent_fn) \<Rightarrow> nat \<Rightarrow> Certificate \<Rightarrow> CertSerialNumber \<Rightarrow> Certificate list res option" where
  "recursiveRetrieveCerts parent n cert sn =
     (case parent n sn of
        Inl e \<Rightarrow> Some (Inl e)
      | Inr None \<Rightarrow> Some (Inr [cert])
      | Inr (Some (pcert, _, _)) \<Rightarrow>
          Option.bind (recursiveRetrieveCerts parent (Suc n) pcert (sn_of pcert)) (\<lambda>results.
            Some (res_bind results (\<lambda>results. Inr (results @ [cert])))))"

text \<open>The certificates above one, from its issuer to the root.\<close>

inductive ancestors :: "parent_fn \<Rightarrow> CertSerialNumber \<Rightarrow> Certificate list \<Rightarrow> bool" for parent :: parent_fn where
  anc_root: "parent sn = Inr None \<Longrightarrow> ancestors parent sn []"
| anc_step: "parent sn = Inr (Some (c, t, k)) \<Longrightarrow> ancestors parent (sn_of c) cs \<Longrightarrow> ancestors parent sn (c # cs)"

inductive_cases ancestors_NilE: "ancestors parent sn []"
inductive_cases ancestors_ConsE: "ancestors parent sn (c # cs)"

lemma ancestors_unique: "ancestors parent sn cs \<Longrightarrow> ancestors parent sn cs' \<Longrightarrow> cs = cs'"
proof (induction arbitrary: cs' rule: ancestors.induct)
  case (anc_root sn)
  from anc_root(2) show ?case by cases (use anc_root(1) in simp_all)
next
  case (anc_step sn c t k cs)
  from anc_step(4) show ?case
  proof cases
    case anc_root
    then show ?thesis using anc_step(1) by simp
  next
    case (anc_step c' t' k' ds)
    with \<open>parent sn = Inr (Some (c, t, k))\<close> have "c' = c" by simp
    with anc_step(3) have "cs = ds" by (intro \<open>\<And>cs'. ancestors parent (sn_of c) cs' \<Longrightarrow> cs = cs'\<close>) simp
    with anc_step(1) \<open>c' = c\<close> show ?thesis by simp
  qed
qed

lemma retrieve_ancestors:
  "ancestors parent sn cs \<Longrightarrow> recursiveRetrieveCerts (\<lambda>_. parent) n cert sn = Some (Inr (rev (cert # cs)))"
proof (induction arbitrary: n cert rule: ancestors.induct)
  case (anc_root sn)
  then show ?case by (subst recursiveRetrieveCerts.simps) simp
next
  case (anc_step sn c t k cs)
  then show ?case by (subst recursiveRetrieveCerts.simps) simp
qed

text \<open>A walk that succeeds although some of its calls might have failed is the walk without failures.\<close>

definition agrees :: "(nat \<Rightarrow> parent_fn) \<Rightarrow> parent_fn \<Rightarrow> bool" where
  "agrees parent quiet \<longleftrightarrow> (\<forall>n sn x. parent n sn = Inr x \<longrightarrow> quiet sn = Inr x)"

lemma retrieve_Inr:
  assumes "recursiveRetrieveCerts parent n cert sn = Some (Inr r)" "agrees parent quiet"
  shows "\<exists>cs. ancestors quiet sn cs \<and> r = rev (cert # cs)"
proof -
  define P where "P = (\<lambda>parent (n :: nat) cert sn (res :: Certificate list res). agrees parent quiet \<longrightarrow>
    (\<forall>r. res = Inr r \<longrightarrow> (\<exists>cs. ancestors quiet sn cs \<and> r = rev (cert # cs))))"
  have "P parent n cert sn (Inr r)"
  proof (rule recursiveRetrieveCerts.raw_induct [where P = P, OF _ assms(1)])
    fix rec parent n cert sn res
    assume IH: "\<And>parent n cert sn res. rec parent n cert sn = Some res \<Longrightarrow> P parent n cert sn res"
      and body: "(case parent n sn of
        Inl e \<Rightarrow> Some (Inl e)
      | Inr None \<Rightarrow> Some (Inr [cert])
      | Inr (Some (pcert, _, _)) \<Rightarrow>
          Option.bind (rec parent (Suc n) pcert (sn_of pcert)) (\<lambda>results.
            Some (res_bind results (\<lambda>results. Inr (results @ [cert]))))) = Some res"
    show "P parent n cert sn res"
      unfolding P_def
    proof (intro impI allI)
      fix r assume agree: "agrees parent quiet" and res: "res = Inr r"
      note quiet = agree [unfolded agrees_def, rule_format]
      show "\<exists>cs. ancestors quiet sn cs \<and> r = rev (cert # cs)"
      proof (cases "parent n sn")
        case (Inl e)
        then show ?thesis using body res by simp
      next
        case (Inr x)
        show ?thesis
        proof (cases x)
          case None
          then have "r = [cert]" using body res Inr by simp
          then show ?thesis using quiet [OF Inr] None by (auto intro: ancestors.anc_root)
        next
          case (Some y)
          obtain c t k where y: "y = (c, t, k)" by (cases y)
          then obtain res1 where r1: "rec parent (Suc n) c (sn_of c) = Some res1" "res_bind res1 (\<lambda>results. Inr (results @ [cert])) = Inr r"
            using body res Inr Some by (cases "rec parent (Suc n) c (sn_of c)") auto
          then obtain rs where rs: "res1 = Inr rs" "r = rs @ [cert]" by auto
          from IH [OF r1(1), unfolded P_def, rule_format, OF agree rs(1)] obtain cs where cs: "ancestors quiet (sn_of c) cs" "rs = rev (c # cs)" by blast
          have "ancestors quiet sn (c # cs)" using quiet [OF Inr] Some y cs(1) by (auto intro: ancestors.anc_step)
          then show ?thesis using rs(2) cs(2) by auto
        qed
      qed
    qed
  qed
  then show ?thesis using assms(2) unfolding P_def by blast
qed

lemma chain_loop_ancestors:
  "ancestors parent (sn_of prev) cs \<Longrightarrow> chain_loop (\<lambda>_. parent) m prev certs =
    (if length cs < m then Inr (certs @ cs) else Inl (Errorf ''reaching max cert level''))"
proof (induction m arbitrary: prev cs certs)
  case (Suc m)
  show ?case
  proof (cases cs)
    case Nil
    then show ?thesis using Suc.prems by (auto simp: sn_of_def elim: ancestors_NilE)
  next
    case (Cons c ds)
    with Suc.prems obtain t k where "parent (sn_of prev) = Inr (Some (c, t, k))" "ancestors parent (sn_of c) ds"
      by (auto elim: ancestors_ConsE)
    then show ?thesis using Suc.IH [of c ds "certs @ [c]"] Cons by (simp add: sn_of_def)
  qed
qed simp

section \<open>The interface\<close>

locale cert_storage =
  fixes save :: "'e \<Rightarrow> CertLevelType \<Rightarrow> string \<Rightarrow> CertSerialNumber \<Rightarrow> Certificate \<Rightarrow> CertKeyInfo \<Rightarrow> 's \<Rightarrow> CertSerialNumber res \<times> 's"
    and load :: "go_error option \<Rightarrow> string \<Rightarrow> CertLevelType \<Rightarrow> 's \<Rightarrow> (Certificate \<times> CertKeyInfo) res"
    and by_id :: "go_error option \<Rightarrow> CertSerialNumber \<Rightarrow> 's \<Rightarrow> (Certificate \<times> CertLevelType \<times> CertKeyInfo) res"
    and parent :: "(nat \<Rightarrow> go_error option) \<Rightarrow> CertSerialNumber \<Rightarrow> 's \<Rightarrow> (Certificate \<times> CertLevelType \<times> CertKeyInfo) option res"
    and inv :: "'s \<Rightarrow> bool"
    and readable :: "'s \<Rightarrow> Certificate \<Rightarrow> bool"
    and known :: "'s \<Rightarrow> CertSerialNumber set"
    and depth :: "'s \<Rightarrow> CertSerialNumber \<Rightarrow> nat"
  assumes parent_depth: "inv s \<Longrightarrow> parent q sn s = Inr (Some (c, t, k)) \<Longrightarrow> depth s (sn_of c) < depth s sn"
    and parent_known: "inv s \<Longrightarrow> sn \<in> known s \<Longrightarrow> parent (\<lambda>_. None) sn s = Inr None \<or>
      (\<exists>c t k. parent (\<lambda>_. None) sn s = Inr (Some (c, t, k)) \<and> sn_of c \<in> known s)"
    and load_known: "inv s \<Longrightarrow> load qe n t s = Inr (c, ki) \<Longrightarrow> sn_of c \<in> known s \<and> by_id None (sn_of c) s = Inr (c, t, ki)"
    and save_inv: "inv s \<Longrightarrow> readable s c \<Longrightarrow> ca = [] \<or> ca \<in> known s \<Longrightarrow> save e t n ca c ki s = (r, s') \<Longrightarrow> inv s'"
    and save_fail: "save e t n ca c ki s = (Inl err, s') \<Longrightarrow> s' = s"
    and save_load: "inv s \<Longrightarrow> readable s c \<Longrightarrow> ca = [] \<or> ca \<in> known s \<Longrightarrow> save e t n ca c ki s = (Inr sn, s') \<Longrightarrow>
      sn = sn_of c \<and> load None n t s' = Inr (c, ki)"
    and save_parent: "inv s \<Longrightarrow> readable s c \<Longrightarrow> ca \<in> known s \<Longrightarrow> t \<noteq> CertLevelTypeRootCA \<Longrightarrow> ca \<noteq> [] \<Longrightarrow>
      save e t n ca c ki s = (Inr sn, s') \<Longrightarrow> by_id None ca s = Inr (cc, ct, ck) \<Longrightarrow>
      parent (\<lambda>_. None) (sn_of c) s' = Inr (Some (cc, ct, ck))"
    and save_keeps: "inv s \<Longrightarrow> readable s c \<Longrightarrow> ca = [] \<or> ca \<in> known s \<Longrightarrow> save e t n ca c ki s = (r, s') \<Longrightarrow> sn \<in> known s \<Longrightarrow>
      sn \<in> known s' \<and> parent (\<lambda>_. None) sn s' = parent (\<lambda>_. None) sn s"
begin

text \<open>The walk ends, whatever fails on the way, since every step goes down.\<close>

lemma retrieve_returns:
  assumes "inv s"
  shows "recursiveRetrieveCerts (\<lambda>n sn. parent (q n) sn s) n cert sn \<noteq> None"
proof (induction "depth s sn" arbitrary: n cert sn rule: less_induct)
  case less
  show ?case
  proof (cases "parent (q n) sn s")
    case (Inl e)
    then show ?thesis by (subst recursiveRetrieveCerts.simps) simp
  next
    case (Inr x)
    show ?thesis
    proof (cases x)
      case None
      then show ?thesis using Inr by (subst recursiveRetrieveCerts.simps) simp
    next
      case (Some y)
      obtain c t k where y: "y = (c, t, k)" by (cases y)
      have "recursiveRetrieveCerts (\<lambda>n sn. parent (q n) sn s) (Suc n) c (sn_of c) \<noteq> None"
        using parent_depth [OF assms] Inr Some y by (intro less) simp
      then show ?thesis using Inr Some y by (subst recursiveRetrieveCerts.simps) auto
    qed
  qed
qed

lemma ancestors_total:
  assumes "inv s"
  shows "sn \<in> known s \<Longrightarrow> \<exists>cs. ancestors (\<lambda>sn. parent (\<lambda>_. None) sn s) sn cs"
proof (induction "depth s sn" arbitrary: sn rule: less_induct)
  case less
  show ?case using parent_known [OF assms less.prems]
  proof
    assume "parent (\<lambda>_. None) sn s = Inr None"
    then show ?thesis by (blast intro: ancestors.anc_root)
  next
    assume "\<exists>c t k. parent (\<lambda>_. None) sn s = Inr (Some (c, t, k)) \<and> sn_of c \<in> known s"
    then obtain c t k where p: "parent (\<lambda>_. None) sn s = Inr (Some (c, t, k))" "sn_of c \<in> known s" by blast
    from less.hyps [OF parent_depth [OF assms p(1)] p(2)] obtain cs where "ancestors (\<lambda>sn. parent (\<lambda>_. None) sn s) (sn_of c) cs" ..
    then show ?thesis using p(1) by (blast intro: ancestors.anc_step)
  qed
qed

lemma save_keeps_ancestors:
  assumes "inv s" "readable s c" "ca = [] \<or> ca \<in> known s" "save e t n ca c ki s = (r, s')"
  shows "ancestors (\<lambda>sn. parent (\<lambda>_. None) sn s) sn cs \<Longrightarrow> sn \<in> known s \<Longrightarrow> ancestors (\<lambda>sn. parent (\<lambda>_. None) sn s') sn cs"
proof (induction rule: ancestors.induct)
  case (anc_root sn)
  then show ?case using save_keeps [OF assms, of sn] by (simp add: ancestors.anc_root)
next
  case (anc_step sn c t k cs)
  then have "sn_of c \<in> known s" using parent_known [OF assms(1), of sn] by auto
  then show ?case using anc_step save_keeps [OF assms, of sn] by (auto intro: ancestors.anc_step)
qed

text \<open>The chain of a certificate that was saved under a CA: the CA, then the CA's own chain.\<close>

lemma saved_chain:
  assumes "inv s" "readable s c" "load qe can cat s = Inr (cac, cai)" "sn_of cac \<noteq> []" "t \<noteq> CertLevelTypeRootCA"
    and "save e t n (sn_of cac) c ki s = (Inr sn, s')"
  shows "\<exists>cs. ancestors (\<lambda>sn. parent (\<lambda>_. None) sn s) (sn_of cac) cs \<and>
    load None n t s' = Inr (c, ki) \<and> ancestors (\<lambda>sn. parent (\<lambda>_. None) sn s') (sn_of c) (cac # cs)"
proof -
  note k = load_known [OF assms(1,3)]
  obtain cs where cs: "ancestors (\<lambda>sn. parent (\<lambda>_. None) sn s) (sn_of cac) cs" using ancestors_total [OF assms(1)] k by blast
  have p: "parent (\<lambda>_. None) (sn_of c) s' = Inr (Some (cac, cat, cai))"
    by (rule save_parent [OF assms(1,2) _ assms(5,4,6)]) (use k in auto)
  have "ancestors (\<lambda>sn. parent (\<lambda>_. None) sn s') (sn_of cac) cs"
    by (rule save_keeps_ancestors [OF assms(1,2) _ assms(6) cs]) (use k in auto)
  then have "ancestors (\<lambda>sn. parent (\<lambda>_. None) sn s') (sn_of c) (cac # cs)" by (rule ancestors.anc_step [where parent = "\<lambda>sn. parent (\<lambda>_. None) sn s'" and t = cat and k = cai, rotated]) (rule p)
  then show ?thesis using cs save_load [OF assms(1,2) _ assms(6)] k by blast
qed

end

end
