(* ===== verification/Permissions.thy ===== *)
theory Permissions
  imports HttpTypes
begin

text \<open>
  Permissions (\<open>configure/permissions\<close>) and their check on the claims of a token
  (\<open>configure/secretaddon/jwttool.go\<close>): the permission definitions, the lists granted to a
  token, and the operators that decide a request.
\<close>

section \<open>Permission definitions\<close>

type_synonym PermissionType = string

definition PermissionRead :: PermissionType where "PermissionRead = ''read:''"
definition PermissionWrite :: PermissionType where "PermissionWrite = ''write:''"
definition PermissionManage :: PermissionType where "PermissionManage = ''manage:''"

record PermissionDef =
  pd_Name :: string
  pd_Operation :: PermissionType

definition pd_Equals :: "PermissionDef \<Rightarrow> PermissionDef \<Rightarrow> bool" where
  "pd_Equals p p2 \<longleftrightarrow> pd_Name p = pd_Name p2 \<and> pd_Operation p = pd_Operation p2"

definition pd_ToString :: "PermissionDef \<Rightarrow> string" where
  "pd_ToString p = pd_Operation p @ pd_Name p"

definition SecretCertAdmin :: PermissionDef where
  "SecretCertAdmin = \<lparr>pd_Name = ''cert.admin'', pd_Operation = PermissionManage\<rparr>"

definition SecretCertList :: PermissionDef where
  "SecretCertList = \<lparr>pd_Name = ''cert.list'', pd_Operation = PermissionRead\<rparr>"

definition SecretJwtAdmin :: PermissionDef where
  "SecretJwtAdmin = \<lparr>pd_Name = ''jwt.admin'', pd_Operation = PermissionManage\<rparr>"

definition SecretJwtNew :: PermissionDef where
  "SecretJwtNew = \<lparr>pd_Name = ''jwt.new'', pd_Operation = PermissionWrite\<rparr>"

definition SecretJwtVerify :: PermissionDef where
  "SecretJwtVerify = \<lparr>pd_Name = ''jwt.verify'', pd_Operation = PermissionRead\<rparr>"

definition SecretKeyAdmin :: PermissionDef where
  "SecretKeyAdmin = \<lparr>pd_Name = ''key.admin'', pd_Operation = PermissionManage\<rparr>"

lemmas permission_defs = SecretCertAdmin_def SecretCertList_def SecretJwtAdmin_def SecretJwtNew_def
  SecretJwtVerify_def SecretKeyAdmin_def PermissionRead_def PermissionWrite_def PermissionManage_def

definition addPermissionDefMap :: "PermissionDef \<Rightarrow> (string \<Rightarrow> PermissionDef option) \<Rightarrow> (string \<Rightarrow> PermissionDef option)" where
  "addPermissionDefMap p m = m(pd_ToString p \<mapsto> p)"

text \<open>The table after \<open>init\<close>.\<close>

definition allPermissions :: "string \<Rightarrow> PermissionDef option" where
  "allPermissions =
     fold addPermissionDefMap
       [SecretCertAdmin, SecretCertList, SecretJwtAdmin, SecretJwtNew, SecretJwtVerify, SecretKeyAdmin]
       (\<lambda>_. None)"

definition GetPermissionDef :: "string \<Rightarrow> PermissionDef option" where
  "GetPermissionDef s = allPermissions s"

lemma allPermissions_ToString: "allPermissions s = Some p \<Longrightarrow> pd_ToString p = s"
  by (auto simp: allPermissions_def addPermissionDefMap_def split: if_splits)

section \<open>Claims\<close>

text \<open>
  The dynamic values of a claim: what decoding a token's JSON yields (\<open>Anys\<close> is \<open>[]any\<close>), and the
  \<open>[]string\<close> that the code itself puts there (\<open>Strs\<close>).
\<close>

datatype any_val = Nil_val | Bool_val bool | Int_val int | Str_val string | Strs "string list" | Anys "any_val list" | Map_val

type_synonym JwtData = "(string, any_val) gomap"

text \<open>The JSON encoding of a value and its decoding: a nil slice becomes null.\<close>

fun through_json :: "any_val \<Rightarrow> any_val" where
  "through_json (Strs ss) = (if ss = [] then Nil_val else Anys (map Str_val ss))"
| "through_json (Anys vs) = Anys (map through_json vs)"
| "through_json v = v"

section \<open>The lists of permissions\<close>

type_synonym PermissionsList = "string list"          \<comment> \<open>a set, in an iteration order\<close>
type_synonym PermissionResourceList = "(string, PermissionType) gomap"

definition prl_Add :: "PermissionDef list \<Rightarrow> PermissionResourceList \<Rightarrow> PermissionResourceList" where
  "prl_Add perms p = fold (\<lambda>v. AList.update (pd_Name v) (pd_Operation v)) perms p"

definition prl_Dedup :: "PermissionResourceList \<Rightarrow> PermissionsList" where
  "prl_Dedup p = remdups (map (\<lambda>(key, val). val @ key) p)"

type_synonym PermissionOperator = "PermissionsList \<Rightarrow> PermissionsList \<Rightarrow> PermissionsList \<Rightarrow> bool"

definition AnyPermissionOperator :: PermissionOperator where
  "AnyPermissionOperator matched nonMatched additional \<longleftrightarrow> length matched > 0"

definition AllPermissionOperator :: PermissionOperator where
  "AllPermissionOperator matched nonMatched additional \<longleftrightarrow> length matched > 0 \<and> length nonMatched \<le> 0"

section \<open>The tool\<close>

definition JwtClaimsKeyPermissions :: string where
  "JwtClaimsKeyPermissions = ''permissions''"

definition SetupPermissions :: "JwtData \<Rightarrow> PermissionResourceList \<Rightarrow> JwtData" where
  "SetupPermissions data perms = AList.update JwtClaimsKeyPermissions (Strs (prl_Dedup perms)) data"

text \<open>The type assertion of each element: a value that is not a string panics.\<close>

fun claim_strings :: "any_val list \<Rightarrow> string list run" where
  "claim_strings [] = Done []"
| "claim_strings (Str_val s # vs) = run_bind (claim_strings vs) (\<lambda>ss. Done (s # ss))"
| "claim_strings (_ # vs) = Panic"

definition VerifyPermissions ::
  "JwtData \<Rightarrow> PermissionResourceList \<Rightarrow> PermissionOperator \<Rightarrow> bool run" where
  "VerifyPermissions data allowed opr =
     (let dedup = prl_Dedup allowed in
      case map_of data JwtClaimsKeyPermissions of
        Some (Anys permissionField) \<Rightarrow>
          run_bind (claim_strings permissionField) (\<lambda>ps.
            let permissions = remdups ps;
                matched = filter (\<lambda>p. p \<in> set permissions) dedup
            in Done (opr matched (filter (\<lambda>p. p \<notin> set permissions) dedup)
                 (filter (\<lambda>p. p \<notin> set matched) permissions)))
      | _ \<Rightarrow> Panic)"

text \<open>\<open>VerifyPermissionsOnJwtToken\<close>, for a verifier, whose call may itself panic.\<close>

definition VerifyPermissionsOnJwtToken ::
  "(string \<Rightarrow> JwtData res run) \<Rightarrow> string \<Rightarrow> PermissionResourceList \<Rightarrow> PermissionOperator \<Rightarrow> bool res run" where
  "VerifyPermissionsOnJwtToken VerifyJwt token allowed opr =
     run_bind (VerifyJwt token) (\<lambda>r. case r of
        Inl e \<Rightarrow> Done (Inl e)
      | Inr jwtData \<Rightarrow> run_bind (VerifyPermissions jwtData allowed opr) (\<lambda>b. Done (Inr b)))"

section \<open>Lemmas\<close>

lemma set_prl_Dedup: "set (prl_Dedup p) = (\<lambda>(key, val). val @ key) ` set p"
  by (simp add: prl_Dedup_def)

lemma set_fold_update:
  "set (fold (\<lambda>v. AList.update (f v) (g v)) vs p) \<subseteq> set p \<union> (\<lambda>v. (f v, g v)) ` set vs"
proof (induction vs arbitrary: p)
  case (Cons v vs)
  have "set (fold (\<lambda>v. AList.update (f v) (g v)) vs (AList.update (f v) (g v) p))
      \<subseteq> set (AList.update (f v) (g v) p) \<union> (\<lambda>v. (f v, g v)) ` set vs"
    by (rule Cons.IH)
  then show ?case using set_alist_update_subset [of "f v" "g v" p] by auto
qed simp

lemma granted_subset: "set (prl_Dedup (prl_Add perms [])) \<subseteq> pd_ToString ` set perms"
  using set_fold_update [of pd_Name pd_Operation perms "[]"]
  by (auto simp: set_prl_Dedup prl_Add_def pd_ToString_def)

lemma granted_single [simp]: "prl_Dedup (prl_Add [p] []) = [pd_ToString p]"
  by (simp add: prl_Dedup_def prl_Add_def pd_ToString_def)

lemma claim_strings_Str [simp]: "claim_strings (map Str_val ss) = Done ss"
  by (induction ss) auto

lemma claim_strings_Done: "claim_strings vs = Done ss \<longleftrightarrow> vs = map Str_val ss"
proof
  show "vs = map Str_val ss" if "claim_strings vs = Done ss"
    using that by (induction vs arbitrary: ss rule: claim_strings.induct) auto
qed simp

text \<open>The check with \<open>AnyPermissionOperator\<close>: some permission of the claim is among the allowed ones.\<close>

lemma VerifyPermissions_any:
  "VerifyPermissions data allowed AnyPermissionOperator = Done b \<longleftrightarrow>
   (\<exists>ss. map_of data JwtClaimsKeyPermissions = Some (Anys (map Str_val ss)) \<and>
         b = (\<exists>p \<in> set ss. p \<in> set (prl_Dedup allowed)))"
proof -
  have *: "0 < length (filter (\<lambda>p. p \<in> set (remdups ss)) (prl_Dedup allowed)) \<longleftrightarrow>
      (\<exists>p \<in> set ss. p \<in> set (prl_Dedup allowed))" for ss
    by (auto simp: length_greater_0_conv filter_empty_conv)
  show ?thesis
    unfolding VerifyPermissions_def AnyPermissionOperator_def Let_def *
    by (auto split: option.splits any_val.splits simp: claim_strings_Done)
qed

lemma VerifyPermissions_all:
  "VerifyPermissions data allowed AllPermissionOperator = Done b \<longleftrightarrow>
   (\<exists>ss. map_of data JwtClaimsKeyPermissions = Some (Anys (map Str_val ss)) \<and>
         b = (set (prl_Dedup allowed) \<noteq> {} \<and> set (prl_Dedup allowed) \<subseteq> set ss))"
proof -
  have *: "(0 < length (filter (\<lambda>p. p \<in> set (remdups ss)) (prl_Dedup allowed)) \<and>
       length (filter (\<lambda>p. p \<notin> set (remdups ss)) (prl_Dedup allowed)) \<le> 0) \<longleftrightarrow>
      set (prl_Dedup allowed) \<noteq> {} \<and> set (prl_Dedup allowed) \<subseteq> set ss" for ss
    by (cases "prl_Dedup allowed") (auto simp: length_greater_0_conv filter_empty_conv)
  show ?thesis
    unfolding VerifyPermissions_def AllPermissionOperator_def Let_def *
    by (auto split: option.splits any_val.splits simp: claim_strings_Done)
qed

lemma VerifyPermissions_Panic:
  "VerifyPermissions data allowed opr = Panic \<longleftrightarrow>
   (\<nexists>ss. map_of data JwtClaimsKeyPermissions = Some (Anys (map Str_val ss)))"
proof -
  have nb: "claim_strings vs \<noteq> Block" for vs
    by (induction vs rule: claim_strings.induct) (auto simp: run_bind_Block)
  have "claim_strings vs = Panic \<longleftrightarrow> (\<nexists>ss. vs = map Str_val ss)" for vs
    using claim_strings_Done [of vs] nb [of vs] by (cases "claim_strings vs") auto
  then show ?thesis
    unfolding VerifyPermissions_def Let_def
    by (auto split: option.splits any_val.splits simp: run_bind_Panic)
qed

text \<open>What \<open>SetupPermissions\<close> puts into a token is what the check reads from it after the JSON round trip.\<close>

lemma Setup_Verify:
  assumes "perms \<noteq> []"
  shows "VerifyPermissions (map (\<lambda>(k, v). (k, through_json v)) (SetupPermissions data perms)) allowed AnyPermissionOperator =
    Done (\<exists>p \<in> set (prl_Dedup perms). p \<in> set (prl_Dedup allowed))"
proof -
  have ne: "prl_Dedup perms \<noteq> []" using assms by (simp add: prl_Dedup_def)
  have m: "map_of (map (\<lambda>(k, v). (k, through_json v)) m) k = map_option through_json (map_of m k)" for m k
    by (induction m) auto
  have "map_of (map (\<lambda>(k, v). (k, through_json v)) (SetupPermissions data perms)) JwtClaimsKeyPermissions =
      Some (Anys (map Str_val (prl_Dedup perms)))"
    unfolding m SetupPermissions_def using ne by (simp add: update_conv)
  then show ?thesis unfolding VerifyPermissions_any by blast
qed

end
