(* ===== verification/KeyStorage.thy ===== *)
theory KeyStorage
  imports KeyTable
begin

text \<open>
  The key storage on PostgreSQL (\<open>configure/secretimpl/secret.pg.go\<close>): unsealing, storing and
  rotating the key sets of level 1 and the key sets and data keys of level 2, and reading them.
  A call's failures of the database, its random source and its clock are an argument. The
  caches of the source are stubs that never hold a key. A rolled-back insertion
  leaves the counter of ids as it was: nothing but the ids' being distinct matters.
\<close>

section \<open>The state\<close>

record secret_db =
  db1 :: "l1_row list"
  next1 :: int
  db2 :: "l2_row list"
  next2 :: int

record 'pk PostgresKeyStorage =
  pg_unsealed :: bool
  pg_provider :: "'pk unseal_provider option"
  pg_db :: secret_db

text \<open>What may go wrong in one call, by the number of the query or of the transaction within it.\<close>

record 'pk pg_env =
  pe_rng :: "'pk rng"
  pe_now :: int64
  pe_query :: "nat \<Rightarrow> go_error option"
  pe_begin :: "nat \<Rightarrow> go_error option"
  pe_insert :: "go_error option"
  pe_insert_rows :: "go_error option"
  pe_update :: "go_error option"
  pe_update_rows :: "go_error option"
  pe_commit :: "nat \<Rightarrow> go_error option"

definition ErrNoSuchKey :: go_error where "ErrNoSuchKey = Sentinel ''secretapi.ErrNoSuchKey''"

definition ErrUnsealFailedOnMismatchToken :: go_error where
  "ErrUnsealFailedOnMismatchToken = Sentinel ''secretapi.ErrUnsealFailedOnMismatchToken''"

definition MaxTime :: int where "MaxTime = 2 ^ 63 - 1"

text \<open>\<open>NewPostgresKeyStorage\<close> on an empty database.\<close>

definition NewPostgresKeyStorage :: "'pk PostgresKeyStorage" where
  "NewPostgresKeyStorage = \<lparr>pg_unsealed = False, pg_provider = None,
     pg_db = \<lparr>db1 = [], next1 = 1, db2 = [], next2 = 1\<rparr>\<rparr>"

definition markUnsealed :: "'pk PostgresKeyStorage \<Rightarrow> 'pk PostgresKeyStorage" where
  "markUnsealed p = p\<lparr>pg_unsealed := True\<rparr>"

text \<open>
  The transaction of the source: commit on success, roll back on an error or a panic. The
  result is the value of the body and the committed tables; an error leaves the tables as they were, which
  \<open>with_db\<close> expresses for a whole call.
\<close>

definition in_tx :: "'pk pg_env \<Rightarrow> nat \<Rightarrow> secret_db \<Rightarrow> (secret_db \<Rightarrow> ('a \<times> secret_db) res run) \<Rightarrow> ('a \<times> secret_db) res run" where
  "in_tx en i db body =
     (case pe_begin en i of
        Some e \<Rightarrow> Done (Inl e)
      | None \<Rightarrow>
          rr_bind (body db) (\<lambda>(x, db').
            case pe_commit en i of Some e \<Rightarrow> Done (Inl e) | None \<Rightarrow> Done (Inr (x, db'))))"

definition with_db :: "'pk PostgresKeyStorage \<Rightarrow> (unit \<times> secret_db) res run \<Rightarrow> (unit res \<times> 'pk PostgresKeyStorage) run" where
  "with_db p m =
     run_bind m (\<lambda>r. case r of Inl e \<Rightarrow> Done (Inl e, p) | Inr (_, db) \<Rightarrow> Done (Inr (), p\<lparr>pg_db := db\<rparr>))"

section \<open>Level 1\<close>

definition l1_new :: "'pk pg_env \<Rightarrow> string \<Rightarrow> int \<Rightarrow> string \<Rightarrow> bytes \<Rightarrow> secret_db \<Rightarrow> l1_row" where
  "l1_new en name version keyId keyData db =
     \<lparr>k_id = next1 db, k_name = name, k_version = version, k_status = 0, k_encrypted = keyData,
      k_expired = MaxTime, k_created = pe_now en, k_updated = pe_now en, k_use_provider = keyId\<rparr>"

text \<open>\<open>insert into secret_level1\<close>, with the driver's errors.\<close>

definition insert_l1 :: "'pk pg_env \<Rightarrow> l1_row \<Rightarrow> secret_db \<Rightarrow> secret_db res" where
  "insert_l1 en r db =
     (case pe_insert en of
        Some e \<Rightarrow> Inl e
      | None \<Rightarrow> res_bind (insert_row r (db1 db)) (\<lambda>rows. Inr (db\<lparr>db1 := rows, next1 := next1 db + 1\<rparr>)))"

definition rows_affected :: "go_error option \<Rightarrow> unit res" where
  "rows_affected e = (case e of Some e \<Rightarrow> Inl e | None \<Rightarrow> Inr ())"

text \<open>What follows the provider's answer: the initial token is stored, or the stored one is compared.\<close>

definition finish_unseal ::
  "'pk pg_env \<Rightarrow> 'pk unseal_provider \<Rightarrow> string \<Rightarrow> UnsealResponse \<Rightarrow> 'pk PostgresKeyStorage \<Rightarrow> unit res \<times> 'pk PostgresKeyStorage" where
  "finish_unseal en provider encToken resp p =
     (if encToken = [] then
        (case up_Encrypt provider (pe_rng en) (bytes_of DefaultTokenString) of
           Inl e \<Rightarrow> (Inl e, p)
         | Inr (enc, keyId) \<Rightarrow>
             (case insert_l1 en (l1_new en TokenName 1 keyId enc (pg_db p)) (pg_db p) of
                Inl e \<Rightarrow> (Inl e, p)
              | Inr db \<Rightarrow>
                  (case pe_insert_rows en of
                     Some e \<Rightarrow> (Inl e, p\<lparr>pg_db := db\<rparr>)
                   | None \<Rightarrow> (Inr (), markUnsealed (p\<lparr>pg_db := db, pg_provider := Some provider\<rparr>)))))
      else if ur_Token resp \<noteq> DefaultTokenString then (Inl ErrUnsealFailedOnMismatchToken, p)
      else (Inr (), markUnsealed (p\<lparr>pg_provider := Some provider\<rparr>)))"

text \<open>The stored token; a missing row reads as the empty string.\<close>

definition stored_token :: "secret_db \<Rightarrow> string" where
  "stored_token db = (case find (\<lambda>r. k_name r = TokenName) (db1 db) of None \<Rightarrow> [] | Some r \<Rightarrow> string_of (k_encrypted r))"

definition SetupUnsealProviderAndWait ::
  "'pk pg_env \<Rightarrow> 'pk unseal_provider \<Rightarrow> 'pk PostgresKeyStorage \<Rightarrow> (unit res \<times> 'pk PostgresKeyStorage) run" where
  "SetupUnsealProviderAndWait en provider p =
     (case pe_query en 0 of
        Some e \<Rightarrow> Done (Inl e, p)
      | None \<Rightarrow>
          let encToken = stored_token (pg_db p)
          in run_bind (up_Wait provider encToken) (\<lambda>res. case res of
               Inl e \<Rightarrow> Done (Inl e, p)
             | Inr resp \<Rightarrow> Done (finish_unseal en provider encToken resp p)))"

text \<open>
  The transaction that inserts the next version and makes the older ones read-only.
  In \<open>StoreLevel1KeySet\<close> the error of the version's query is dropped: the version then starts at 0.
\<close>

definition store_l1 :: "'pk pg_env \<Rightarrow> l1_row \<Rightarrow> secret_db \<Rightarrow> (unit \<times> secret_db) res" where
  "store_l1 en r db =
     res_bind (insert_l1 en r db) (\<lambda>db.
     res_bind (rows_affected (pe_insert_rows en)) (\<lambda>_.
     res_bind (rows_affected (pe_update en)) (\<lambda>_.
     let db = db\<lparr>db1 := retire (pe_now en) (k_name r) (k_version r) (db1 db)\<rparr> in
     res_bind (rows_affected (pe_update_rows en)) (\<lambda>_. Inr ((), db)))))"

definition seal_l1 :: "'pk keylib \<Rightarrow> 'pk pg_env \<Rightarrow> KeySet \<Rightarrow> 'pk PostgresKeyStorage \<Rightarrow> (bytes \<times> string) res run" where
  "seal_l1 lib en key p =
     rr_bind (Done (kl_json_marshal lib key)) (\<lambda>rawData.
       case pg_provider p of None \<Rightarrow> Panic | Some up \<Rightarrow> Done (up_Encrypt up (pe_rng en) rawData))"

definition StoreLevel1KeySet ::
  "'pk keylib \<Rightarrow> 'pk pg_env \<Rightarrow> string \<Rightarrow> KeySet \<Rightarrow> 'pk PostgresKeyStorage \<Rightarrow> (unit res \<times> 'pk PostgresKeyStorage) run" where
  "StoreLevel1KeySet lib en name key p =
     with_db p (
       rr_bind (Done (checkAvailableKeyName name)) (\<lambda>_.
       if \<not> VerifyCrc key then Done (Inl (Errorf ''invalid key crc''))
       else
         let maxVersion = (case pe_query en 0 of Some e \<Rightarrow> 0 | None \<Rightarrow> max_version name (db1 (pg_db p)));
             nextVersion = maxVersion + 1
         in rr_bind (seal_l1 lib en key p) (\<lambda>(keyData, keyId).
            in_tx en 0 (pg_db p) (\<lambda>db. Done (store_l1 en (l1_new en name nextVersion keyId keyData db) db)))))"

text \<open>Decryption by the provider; the nil provider of a storage that is still sealed panics.\<close>

definition decrypt_l1 :: "'pk keylib \<Rightarrow> 'pk PostgresKeyStorage \<Rightarrow> bytes \<Rightarrow> KeySet res run" where
  "decrypt_l1 lib p data =
     (case pg_provider p of None \<Rightarrow> Panic | Some up \<Rightarrow> keySetDecrypt lib data up)"

definition loadLevel1KeySetInternal ::
  "'pk keylib \<Rightarrow> go_error option \<Rightarrow> 'pk PostgresKeyStorage \<Rightarrow> secret_db \<Rightarrow> string \<Rightarrow> (int \<times> KeySet) res run" where
  "loadLevel1KeySetInternal lib qe p db name =
     (case qe of
        Some e \<Rightarrow> Done (Inl e)
      | None \<Rightarrow>
          (case active_row name (db1 db) of
             None \<Rightarrow> Done (Inl ErrNoSuchKey)
           | Some r \<Rightarrow> rr_bind (decrypt_l1 lib p (k_encrypted r)) (\<lambda>ks. Done (Inr (k_id r, ks)))))"

definition LoadLevel1KeySet ::
  "'pk keylib \<Rightarrow> 'pk pg_env \<Rightarrow> 'pk PostgresKeyStorage \<Rightarrow> string \<Rightarrow> (int \<times> KeySet) res run" where
  "LoadLevel1KeySet lib en p name =
     rr_bind (in_tx en 0 (pg_db p) (\<lambda>db.
         rr_bind (loadLevel1KeySetInternal lib (pe_query en 0) p db name) (\<lambda>x. Done (Inr (x, db)))))
       (\<lambda>(x, _). Done (Inr x))"

definition LoadLevel1KeySetById ::
  "'pk keylib \<Rightarrow> go_error option \<Rightarrow> 'pk PostgresKeyStorage \<Rightarrow> int \<Rightarrow> KeySet res run" where
  "LoadLevel1KeySetById lib qe p i =
     (case qe of
        Some e \<Rightarrow> Done (Inl e)
      | None \<Rightarrow>
          (case row_by_id i (db1 (pg_db p)) of
             None \<Rightarrow> Done (Inl ErrNoSuchKey)
           | Some r \<Rightarrow> decrypt_l1 lib p (k_encrypted r)))"

section \<open>Level 2\<close>

definition l2_new :: "'pk pg_env \<Rightarrow> string \<Rightarrow> int \<Rightarrow> int \<Rightarrow> string \<Rightarrow> bytes \<Rightarrow> secret_db \<Rightarrow> l2_row" where
  "l2_new en name version lv1KeyId typ keyData db =
     \<lparr>k_id = next2 db, k_name = name, k_version = version, k_status = 0, k_encrypted = keyData,
      k_expired = MaxTime, k_created = pe_now en, k_updated = pe_now en, k_use_l1 = lv1KeyId, k_type = typ\<rparr>"

definition insert_l2 :: "'pk pg_env \<Rightarrow> l2_row \<Rightarrow> secret_db \<Rightarrow> secret_db res" where
  "insert_l2 en r db =
     (case pe_insert en of
        Some e \<Rightarrow> Inl e
      | None \<Rightarrow> res_bind (insert_row r (db2 db)) (\<lambda>rows. Inr (db\<lparr>db2 := rows, next2 := next2 db + 1\<rparr>)))"

text \<open>The insertion of the next version and the update of the older ones, as both store operations do them.\<close>

definition store_l2 :: "'pk pg_env \<Rightarrow> l2_row \<Rightarrow> secret_db \<Rightarrow> (unit \<times> secret_db) res" where
  "store_l2 en r db =
     res_bind (insert_l2 en r db) (\<lambda>db.
     res_bind (rows_affected (pe_insert_rows en)) (\<lambda>_.
     res_bind (rows_affected (pe_update en)) (\<lambda>_.
     let db = db\<lparr>db2 := retire (pe_now en) (k_name r) (k_version r) (db2 db)\<rparr> in
     res_bind (rows_affected (pe_update_rows en)) (\<lambda>_. Inr ((), db)))))"

text \<open>The type and version of a name's latest row, or the given type and 0.\<close>

definition recent_version :: "go_error option \<Rightarrow> KeyType \<Rightarrow> string \<Rightarrow> secret_db \<Rightarrow> (KeyType \<times> int) res run" where
  "recent_version qe kt name db =
     (case qe of
        Some e \<Rightarrow> Done (Inl e)
      | None \<Rightarrow>
          (case latest_row name (db2 db) of
             None \<Rightarrow> Done (Inr (kt, 0))
           | Some r \<Rightarrow> run_bind (kt_FromString (k_type r)) (\<lambda>k. Done (Inr (k, k_version r)))))"

text \<open>The name of a key type, written by both store operations.\<close>

definition type_name :: "KeyType \<Rightarrow> string res run" where
  "type_name k = run_bind (kt_String k) (\<lambda>s. Done (Inr s))"

definition StoreLevel2KeySet ::
  "'pk keylib \<Rightarrow> 'pk pg_env \<Rightarrow> string \<Rightarrow> string \<Rightarrow> KeySet \<Rightarrow> 'pk PostgresKeyStorage \<Rightarrow> (unit res \<times> 'pk PostgresKeyStorage) run" where
  "StoreLevel2KeySet lib en level1KeyName name key p =
     with_db p (
       rr_bind (Done (checkAvailableKeyName name)) (\<lambda>_.
       if \<not> VerifyCrc key then Done (Inl (Errorf ''invalid key crc''))
       else
         rr_bind (LoadLevel1KeySet lib en p level1KeyName) (\<lambda>(lv1KeyId, lv1Ks).
         rr_bind (Done (keySetEncryptByL1 lib (pe_rng en) key (word_of_int lv1KeyId) lv1Ks)) (\<lambda>keyData.
         rr_bind (recent_version (pe_query en 1) KeyKeySet name (pg_db p)) (\<lambda>(keyType, maxVersion).
         rr_bind (Done (checkRotateLevel2Key keyType KeyKeySet)) (\<lambda>_.
           in_tx en 1 (pg_db p) (\<lambda>db.
             rr_bind (type_name keyType) (\<lambda>typ.
               Done (store_l2 en (l2_new en name (maxVersion + 1) lv1KeyId typ keyData db) db)))))))))"

definition StoreL2DataKey ::
  "'pk keylib \<Rightarrow> 'pk pg_env \<Rightarrow> string \<Rightarrow> string \<Rightarrow> KeyType \<Rightarrow> bytes \<Rightarrow> 'pk PostgresKeyStorage \<Rightarrow> (unit res \<times> 'pk PostgresKeyStorage) run" where
  "StoreL2DataKey lib en l1KeyName name kt key p =
     with_db p (in_tx en 0 (pg_db p) (\<lambda>db.
       rr_bind (recent_version (pe_query en 0) kt name db) (\<lambda>(keyType, maxVersion).
       rr_bind (Done (checkRotateLevel2Key keyType kt)) (\<lambda>_.
       rr_bind (loadLevel1KeySetInternal lib (pe_query en 1) p db l1KeyName) (\<lambda>(lv1KeyId, lv1Ks).
       rr_bind (Done (dataEncryptByL1 lib (pe_rng en) key (word_of_int lv1KeyId) lv1Ks)) (\<lambda>ciphertext.
       rr_bind (type_name keyType) (\<lambda>typ.
         Done (store_l2 en (l2_new en name (maxVersion + 1) lv1KeyId typ ciphertext db) db))))))))"

text \<open>The reads: \<open>qe\<close> gives the failure of each query.\<close>

definition read_data ::
  "'pk keylib \<Rightarrow> (nat \<Rightarrow> go_error option) \<Rightarrow> 'pk PostgresKeyStorage \<Rightarrow> l2_row \<Rightarrow> (KeyType \<times> bytes) res run" where
  "read_data lib qe p r =
     run_bind (kt_FromString (k_type r)) (\<lambda>keyType.
     rr_bind (LoadLevel1KeySetById lib (qe 1) p (k_use_l1 r)) (\<lambda>ks.
     rr_bind (dataDecryptByL1 lib (k_encrypted r) ks) (\<lambda>(_, keyData). Done (Inr (keyType, keyData)))))"

definition FetchL2DataKey ::
  "'pk keylib \<Rightarrow> (nat \<Rightarrow> go_error option) \<Rightarrow> string \<Rightarrow> 'pk PostgresKeyStorage \<Rightarrow> (int \<times> KeyType \<times> bytes) res run" where
  "FetchL2DataKey lib qe name p =
     (case qe 0 of
        Some e \<Rightarrow> Done (Inl e)
      | None \<Rightarrow>
          (case active_row name (db2 (pg_db p)) of
             None \<Rightarrow> Done (Inl ErrNoSuchKey)
           | Some r \<Rightarrow> rr_bind (read_data lib qe p r) (\<lambda>(kt, k). Done (Inr (k_id r, kt, k)))))"

definition LoadL2DataKeyById ::
  "'pk keylib \<Rightarrow> (nat \<Rightarrow> go_error option) \<Rightarrow> int \<Rightarrow> 'pk PostgresKeyStorage \<Rightarrow> (KeyType \<times> bytes) res run" where
  "LoadL2DataKeyById lib qe i p =
     (case qe 0 of
        Some e \<Rightarrow> Done (Inl e)
      | None \<Rightarrow>
          (case row_by_id i (db2 (pg_db p)) of
             None \<Rightarrow> Done (Inl ErrNoSuchKey)
           | Some r \<Rightarrow> read_data lib qe p r))"

definition FetchLevel2KeySet ::
  "'pk keylib \<Rightarrow> (nat \<Rightarrow> go_error option) \<Rightarrow> string \<Rightarrow> 'pk PostgresKeyStorage \<Rightarrow> (int \<times> KeySet) res run" where
  "FetchLevel2KeySet lib qe name p =
     (case qe 0 of
        Some e \<Rightarrow> Done (Inl e)
      | None \<Rightarrow>
          (case active_row name (db2 (pg_db p)) of
             None \<Rightarrow> Done (Inl ErrNoSuchKey)
           | Some r \<Rightarrow>
               run_bind (kt_FromString (k_type r)) (\<lambda>keyType.
               if keyType \<noteq> KeyKeySet then Done (Inl (Errorf ''invalid key type''))
               else rr_bind (LoadLevel1KeySetById lib (qe 1) p (k_use_l1 r)) (\<lambda>ks.
                    rr_bind (keySetDecryptByL1 lib (k_encrypted r) ks) (\<lambda>(_, keySet). Done (Inr (k_id r, keySet)))))))"

definition LoadLevel2KeySetById ::
  "'pk keylib \<Rightarrow> (nat \<Rightarrow> go_error option) \<Rightarrow> int \<Rightarrow> 'pk PostgresKeyStorage \<Rightarrow> KeySet res run" where
  "LoadLevel2KeySetById lib qe i p =
     (case qe 0 of
        Some e \<Rightarrow> Done (Inl e)
      | None \<Rightarrow>
          (case row_by_id i (db2 (pg_db p)) of
             None \<Rightarrow> Done (Inl ErrNoSuchKey)
           | Some r \<Rightarrow>
               run_bind (kt_FromString (k_type r)) (\<lambda>keyType.
               rr_bind (LoadLevel1KeySetById lib (qe 1) p (k_use_l1 r)) (\<lambda>ks.
               rr_bind (keySetDecryptByL1 lib (k_encrypted r) ks) (\<lambda>(_, keySet). Done (Inr keySet))))))"

end
