(* ===== verification/KeyRotation.thy ===== *)
theory KeyRotation
  imports KeyStorage
begin

text \<open>
  What the key storage promises: its tables stay well-formed, a failed call changes nothing, a
  stored key is the one that is fetched by its name, and a key is loaded by its id for ever,
  whatever is stored or rotated later. The laws are the locale \<open>key_storage\<close>, which the clients of the Go
  interface \<open>KeyStorage\<close> are proved in; the storage's model is its interpretation.
\<close>

section \<open>The operations as data\<close>

datatype key_op =
    StoreL1 string KeySet
  | StoreL2 string string KeySet
  | StoreData string string KeyType bytes

fun exec :: "'pk keylib \<Rightarrow> 'pk pg_env \<Rightarrow> key_op \<Rightarrow> 'pk PostgresKeyStorage \<Rightarrow> (unit res \<times> 'pk PostgresKeyStorage) run" where
  "exec lib en (StoreL1 name key) p = StoreLevel1KeySet lib en name key p"
| "exec lib en (StoreL2 l1 name key) p = StoreLevel2KeySet lib en l1 name key p"
| "exec lib en (StoreData l1 name kt key) p = StoreL2DataKey lib en l1 name kt key p"

text \<open>The name of level 2 an operation writes.\<close>

fun written :: "key_op \<Rightarrow> string option" where
  "written (StoreL1 _ _) = None"
| "written (StoreL2 _ name _) = Some name"
| "written (StoreData _ name _ _) = Some name"

section \<open>The invariant\<close>

text \<open>
  Both tables are well-formed, every row of level 2 refers to a row of level 1, and the rows of a
  name of level 2 have one known key type.
\<close>

definition secret_ok :: "secret_db \<Rightarrow> bool" where
  "secret_ok db \<longleftrightarrow> rows_ok (next1 db) (db1 db) \<and> rows_ok (next2 db) (db2 db) \<and>
     (\<forall>r \<in> set (db2 db). k_use_l1 r \<in> k_id ` set (db1 db) \<and> (\<exists>kt. kt_String kt = Done (k_type r)) \<and>
        (\<forall>x \<in> set (db2 db). k_name x = k_name r \<longrightarrow> k_type x = k_type r))"

lemma secret_okD:
  assumes "secret_ok db"
  shows "rows_ok (next1 db) (db1 db)" "rows_ok (next2 db) (db2 db)"
    and "r \<in> set (db2 db) \<Longrightarrow> k_use_l1 r \<in> k_id ` set (db1 db)"
    and "r \<in> set (db2 db) \<Longrightarrow> \<exists>kt. kt_String kt = Done (k_type r)"
    and "r \<in> set (db2 db) \<Longrightarrow> x \<in> set (db2 db) \<Longrightarrow> k_name x = k_name r \<Longrightarrow> k_type x = k_type r"
  using assms unfolding secret_ok_def by blast+

lemma secret_okI:
  assumes "rows_ok (next1 db) (db1 db)" "rows_ok (next2 db) (db2 db)"
    and "\<And>r. r \<in> set (db2 db) \<Longrightarrow> k_use_l1 r \<in> k_id ` set (db1 db)"
    and "\<And>r. r \<in> set (db2 db) \<Longrightarrow> \<exists>kt. kt_String kt = Done (k_type r)"
    and "\<And>r x. r \<in> set (db2 db) \<Longrightarrow> x \<in> set (db2 db) \<Longrightarrow> k_name x = k_name r \<Longrightarrow> k_type x = k_type r"
  shows "secret_ok db"
  using assms unfolding secret_ok_def by blast

lemma pg_db_self [simp]: "p\<lparr>pg_db := pg_db p\<rparr> = p"
  by (cases p) simp

section \<open>The shape of a store\<close>

definition next_row :: "int \<Rightarrow> 'a key_row_scheme \<Rightarrow> 'a key_row_scheme list \<Rightarrow> bool" where
  "next_row nxt r rows \<longleftrightarrow> k_id r = nxt \<and> k_version r = max_version (k_name r) rows + 1 \<and> k_status r = 0"

lemma rows_ok_next: "rows_ok nxt rows \<Longrightarrow> next_row nxt r rows \<Longrightarrow> rows_ok (nxt + 1) (rotate now r rows)"
  unfolding next_row_def by (rule rows_ok_rotate) simp_all

lemma in_tx_Inr:
  "in_tx en i db body = Done (Inr (x, db')) \<longleftrightarrow>
   pe_begin en i = None \<and> pe_commit en i = None \<and> body db = Done (Inr (x, db'))"
  by (auto simp: in_tx_def rr_bind_Inr split: option.splits)

lemma with_db_Inr: "with_db p m = Done (Inr (), p') \<longleftrightarrow> (\<exists>u db. m = Done (Inr (u, db)) \<and> p' = p\<lparr>pg_db := db\<rparr>)"
  unfolding with_db_def by (cases m) (auto split: sum.splits)

lemma with_db_Inl: "with_db p m = Done (Inl e, p') \<Longrightarrow> p' = p"
  unfolding with_db_def by (cases m) (auto split: sum.splits)

lemma type_name_Inr: "type_name k = Done (Inr s) \<longleftrightarrow> kt_String k = Done s"
  by (auto simp: type_name_def)

lemmas store_Inr = rr_bind_Inr in_tx_Inr with_db_Inr type_name_Inr

lemma checkRotate_Inr: "checkRotateLevel2Key k k' = Inr u \<longleftrightarrow> k = k' \<and> k \<noteq> 0"
  by (auto simp: checkRotateLevel2Key_def)

lemma insert_row_Inr: "insert_row r rows = Inr rows' \<longleftrightarrow> rows' = rows @ [r] \<and>
    \<not> (\<exists>x \<in> set rows. k_name x = k_name r \<and> k_version x = k_version r)"
  by (auto simp: insert_row_def)

lemma rows_affected_Inr: "rows_affected e = Inr u \<longleftrightarrow> e = None"
  by (auto simp: rows_affected_def split: option.splits)

lemma store_l2_Inr:
  assumes "store_l2 en r db = Inr (u, db')"
  shows "db' = db\<lparr>db2 := rotate (pe_now en) r (db2 db), next2 := next2 db + 1\<rparr>"
  using assms by (auto simp: store_l2_def insert_l2_def insert_row_Inr rotate_def Let_def split: option.splits)

lemma recent_version_Inr:
  assumes "recent_version qe kt name db = Done (Inr (k, v))"
  shows "v = max_version name (db2 db) \<and> (k = kt \<or> (\<exists>r \<in> set (db2 db). k_name r = name \<and> kt_FromString (k_type r) = Done k)) \<and>
    (\<forall>r. latest_row name (db2 db) = Some r \<longrightarrow> kt_FromString (k_type r) = Done k)"
  using assms unfolding recent_version_def
  by (auto simp: max_version_def latest_row_def set_named split: option.splits dest: top_by_Some)

lemma latest_row_in: "latest_row n rows = Some r \<Longrightarrow> r \<in> set rows \<and> k_name r = n"
  by (auto simp: latest_row_def set_named dest!: top_by_Some)

lemma active_row_in: "active_row n rows = Some r \<Longrightarrow> r \<in> set rows \<and> k_name r = n"
  by (auto simp: active_row_def set_named dest!: top_by_Some)

lemma latest_row_None: "latest_row n rows = None \<longleftrightarrow> (\<forall>r \<in> set rows. k_name r \<noteq> n)"
  by (auto simp: latest_row_def named_def filter_empty_conv)

lemma loadLevel1_Inr:
  "loadLevel1KeySetInternal lib qe p db name = Done (Inr (i, ks)) \<longleftrightarrow>
   qe = None \<and> (\<exists>r. active_row name (db1 db) = Some r \<and> i = k_id r \<and> decrypt_l1 lib p (k_encrypted r) = Done (Inr ks))"
  by (auto simp: loadLevel1KeySetInternal_def rr_bind_Inr split: option.splits)

text \<open>A data key that was stored: the row of its next version, encrypted by the valid key of level 1.\<close>

lemma StoreL2DataKey_Inr:
  assumes "StoreL2DataKey lib en l1 name kt key p = Done (Inr (), p')"
  shows "\<exists>r1 ks cipher tn. active_row l1 (db1 (pg_db p)) = Some r1 \<and> decrypt_l1 lib p (k_encrypted r1) = Done (Inr ks) \<and>
     dataEncryptByL1 lib (pe_rng en) key (word_of_int (k_id r1)) ks = Inr cipher \<and>
     kt_String kt = Done tn \<and> (\<forall>r. latest_row name (db2 (pg_db p)) = Some r \<longrightarrow> kt_FromString (k_type r) = Done kt) \<and>
     (let r = l2_new en name (max_version name (db2 (pg_db p)) + 1) (k_id r1) tn cipher (pg_db p) in
      p' = p\<lparr>pg_db := (pg_db p)\<lparr>db2 := rotate (pe_now en) r (db2 (pg_db p)), next2 := next2 (pg_db p) + 1\<rparr>\<rparr>)"
proof -
  let ?db = "pg_db p"
  from assms obtain mv i ks cipher tn db' where l: "recent_version (pe_query en 0) kt name ?db = Done (Inr (kt, mv))"
    "loadLevel1KeySetInternal lib (pe_query en 1) p ?db l1 = Done (Inr (i, ks))"
    "dataEncryptByL1 lib (pe_rng en) key (word_of_int i) ks = Inr cipher" "kt_String kt = Done tn"
    "store_l2 en (l2_new en name (mv + 1) i tn cipher ?db) ?db = Inr ((), db')"
    and p': "p' = p\<lparr>pg_db := db'\<rparr>"
    unfolding StoreL2DataKey_def by (auto simp: store_Inr checkRotate_Inr)
  from l(2) obtain r1 where "active_row l1 (db1 ?db) = Some r1" "i = k_id r1" "decrypt_l1 lib p (k_encrypted r1) = Done (Inr ks)"
    unfolding loadLevel1_Inr by blast
  then show ?thesis
    using l(3,4) recent_version_Inr [OF l(1)] p' store_l2_Inr [OF l(5)] unfolding Let_def by blast
qed

lemma StoreL2DataKey_Inl:
  "StoreL2DataKey lib en l1 name kt key p = Done (Inl e, p') \<Longrightarrow> p' = p"
  unfolding StoreL2DataKey_def by (rule with_db_Inl)

text \<open>The same for a key set of level 2.\<close>

lemma StoreLevel2KeySet_Inr:
  assumes "StoreLevel2KeySet lib en l1 name key p = Done (Inr (), p')"
  shows "\<exists>r1 ks cipher tn. active_row l1 (db1 (pg_db p)) = Some r1 \<and> decrypt_l1 lib p (k_encrypted r1) = Done (Inr ks) \<and>
     keySetEncryptByL1 lib (pe_rng en) key (word_of_int (k_id r1)) ks = Inr cipher \<and> VerifyCrc key \<and>
     kt_String KeyKeySet = Done tn \<and> (\<forall>r. latest_row name (db2 (pg_db p)) = Some r \<longrightarrow> kt_FromString (k_type r) = Done KeyKeySet) \<and>
     (let r = l2_new en name (max_version name (db2 (pg_db p)) + 1) (k_id r1) tn cipher (pg_db p) in
      p' = p\<lparr>pg_db := (pg_db p)\<lparr>db2 := rotate (pe_now en) r (db2 (pg_db p)), next2 := next2 (pg_db p) + 1\<rparr>\<rparr>)"
proof -
  let ?db = "pg_db p"
  from assms obtain mv i ks cipher tn db' where l: "LoadLevel1KeySet lib en p l1 = Done (Inr (i, ks))"
    "keySetEncryptByL1 lib (pe_rng en) key (word_of_int i) ks = Inr cipher"
    "recent_version (pe_query en 1) KeyKeySet name ?db = Done (Inr (KeyKeySet, mv))" "kt_String KeyKeySet = Done tn"
    "store_l2 en (l2_new en name (mv + 1) i tn cipher ?db) ?db = Inr ((), db')" "VerifyCrc key"
    and p': "p' = p\<lparr>pg_db := db'\<rparr>"
    unfolding StoreLevel2KeySet_def by (auto simp: store_Inr checkRotate_Inr split: if_splits)
  from l(1) obtain r1 where "active_row l1 (db1 ?db) = Some r1" "i = k_id r1" "decrypt_l1 lib p (k_encrypted r1) = Done (Inr ks)"
    unfolding LoadLevel1KeySet_def by (auto simp: store_Inr loadLevel1_Inr)
  then show ?thesis
    using l(2,4,6) recent_version_Inr [OF l(3)] p' store_l2_Inr [OF l(5)] unfolding Let_def by blast
qed

lemma StoreLevel2KeySet_Inl: "StoreLevel2KeySet lib en l1 name key p = Done (Inl e, p') \<Longrightarrow> p' = p"
  unfolding StoreLevel2KeySet_def by (rule with_db_Inl)

text \<open>A key set of level 1; the unique index stops a rotation whose version query failed.\<close>

lemma StoreLevel1KeySet_Inr:
  assumes "StoreLevel1KeySet lib en name key p = Done (Inr (), p')" and ok: "rows_ok (next1 (pg_db p)) (db1 (pg_db p))"
  shows "\<exists>rawData up keyData keyId. kl_json_marshal lib key = Inr rawData \<and> pg_provider p = Some up \<and>
     up_Encrypt up (pe_rng en) rawData = Inr (keyData, keyId) \<and> VerifyCrc key \<and> name \<noteq> TokenName \<and>
     (let r = l1_new en name (max_version name (db1 (pg_db p)) + 1) keyId keyData (pg_db p) in
      p' = p\<lparr>pg_db := (pg_db p)\<lparr>db1 := rotate (pe_now en) r (db1 (pg_db p)), next1 := next1 (pg_db p) + 1\<rparr>\<rparr>)"
proof -
  let ?db = "pg_db p"
  define mv where "mv = (case pe_query en 0 of Some e \<Rightarrow> 0 | None \<Rightarrow> max_version name (db1 ?db))"
  from assms(1) obtain rawData up keyData keyId db' where l: "kl_json_marshal lib key = Inr rawData" "pg_provider p = Some up"
    "up_Encrypt up (pe_rng en) rawData = Inr (keyData, keyId)" "VerifyCrc key" "name \<noteq> TokenName"
    "store_l1 en (l1_new en name (mv + 1) keyId keyData ?db) ?db = Inr ((), db')"
    and p': "p' = p\<lparr>pg_db := db'\<rparr>"
    unfolding StoreLevel1KeySet_def mv_def [symmetric] checkAvailableKeyName_def
    by (auto simp: store_Inr seal_l1_def Let_def split: if_splits option.splits)
  let ?r = "l1_new en name (mv + 1) keyId keyData ?db"
  from l(6) have ins: "insert_row ?r (db1 ?db) = Inr (db1 ?db @ [?r])"
    and db': "db' = ?db\<lparr>db1 := rotate (pe_now en) ?r (db1 ?db), next1 := next1 ?db + 1\<rparr>"
    by (auto simp: store_l1_def insert_l1_def insert_row_Inr rotate_def Let_def split: option.splits)
  have "mv = max_version name (db1 ?db)"
  proof (cases "pe_query en 0")
    case (Some e)
    then have mv: "mv = 0" by (simp add: mv_def)
    have "latest_row name (db1 ?db) = None"
    proof (rule ccontr)
      assume "latest_row name (db1 ?db) \<noteq> None"
      then obtain z where "z \<in> set (db1 ?db)" "k_name z = name" using latest_row_in by blast
      then obtain x where "x \<in> set (db1 ?db)" "k_name x = name" "k_version x = 1"
        using rows_okD(2,4) [OF ok, of z] by (metis order_refl)
      then show False using ins mv by (auto simp: insert_row_Inr l1_new_def)
    qed
    then show ?thesis using mv by (simp add: max_version_def)
  qed (simp add: mv_def)
  then show ?thesis using l(1-5) p' db' unfolding Let_def by blast
qed

lemma StoreLevel1KeySet_Inl: "StoreLevel1KeySet lib en name key p = Done (Inl e, p') \<Longrightarrow> p' = p"
  unfolding StoreLevel1KeySet_def by (rule with_db_Inl)

section \<open>Every operation keeps the tables well-formed\<close>

lemma same_key_l2: "same_key (x :: l2_row) y \<Longrightarrow> k_use_l1 x = k_use_l1 y \<and> k_type x = k_type y"
  unfolding same_key_def by (cases x; cases y) simp

lemma latest_type:
  assumes "secret_ok db" "latest_row n (db2 db) = Some z" "kt_FromString (k_type z) = Done kt" "kt_String kt = Done s"
    and "x \<in> set (db2 db)" "k_name x = n"
  shows "k_type x = s"
proof -
  have z: "z \<in> set (db2 db)" "k_name z = n" using latest_row_in [OF assms(2)] by auto
  obtain kt0 where "kt_String kt0 = Done (k_type z)" using secret_okD(4) [OF assms(1) z(1)] by blast
  with assms(3) FromString_String_Done have "kt0 = kt" by fastforce
  with \<open>kt_String kt0 = Done (k_type z)\<close> assms(4) have "k_type z = s" by simp
  then show ?thesis using secret_okD(5) [OF assms(1) z(1) assms(5)] z(2) assms(6) by simp
qed

definition grow1 :: "secret_db \<Rightarrow> secret_db \<Rightarrow> bool" where
  "grow1 db db' \<longleftrightarrow> (\<exists>now r. next_row (next1 db) r (db1 db) \<and>
     db' = db\<lparr>db1 := rotate now r (db1 db), next1 := next1 db + 1\<rparr>)"

definition grow2 :: "string \<Rightarrow> secret_db \<Rightarrow> secret_db \<Rightarrow> bool" where
  "grow2 name db db' \<longleftrightarrow> (\<exists>now r. k_name r = name \<and> next_row (next2 db) r (db2 db) \<and> k_use_l1 r \<in> k_id ` set (db1 db) \<and>
     (\<exists>kt. kt_String kt = Done (k_type r)) \<and> (\<forall>x \<in> set (db2 db). k_name x = name \<longrightarrow> k_type x = k_type r) \<and>
     db' = db\<lparr>db2 := rotate now r (db2 db), next2 := next2 db + 1\<rparr>)"

lemma grow2_store:
  assumes ok: "secret_ok db" and r1: "active_row l1 (db1 db) = Some r1" and tn: "kt_String kt = Done tn"
    and lt: "\<forall>r. latest_row name (db2 db) = Some r \<longrightarrow> kt_FromString (k_type r) = Done kt"
  shows "grow2 name db (db\<lparr>db2 := rotate now (l2_new en name (max_version name (db2 db) + 1) (k_id r1) tn c db) (db2 db),
     next2 := next2 db + 1\<rparr>)"
proof -
  let ?r = "l2_new en name (max_version name (db2 db) + 1) (k_id r1) tn c db"
  have "k_type x = tn" if x: "x \<in> set (db2 db)" "k_name x = name" for x
  proof -
    obtain z where "latest_row name (db2 db) = Some z" using x latest_row_None [of name "db2 db"] by fastforce
    with latest_type [OF ok _ _ tn x] lt show ?thesis by blast
  qed
  moreover have "k_id r1 \<in> k_id ` set (db1 db)" using active_row_in [OF r1] by auto
  moreover have "next_row (next2 db) ?r (db2 db)" by (simp add: next_row_def l2_new_def)
  ultimately show ?thesis unfolding grow2_def
    using tn by (intro exI [of _ now] exI [of _ ?r]) (auto simp: l2_new_def)
qed

lemma exec_Inr:
  assumes ok: "secret_ok (pg_db p)" and e: "exec lib en op p = Done (Inr (), p')"
  shows "pg_provider p' = pg_provider p \<and> (case written op of None \<Rightarrow> grow1 (pg_db p) (pg_db p') | Some n \<Rightarrow> grow2 n (pg_db p) (pg_db p'))"
proof (cases op)
  case (StoreL1 name key)
  have "StoreLevel1KeySet lib en name key p = Done (Inr (), p')" using e StoreL1 by simp
  from StoreLevel1KeySet_Inr [OF this secret_okD(1) [OF ok]]
  obtain keyId keyData where p': "p' = p\<lparr>pg_db := (pg_db p)\<lparr>db1 := rotate (pe_now en)
      (l1_new en name (max_version name (db1 (pg_db p)) + 1) keyId keyData (pg_db p)) (db1 (pg_db p)), next1 := next1 (pg_db p) + 1\<rparr>\<rparr>"
    unfolding Let_def by blast
  have "grow1 (pg_db p) (pg_db p')"
    unfolding grow1_def p'
    by (intro exI [of _ "pe_now en"] exI [of _ "l1_new en name (max_version name (db1 (pg_db p)) + 1) keyId keyData (pg_db p)"])
      (simp add: next_row_def l1_new_def)
  then show ?thesis using StoreL1 p' by simp
next
  case (StoreL2 l1 name key)
  have "StoreLevel2KeySet lib en l1 name key p = Done (Inr (), p')" using e StoreL2 by simp
  from StoreLevel2KeySet_Inr [OF this]
  obtain r1 c tn where r1: "active_row l1 (db1 (pg_db p)) = Some r1" "kt_String KeyKeySet = Done tn"
    "\<forall>r. latest_row name (db2 (pg_db p)) = Some r \<longrightarrow> kt_FromString (k_type r) = Done KeyKeySet"
    and p': "p' = p\<lparr>pg_db := (pg_db p)\<lparr>db2 := rotate (pe_now en)
      (l2_new en name (max_version name (db2 (pg_db p)) + 1) (k_id r1) tn c (pg_db p)) (db2 (pg_db p)), next2 := next2 (pg_db p) + 1\<rparr>\<rparr>"
    unfolding Let_def by blast
  then show ?thesis using StoreL2 grow2_store [OF ok r1] by simp
next
  case (StoreData l1 name kt key)
  have "StoreL2DataKey lib en l1 name kt key p = Done (Inr (), p')" using e StoreData by simp
  from StoreL2DataKey_Inr [OF this]
  obtain r1 c tn where r1: "active_row l1 (db1 (pg_db p)) = Some r1" "kt_String kt = Done tn"
    "\<forall>r. latest_row name (db2 (pg_db p)) = Some r \<longrightarrow> kt_FromString (k_type r) = Done kt"
    and p': "p' = p\<lparr>pg_db := (pg_db p)\<lparr>db2 := rotate (pe_now en)
      (l2_new en name (max_version name (db2 (pg_db p)) + 1) (k_id r1) tn c (pg_db p)) (db2 (pg_db p)), next2 := next2 (pg_db p) + 1\<rparr>\<rparr>"
    unfolding Let_def by blast
  then show ?thesis using StoreData grow2_store [OF ok r1] by simp
qed

lemma exec_Inl: "exec lib en op p = Done (Inl e, p') \<Longrightarrow> p' = p"
  by (cases op) (auto dest: StoreLevel1KeySet_Inl StoreLevel2KeySet_Inl StoreL2DataKey_Inl)

lemma rotate_ids: "k_id ` set (rotate now r rows) = insert (k_id r) (k_id ` set rows)"
proof -
  have "k_id ` set (retire now n v rows) = k_id ` set rows" for n v
    using arg_cong [OF retire_id [of now n v rows], of set] unfolding set_map .
  then show ?thesis by (simp add: rotate_eq)
qed

lemma grow1_ok: "secret_ok db \<Longrightarrow> grow1 db db' \<Longrightarrow> secret_ok db'"
proof -
  assume ok: "secret_ok db" and g: "grow1 db db'"
  obtain now r where r: "next_row (next1 db) r (db1 db)" and db': "db' = db\<lparr>db1 := rotate now r (db1 db), next1 := next1 db + 1\<rparr>"
    using g unfolding grow1_def by blast
  have f: "db1 db' = rotate now r (db1 db)" "next1 db' = next1 db + 1" "db2 db' = db2 db" "next2 db' = next2 db"
    unfolding db' by simp_all
  have i: "k_id ` set (db1 db) \<subseteq> k_id ` set (rotate now r (db1 db))" unfolding rotate_ids by blast
  show "secret_ok db'"
  proof (rule secret_okI; unfold f)
    show "rows_ok (next1 db + 1) (rotate now r (db1 db))" by (rule rows_ok_next [OF secret_okD(1) [OF ok] r])
    show "rows_ok (next2 db) (db2 db)" by (rule secret_okD(2) [OF ok])
    show "k_use_l1 x \<in> k_id ` set (rotate now r (db1 db))" if "x \<in> set (db2 db)" for x
      using secret_okD(3) [OF ok that] i by (rule subsetD [rotated])
    show "\<exists>kt. kt_String kt = Done (k_type x)" if "x \<in> set (db2 db)" for x
      by (rule secret_okD(4) [OF ok that])
    show "k_type y = k_type x" if "x \<in> set (db2 db)" "y \<in> set (db2 db)" "k_name y = k_name x" for x y
      by (rule secret_okD(5) [OF ok that])
  qed
qed

lemma grow2_ok:
  assumes ok: "secret_ok db" and g: "grow2 n db db'"
  shows "secret_ok db'"
proof -
  obtain now r where r: "k_name r = n" "next_row (next2 db) r (db2 db)" "k_use_l1 r \<in> k_id ` set (db1 db)"
    "\<exists>kt. kt_String kt = Done (k_type r)" "\<forall>x \<in> set (db2 db). k_name x = n \<longrightarrow> k_type x = k_type r"
    and db': "db' = db\<lparr>db2 := rotate now r (db2 db), next2 := next2 db + 1\<rparr>"
    using g unfolding grow2_def by blast
  have old: "\<exists>z. (z = r \<or> z \<in> set (db2 db)) \<and> k_name z = k_name x \<and> k_use_l1 z = k_use_l1 x \<and> k_type z = k_type x"
    if "x \<in> set (rotate now r (db2 db))" for x
  proof (cases "x = r")
    case False
    then have "x \<in> set (retire now (k_name r) (k_version r) (db2 db))" using that by (simp add: rotate_eq)
    from retire_row [OF this] obtain z where z: "z \<in> set (db2 db)" "same_key z x" by blast
    then show ?thesis using same_keyD(2) [OF z(2)] same_key_l2 [OF z(2)] by blast
  qed blast
  have f: "db2 db' = rotate now r (db2 db)" "next2 db' = next2 db + 1" "db1 db' = db1 db" "next1 db' = next1 db"
    unfolding db' by simp_all
  show ?thesis
  proof (rule secret_okI; unfold f)
    show "rows_ok (next1 db) (db1 db)" by (rule secret_okD(1) [OF ok])
    show "rows_ok (next2 db + 1) (rotate now r (db2 db))" by (rule rows_ok_next [OF secret_okD(2) [OF ok] r(2)])
  next
    fix x assume x: "x \<in> set (rotate now r (db2 db))"
    from old [OF x] r(3,4) secret_okD(3,4) [OF ok]
    show "k_use_l1 x \<in> k_id ` set (db1 db)" "\<exists>kt. kt_String kt = Done (k_type x)" by metis+
    fix y assume y: "y \<in> set (rotate now r (db2 db))" "k_name y = k_name x"
    from old [OF x] old [OF y(1)] y(2) r(1,5) secret_okD(5) [OF ok]
    show "k_type y = k_type x" by metis
  qed
qed

lemma exec_ok:
  assumes "secret_ok (pg_db p)" "exec lib en op p = Done (r, p')"
  shows "secret_ok (pg_db p')"
proof (cases r)
  case (Inl e)
  then show ?thesis using assms exec_Inl by blast
next
  case (Inr u)
  then have e: "exec lib en op p = Done (Inr (), p')" using assms(2) by simp
  show ?thesis
  proof (cases "written op")
    case None
    then show ?thesis using exec_Inr [OF assms(1) e] grow1_ok [OF assms(1), of "pg_db p'"] by simp
  next
    case (Some n)
    then show ?thesis using exec_Inr [OF assms(1) e] grow2_ok [OF assms(1), of n "pg_db p'"] by simp
  qed
qed

section \<open>What a store leaves alone\<close>

lemma row1_grow:
  assumes "row_by_id i (db1 db) = Some x" "grow1 db db' \<or> grow2 n db db'"
  shows "\<exists>y. row_by_id i (db1 db') = Some y \<and> same_key x y"
  using assms rotate_row_by_id [OF assms(1)] unfolding grow1_def grow2_def by fastforce

lemma l1_by_id_grow:
  assumes "i \<in> k_id ` set (db1 (pg_db p))" "grow1 (pg_db p) (pg_db p') \<or> grow2 n (pg_db p) (pg_db p')" "pg_provider p' = pg_provider p"
  shows "LoadLevel1KeySetById lib qe p' i = LoadLevel1KeySetById lib qe p i"
proof -
  obtain x where x: "row_by_id i (db1 (pg_db p)) = Some x"
    using assms(1) row_by_id_None [of i "db1 (pg_db p)"] by (cases "row_by_id i (db1 (pg_db p))") auto
  from row1_grow [OF x assms(2)] obtain y where "row_by_id i (db1 (pg_db p')) = Some y" "k_encrypted y = k_encrypted x"
    using same_keyD(4) by metis
  with x show ?thesis using assms(3) by (cases qe) (simp_all add: LoadLevel1KeySetById_def decrypt_l1_def)
qed

lemma exec_l1_by_id:
  assumes "secret_ok (pg_db p)" "exec lib en op p = Done (r, p')" "i \<in> k_id ` set (db1 (pg_db p))"
  shows "LoadLevel1KeySetById lib qe p' i = LoadLevel1KeySetById lib qe p i"
proof (cases r)
  case (Inl e)
  then show ?thesis using assms(2) exec_Inl by blast
next
  case (Inr u)
  then have "pg_provider p' = pg_provider p" "grow1 (pg_db p) (pg_db p') \<or> (\<exists>n. grow2 n (pg_db p) (pg_db p'))"
    using exec_Inr [OF assms(1), of lib en op p'] assms(2) by (cases "written op"; auto)+
  then show ?thesis using l1_by_id_grow [OF assms(3)] by blast
qed

lemma exec_read_data:
  assumes "secret_ok (pg_db p)" "exec lib en op p = Done (r, p')" "x \<in> set (db2 (pg_db p))" "same_key x y"
  shows "read_data lib qe p' y = read_data lib qe p x"
  using same_key_l2 [OF assms(4)] same_keyD(4) [OF assms(4)] exec_l1_by_id [OF assms(1,2) secret_okD(3) [OF assms(1,3)]]
  by (simp add: read_data_def)

lemma exec_row2:
  assumes "secret_ok (pg_db p)" "exec lib en op p = Done (r, p')" "row_by_id i (db2 (pg_db p)) = Some x"
  shows "\<exists>y. row_by_id i (db2 (pg_db p')) = Some y \<and> same_key x y"
proof (cases r)
  case (Inl e)
  then show ?thesis using assms exec_Inl same_key_refl by blast
next
  case (Inr u)
  then show ?thesis
    using exec_Inr [OF assms(1), of lib en op p'] assms(2,3) rotate_row_by_id [OF assms(3)]
    unfolding grow1_def grow2_def by (cases "written op") fastforce+
qed

lemma exec_load:
  assumes "secret_ok (pg_db p)" "exec lib en op p = Done (r, p')" "LoadL2DataKeyById lib qe i p = Done (Inr x)"
  shows "LoadL2DataKeyById lib qe i p' = Done (Inr x)"
proof -
  obtain z where z: "row_by_id i (db2 (pg_db p)) = Some z" "qe 0 = None" "read_data lib qe p z = Done (Inr x)"
    using assms(3) by (auto simp: LoadL2DataKeyById_def split: option.splits)
  obtain y where y: "row_by_id i (db2 (pg_db p')) = Some y" "same_key z y" using exec_row2 [OF assms(1,2) z(1)] by blast
  have "z \<in> set (db2 (pg_db p))" using row_by_id_Some [OF z(1)] by simp
  from exec_read_data [OF assms(1,2) this y(2)] y(1) z(2,3) show ?thesis by (simp add: LoadL2DataKeyById_def)
qed

lemma exec_fetch_other:
  assumes ok: "secret_ok (pg_db p)" and e: "exec lib en op p = Done (r, p')" and w: "written op \<noteq> Some n"
  shows "FetchL2DataKey lib qe n p' = FetchL2DataKey lib qe n p"
proof (cases r)
  case (Inl _)
  then show ?thesis using e exec_Inl by blast
next
  case (Inr u)
  have ok': "secret_ok (pg_db p')" by (rule exec_ok [OF ok e])
  have "named n (db2 (pg_db p')) = named n (db2 (pg_db p))"
  proof (cases "written op")
    case None
    then show ?thesis using exec_Inr [OF ok, of lib en op p'] e Inr unfolding grow1_def by auto
  next
    case (Some m)
    then obtain now z where "k_name z = m" "db2 (pg_db p') = rotate now z (db2 (pg_db p))"
      using exec_Inr [OF ok, of lib en op p'] e Inr unfolding grow2_def by auto
    then show ?thesis using rotate_other [of n z now] w Some by simp
  qed
  then have a: "active_row n (db2 (pg_db p')) = active_row n (db2 (pg_db p))" by (simp add: active_row_def)
  have "read_data lib qe p' x = read_data lib qe p x" if "active_row n (db2 (pg_db p)) = Some x" for x
    using exec_read_data [OF ok e _ same_key_refl] active_row_in [OF that] by blast
  then show ?thesis unfolding FetchL2DataKey_def a
    by (cases "qe 0"; cases "active_row n (db2 (pg_db p))") simp_all
qed

section \<open>What a store makes visible\<close>

lemma fetch_load:
  assumes "secret_ok (pg_db p)" "FetchL2DataKey lib qe n p = Done (Inr (i, kt, k))"
  shows "LoadL2DataKeyById lib qe i p = Done (Inr (kt, k))"
proof -
  obtain z where z: "active_row n (db2 (pg_db p)) = Some z" "qe 0 = None" "read_data lib qe p z = Done (Inr (kt, k))" "i = k_id z"
    using assms(2) by (auto simp: FetchL2DataKey_def rr_bind_Inr split: option.splits)
  have "row_by_id (k_id z) (db2 (pg_db p)) = Some z"
    using row_by_id_in [OF rows_ok_distinct [OF secret_okD(2) [OF assms(1)]]] active_row_in [OF z(1)] by blast
  then show ?thesis using z by (simp add: LoadL2DataKeyById_def)
qed

lemma load1_active:
  assumes "secret_ok (pg_db p)" "active_row l1 (db1 (pg_db p)) = Some r1"
  shows "LoadLevel1KeySetById lib None p (k_id r1) = decrypt_l1 lib p (k_encrypted r1)"
  using row_by_id_in [OF rows_ok_distinct [OF secret_okD(1) [OF assms(1)]]] active_row_in [OF assms(2)]
  by (simp add: LoadLevel1KeySetById_def)

lemma fetch_store:
  assumes "keylib_ok lib" "rng_ok (pe_rng en)" "secret_ok (pg_db p)" "StoreL2DataKey lib en l1 n kt key p = Done (Inr (), p')"
  shows "FetchL2DataKey lib (\<lambda>_. None) n p' = Done (Inr (next2 (pg_db p), kt, key))"
proof -
  let ?db = "pg_db p"
  from StoreL2DataKey_Inr [OF assms(4)]
  obtain r1 ks c tn where r1: "active_row l1 (db1 ?db) = Some r1" "decrypt_l1 lib p (k_encrypted r1) = Done (Inr ks)"
    "dataEncryptByL1 lib (pe_rng en) key (word_of_int (k_id r1)) ks = Inr c" "kt_String kt = Done tn"
    and p': "p' = p\<lparr>pg_db := ?db\<lparr>db2 := rotate (pe_now en) (l2_new en n (max_version n (db2 ?db) + 1) (k_id r1) tn c ?db) (db2 ?db),
         next2 := next2 ?db + 1\<rparr>\<rparr>"
    unfolding Let_def by blast
  let ?r = "l2_new en n (max_version n (db2 ?db) + 1) (k_id r1) tn c ?db"
  have ok': "secret_ok (pg_db p')" using exec_ok [OF assms(3), of lib en "StoreData l1 n kt key"] assms(4) by simp
  have "active_row n (db2 (pg_db p')) = latest_row n (db2 (pg_db p'))" by (rule active_latest [OF secret_okD(2) [OF ok']])
  also have "\<dots> = Some ?r" using rotate_latest [of ?r "db2 ?db" "pe_now en"] by (simp add: p' l2_new_def)
  finally have a: "active_row n (db2 (pg_db p')) = Some ?r" .
  have l: "LoadLevel1KeySetById lib None p' (k_id r1) = Done (Inr ks)"
    using exec_l1_by_id [OF assms(3), of lib en "StoreData l1 n kt key" "Inr ()" p' "k_id r1" None] assms(4)
      load1_active [OF assms(3) r1(1)] r1(2) active_row_in [OF r1(1)] by simp
  have "dataDecryptByL1 lib c ks = Done (Inr (word_of_int (k_id r1), key))"
    by (rule dataDecryptByL1_Encrypt [OF assms(1,2) r1(3)])
  then have "read_data lib (\<lambda>_. None) p' ?r = Done (Inr (kt, key))"
    using l FromString_String_Done [OF r1(4)] by (simp add: read_data_def l2_new_def)
  then show ?thesis unfolding FetchL2DataKey_def a by (simp add: l2_new_def)
qed

end
