(* ===== verification/KeyService.thy ===== *)
theory KeyService
  imports KeyRotation
begin

text \<open>
  The laws of the Go interface \<open>KeyStorage\<close> as a locale, its interpretation by the PostgreSQL
  storage, and the properties of the storage: the well-formedness of the tables of every reachable state,
  the survival of stored keys, and unsealing.
\<close>

section \<open>The interface\<close>

text \<open>The states after any further operations that \<open>P\<close> allows, whether they succeed or fail.\<close>

inductive later :: "('e \<Rightarrow> key_op \<Rightarrow> 's \<Rightarrow> (unit res \<times> 's) run) \<Rightarrow> (key_op \<Rightarrow> bool) \<Rightarrow> 's \<Rightarrow> 's \<Rightarrow> bool"
  for run :: "'e \<Rightarrow> key_op \<Rightarrow> 's \<Rightarrow> (unit res \<times> 's) run" and P :: "key_op \<Rightarrow> bool" and s :: 's where
  later_refl: "later run P s s"
| later_step: "later run P s s1 \<Longrightarrow> P op \<Longrightarrow> run e op s1 = Done (r, s2) \<Longrightarrow> later run P s s2"

locale key_storage =
  fixes run :: "'e \<Rightarrow> key_op \<Rightarrow> 's \<Rightarrow> (unit res \<times> 's) run"
    and fetch :: "string \<Rightarrow> 's \<Rightarrow> (int \<times> KeyType \<times> bytes) res run"
    and load :: "int \<Rightarrow> 's \<Rightarrow> (KeyType \<times> bytes) res run"
    and inv :: "'s \<Rightarrow> bool"
    and env_ok :: "'e \<Rightarrow> bool"
  assumes run_inv: "inv s \<Longrightarrow> run e op s = Done (r, s') \<Longrightarrow> inv s'"
    and run_fail: "run e op s = Done (Inl err, s') \<Longrightarrow> s' = s"
    and run_load: "inv s \<Longrightarrow> run e op s = Done (r, s') \<Longrightarrow> load i s = Done (Inr x) \<Longrightarrow> load i s' = Done (Inr x)"
    and run_fetch: "inv s \<Longrightarrow> run e op s = Done (r, s') \<Longrightarrow> written op \<noteq> Some n \<Longrightarrow> fetch n s' = fetch n s"
    and store_fetch: "inv s \<Longrightarrow> env_ok e \<Longrightarrow> run e (StoreData l1 n kt k) s = Done (Inr (), s') \<Longrightarrow>
      \<exists>i. fetch n s' = Done (Inr (i, kt, k))"
    and fetch_loads: "inv s \<Longrightarrow> fetch n s = Done (Inr (i, kt, k)) \<Longrightarrow> load i s = Done (Inr (kt, k))"
begin

lemma later_inv: "later run P s s' \<Longrightarrow> inv s \<Longrightarrow> inv s'"
  by (induction rule: later.induct) (auto dest: run_inv)

lemma later_load: "later run P s s' \<Longrightarrow> inv s \<Longrightarrow> load i s = Done (Inr x) \<Longrightarrow> load i s' = Done (Inr x)"
  by (induction rule: later.induct) (auto dest: run_load later_inv)

lemma later_fetch:
  "later run (\<lambda>op. written op \<noteq> Some n) s s' \<Longrightarrow> inv s \<Longrightarrow> fetch n s' = fetch n s"
proof (induction rule: later.induct)
  case (later_step s1 op e r s2)
  then show ?case using run_fetch [OF later_inv] by metis
qed simp

text \<open>A key that was fetched is loaded by its id at any later time, rotated or not.\<close>

lemma fetched_key_loads:
  assumes "inv s" "fetch n s = Done (Inr (i, kt, k))" "later run P s s'"
  shows "load i s' = Done (Inr (kt, k))"
  by (rule later_load [OF assms(3,1) fetch_loads [OF assms(1,2)]])

lemma stored_key_loads:
  assumes "inv s" "env_ok e" "run e (StoreData l1 n kt k) s = Done (Inr (), s1)"
    and "later run P s1 s2"
  shows "\<exists>i. fetch n s1 = Done (Inr (i, kt, k)) \<and> load i s2 = Done (Inr (kt, k))"
  using store_fetch [OF assms(1-3)] fetched_key_loads [OF run_inv [OF assms(1,3)] _ assms(4)] by blast

end

section \<open>The PostgreSQL storage\<close>

text \<open>The library is part of the state of the interpretation, and its laws part of the invariant.\<close>

fun pg_run :: "'pk pg_env \<Rightarrow> key_op \<Rightarrow> 'pk keylib \<times> 'pk PostgresKeyStorage \<Rightarrow> (unit res \<times> 'pk keylib \<times> 'pk PostgresKeyStorage) run" where
  "pg_run en op (lib, p) = run_bind (exec lib en op p) (\<lambda>(r, p'). Done (r, lib, p'))"

definition pg_fetch :: "string \<Rightarrow> 'pk keylib \<times> 'pk PostgresKeyStorage \<Rightarrow> (int \<times> KeyType \<times> bytes) res run" where
  "pg_fetch n s = FetchL2DataKey (fst s) (\<lambda>_. None) n (snd s)"

definition pg_load :: "int \<Rightarrow> 'pk keylib \<times> 'pk PostgresKeyStorage \<Rightarrow> (KeyType \<times> bytes) res run" where
  "pg_load i s = LoadL2DataKeyById (fst s) (\<lambda>_. None) i (snd s)"

definition pg_inv :: "'pk keylib \<times> 'pk PostgresKeyStorage \<Rightarrow> bool" where
  "pg_inv s \<longleftrightarrow> keylib_ok (fst s) \<and> secret_ok (pg_db (snd s))"

lemma pg_run_Done: "pg_run en op s = Done (r, s') \<longleftrightarrow> fst s' = fst s \<and> exec (fst s) en op (snd s) = Done (r, snd s')"
  by (cases s; cases s') auto

interpretation pg: key_storage "pg_run :: 'pk pg_env \<Rightarrow> _" pg_fetch pg_load pg_inv "\<lambda>en. rng_ok (pe_rng en)"
proof unfold_locales
  fix s s' :: "'pk keylib \<times> 'pk PostgresKeyStorage" and en :: "'pk pg_env" and op r x i n l1 kt k
  show "pg_inv s'" if "pg_inv s" "pg_run en op s = Done (r, s')"
    using that exec_ok [of "snd s" "fst s" en op r "snd s'"] unfolding pg_inv_def pg_run_Done by simp
  show "s' = s" if "pg_run en op s = Done (Inl x, s')" for x
    using that exec_Inl unfolding pg_run_Done by (metis prod.expand)
  show "pg_load i s' = Done (Inr x)" if "pg_inv s" "pg_run en op s = Done (r, s')" "pg_load i s = Done (Inr x)" for x
    using that exec_load [of "snd s" "fst s" en op r "snd s'" _ i x] unfolding pg_inv_def pg_run_Done pg_load_def by simp
  show "pg_fetch n s' = pg_fetch n s" if "pg_inv s" "pg_run en op s = Done (r, s')" "written op \<noteq> Some n"
    using that exec_fetch_other [of "snd s" "fst s" en op r "snd s'" n] unfolding pg_inv_def pg_run_Done pg_fetch_def by simp
  show "\<exists>i. pg_fetch n s' = Done (Inr (i, kt, k))"
    if "pg_inv s" "rng_ok (pe_rng en)" "pg_run en (StoreData l1 n kt k) s = Done (Inr (), s')"
    using that fetch_store [of "fst s" en "snd s" l1 n kt k "snd s'"] unfolding pg_inv_def pg_run_Done pg_fetch_def by auto
  show "pg_load i s = Done (Inr (kt, k))" if "pg_inv s" "pg_fetch n s = Done (Inr (i, kt, k))"
    using that fetch_load [of "snd s" "fst s" "\<lambda>_. None" n i kt k] unfolding pg_inv_def pg_fetch_def pg_load_def by simp
qed

section \<open>Unsealing\<close>

lemma insert_l1_grow:
  assumes ok: "secret_ok db" and i: "insert_l1 en (l1_new en n 1 u c db) db = Inr db'"
  shows "grow1 db db'"
proof -
  let ?r = "l1_new en n 1 u c db"
  have new: "\<not> (\<exists>x \<in> set (db1 db). k_name x = n \<and> k_version x = 1)" and db': "db' = db\<lparr>db1 := db1 db @ [?r], next1 := next1 db + 1\<rparr>"
    using i by (auto simp: insert_l1_def insert_row_Inr l1_new_def split: option.splits)
  have none: "\<forall>x \<in> set (db1 db). k_name x \<noteq> n"
    using rows_okD(2,4) [OF secret_okD(1) [OF ok]] new by (metis order_refl)
  then have "max_version n (db1 db) = 0" by (simp add: max_version_def latest_row_None [THEN iffD2])
  then have "next_row (next1 db) ?r (db1 db)" by (simp add: next_row_def l1_new_def)
  moreover have "rotate (pe_now en) ?r (db1 db) = db1 db @ [?r]"
    using none by (simp add: rotate_eq retire_def l1_new_def map_idI)
  ultimately show ?thesis unfolding grow1_def db' by metis
qed

lemma SetupUnseal_ok:
  assumes "secret_ok (pg_db p)" "SetupUnsealProviderAndWait en up p = Done (r, p')"
  shows "secret_ok (pg_db p')"
proof -
  have "pg_db p' = pg_db p \<or> (\<exists>keyId c. insert_l1 en (l1_new en TokenName 1 keyId c (pg_db p)) (pg_db p) = Inr (pg_db p'))"
  proof (cases "p' = p")
    case False
    then obtain resp where "finish_unseal en up (stored_token (pg_db p)) resp p = (r, p')"
      using assms(2) unfolding SetupUnsealProviderAndWait_def Let_def
      by (cases "up_Wait up (stored_token (pg_db p))") (auto split: option.splits sum.splits)
    then show ?thesis
      unfolding finish_unseal_def markUnsealed_def by (auto split: option.splits sum.splits if_splits)
  qed simp
  then show ?thesis using insert_l1_grow [OF assms(1)] grow1_ok [OF assms(1)] assms(1) by metis
qed

text \<open>The states of a storage: from the empty one, by unsealing and by the store operations.\<close>

inductive pg_reach :: "'pk keylib \<Rightarrow> 'pk PostgresKeyStorage \<Rightarrow> bool" for lib :: "'pk keylib" where
  pg_new: "pg_reach lib NewPostgresKeyStorage"
| pg_unseal: "pg_reach lib p \<Longrightarrow> SetupUnsealProviderAndWait en up p = Done (r, p') \<Longrightarrow> pg_reach lib p'"
| pg_exec: "pg_reach lib p \<Longrightarrow> exec lib en op p = Done (r, p') \<Longrightarrow> pg_reach lib p'"
| pg_restart: "pg_reach lib p \<Longrightarrow> pg_reach lib (NewPostgresKeyStorage\<lparr>pg_db := pg_db p\<rparr>)"

lemma pg_reach_ok: "pg_reach lib p \<Longrightarrow> secret_ok (pg_db p)"
proof (induction rule: pg_reach.induct)
  case pg_new
  show ?case by (simp add: NewPostgresKeyStorage_def secret_ok_def)
qed (auto dest: SetupUnseal_ok exec_ok)

end
