(* ===== verification/CipherTool.thy ===== *)
theory CipherTool
  imports KeyService
begin

text \<open>
  The cipher tool on level-2 keys (\<open>configure/secretapi/cipher.go\<close>), a client of the Go
  interface \<open>KeyStorage\<close>: it makes keys, encrypts with the current key of a name and decrypts by
  key id. The storage's operations are arguments of its operations.
\<close>

record 'pk Level2CipherTool =
  ct_keyGen :: "'pk rng"
  ct_l1key :: string

type_synonym ('s) store_fn = "string \<Rightarrow> string \<Rightarrow> KeyType \<Rightarrow> bytes \<Rightarrow> 's \<Rightarrow> (unit res \<times> 's) run"
type_synonym ('s) fetch_fn = "string \<Rightarrow> 's \<Rightarrow> (int \<times> KeyType \<times> bytes) res run"
type_synonym ('s) load_fn = "int \<Rightarrow> 's \<Rightarrow> (KeyType \<times> bytes) res run"

definition internalNewKey :: "'s store_fn \<Rightarrow> 'pk Level2CipherTool \<Rightarrow> bytes res \<Rightarrow> string \<Rightarrow> KeyType \<Rightarrow> 's \<Rightarrow> (unit res \<times> 's) run" where
  "internalNewKey store l gen name keyType s =
     (case gen of Inl e \<Rightarrow> Done (Inl e, s) | Inr key \<Rightarrow> store (ct_l1key l) name keyType key s)"

definition NewGeneral64BKey :: "'s store_fn \<Rightarrow> 'pk Level2CipherTool \<Rightarrow> string \<Rightarrow> 's \<Rightarrow> (unit res \<times> 's) run" where
  "NewGeneral64BKey store l name = internalNewKey store l (General64B (ct_keyGen l)) name KeyGeneral64B"

definition NewGeneral128BKey :: "'s store_fn \<Rightarrow> 'pk Level2CipherTool \<Rightarrow> string \<Rightarrow> 's \<Rightarrow> (unit res \<times> 's) run" where
  "NewGeneral128BKey store l name = internalNewKey store l (General128B (ct_keyGen l)) name KeyGeneral128B"

definition NewAes128Key :: "'s store_fn \<Rightarrow> 'pk Level2CipherTool \<Rightarrow> string \<Rightarrow> 's \<Rightarrow> (unit res \<times> 's) run" where
  "NewAes128Key store l name = internalNewKey store l (Aes128 (ct_keyGen l)) name KeyAES128"

definition NewRsaKey :: "'pk keylib \<Rightarrow> 's store_fn \<Rightarrow> 'pk Level2CipherTool \<Rightarrow> string \<Rightarrow> KeyType \<Rightarrow> 's \<Rightarrow> (unit res \<times> 's) run" where
  "NewRsaKey lib store l name keyType = internalNewKey store l (gen_RSA lib (ct_keyGen l) keyType) name keyType"

definition NewEcdsaKey :: "'pk keylib \<Rightarrow> 's store_fn \<Rightarrow> 'pk Level2CipherTool \<Rightarrow> string \<Rightarrow> KeyType \<Rightarrow> 's \<Rightarrow> (unit res \<times> 's) run" where
  "NewEcdsaKey lib store l name keyType = internalNewKey store l (gen_ECDSA lib (ct_keyGen l) keyType) name keyType"

text \<open>The nonce comes from the random source \<open>rg\<close>.\<close>

definition Aes128Encrypt ::
  "'pk keylib \<Rightarrow> 'pk rng \<Rightarrow> 's fetch_fn \<Rightarrow> string \<Rightarrow> bytes \<Rightarrow> bytes \<Rightarrow> 's \<Rightarrow> (int \<times> bytes \<times> bytes) res run" where
  "Aes128Encrypt lib rg fetch name plaintext additionalData s =
     rr_bind (fetch name s) (\<lambda>(keyId, kt, key).
     if kt \<noteq> KeyAES128 then Done (Inl (Errorf ''key type mismatch''))
     else
       rr_bind (Done (aes_NewCipher key)) (\<lambda>block.
       rr_bind (Done (rg_read rg gcm_nonce_size)) (\<lambda>nonce.
         Done (Inr (keyId, kl_seal lib block nonce plaintext additionalData, nonce)))))"

definition Aes128Decrypt ::
  "'pk keylib \<Rightarrow> 's load_fn \<Rightarrow> int \<Rightarrow> bytes \<Rightarrow> bytes \<Rightarrow> bytes \<Rightarrow> 's \<Rightarrow> bytes res run" where
  "Aes128Decrypt lib load keyId ciphertext nonce additionalData s =
     rr_bind (load keyId s) (\<lambda>(kt, key).
     if kt \<noteq> KeyAES128 then Done (Inl (Errorf ''key type mismatch''))
     else rr_bind (Done (aes_NewCipher key)) (\<lambda>block. aead_Open lib block nonce ciphertext additionalData))"

lemma Aes128_roundtrip:
  assumes "keylib_ok lib" "rng_ok rg" "Aes128Encrypt lib rg fetch name p a s = Done (Inr (i, c, n))"
    and "\<And>kt k. fetch name s = Done (Inr (i, kt, k)) \<Longrightarrow> load i s' = Done (Inr (kt, k))"
  shows "Aes128Decrypt lib load i c n a s' = Done (Inr p)"
proof -
  from assms(3) obtain key where k: "fetch name s = Done (Inr (i, KeyAES128, key))" "aes_NewCipher key = Inr key"
    "rg_read rg gcm_nonce_size = Inr n" "c = kl_seal lib key n p a"
    by (auto simp: Aes128Encrypt_def rr_bind_Inr aes_NewCipher_def split: if_splits)
  have len: "length key \<in> {16, 24, 32}" "length n = 12"
    using k(2,3) assms(2) by (auto simp: aes_NewCipher_def rng_ok_def gcm_nonce_size_def split: if_splits)
  have "load i s' = Done (Inr (KeyAES128, key))" by (rule assms(4) [OF k(1)])
  then show ?thesis
    using k(2,4) len(2) keylib_okD(5) [OF assms(1) len] by (simp add: Aes128Decrypt_def aead_Open_def gcm_nonce_size_def)
qed

context key_storage
begin

text \<open>What was encrypted with a name's current key is decrypted at any later time.\<close>

lemma encrypted_decrypts:
  assumes "inv s" "keylib_ok lib" "rng_ok rg" "Aes128Encrypt lib rg fetch name p a s = Done (Inr (i, c, n))" "later run P s s'"
  shows "Aes128Decrypt lib load i c n a s' = Done (Inr p)"
  by (rule Aes128_roundtrip [OF assms(2-4)]) (rule fetched_key_loads [OF assms(1) _ assms(5)])

end

end
