(* ===== verification/JwtAddon.thy ===== *)
theory JwtAddon
  imports Permissions CipherTool
begin

text \<open>
  Signing and verifying tokens with level-2 keys (\<open>configure/secretaddon/addontool.go\<close>,
  \<open>secretapi/jwt.go\<close>, \<open>secretimpl/secret.pg.jwt.go\<close>). The JWT library is a record of functions:
  what signing a token yields, the header a token carries, and the check of its signature and of
  its claims at a point in time.
\<close>

section \<open>Algorithms and keys\<close>

type_synonym JwtAlg = string

datatype signing_method = MHS256 | MHS384 | MHS512 | MRS256 | MRS384 | MRS512 | MPS256 | MPS384 | MPS512
  | MES256 | MES384 | MES512

text \<open>The algorithm a method of the library writes into the header.\<close>

fun method_alg :: "signing_method \<Rightarrow> JwtAlg" where
  "method_alg MHS256 = ''HS256''" | "method_alg MHS384 = ''HS384''" | "method_alg MHS512 = ''HS512''"
| "method_alg MRS256 = ''RS256''" | "method_alg MRS384 = ''RS384''" | "method_alg MRS512 = ''RS512''"
| "method_alg MPS256 = ''PS256''" | "method_alg MPS384 = ''PS384''" | "method_alg MPS512 = ''PS512''"
| "method_alg MES256 = ''ES256''" | "method_alg MES384 = ''ES384''" | "method_alg MES512 = ''ES512''"

text \<open>A key handed to the library: raw bytes, a private key, or the public part of a private key.\<close>

datatype 'pk jwt_key = Raw bytes | Private 'pk | Public 'pk

fun public_part :: "'pk jwt_key \<Rightarrow> 'pk jwt_key" where
  "public_part (Private k) = Public k"
| "public_part k = k"

definition ErrJwtInvalidAlgCombination :: go_error where
  "ErrJwtInvalidAlgCombination = Sentinel ''secretaddon.ErrJwtInvalidAlgCombination''"

definition jwtVerificationKeyMapping ::
  "'pk keylib \<Rightarrow> KeyType \<Rightarrow> JwtAlg \<Rightarrow> bytes \<Rightarrow> (signing_method \<times> 'pk jwt_key) res" where
  "jwtVerificationKeyMapping lib keyType alg key =
     (if keyType = KeyGeneral64B then
        (if alg \<noteq> ''HS256'' then Inl (Errorf ''invalid algorithm'') else Inr (MHS256, Raw key))
      else if keyType = KeyGeneral128B then
        (if alg = ''HS384'' then Inr (MHS384, Raw key)
         else if alg = ''HS512'' then Inr (MHS512, Raw key)
         else Inl (Errorf ''invalid algorithm''))
      else if is_rsa keyType then
        res_bind (ParseRsaPrivateKey lib key) (\<lambda>priKey.
          if alg = ''RS256'' then Inr (MRS256, Public priKey)
          else if alg = ''RS384'' then Inr (MRS384, Public priKey)
          else if alg = ''RS512'' then Inr (MRS512, Public priKey)
          else if alg = ''PS256'' then Inr (MPS256, Public priKey)
          else if alg = ''PS384'' then Inr (MPS384, Public priKey)
          else if alg = ''PS512'' then
            (if keyType = KeyRSA1024 then Inl ErrJwtInvalidAlgCombination else Inr (MPS512, Public priKey))
          else Inl (Errorf ''invalid algorithm''))
      else if keyType = KeyECDSA256 then
        (if alg \<noteq> ''ES256'' then Inl (Errorf ''invalid key type'')
         else res_bind (ParseECDSAPrivateKey lib key) (\<lambda>priKey. Inr (MES256, Public priKey)))
      else if keyType = KeyECDSA384 then
        (if alg \<noteq> ''ES384'' then Inl (Errorf ''invalid key type'')
         else res_bind (ParseECDSAPrivateKey lib key) (\<lambda>priKey. Inr (MES384, Public priKey)))
      else if keyType = KeyECDSA521 then
        (if alg \<noteq> ''ES512'' then Inl (Errorf ''invalid key type'')
         else res_bind (ParseECDSAPrivateKey lib key) (\<lambda>priKey. Inr (MES512, Public priKey)))
      else Inl (Errorf ''invalid key type''))"

definition jwtSigningKeyMapping ::
  "'pk keylib \<Rightarrow> KeyType \<Rightarrow> JwtAlg \<Rightarrow> bytes \<Rightarrow> (signing_method \<times> 'pk jwt_key) res" where
  "jwtSigningKeyMapping lib keyType alg key =
     (if keyType = KeyGeneral64B then
        (if alg \<noteq> ''HS256'' then Inl (Errorf ''invalid key type'') else Inr (MHS256, Raw key))
      else if keyType = KeyGeneral128B then
        (if alg = ''HS512'' then Inr (MHS512, Raw key)
         else if alg = ''HS384'' then Inr (MHS384, Raw key)
         else Inl (Errorf ''invalid key type''))
      else if is_rsa keyType then
        res_bind (ParseRsaPrivateKey lib key) (\<lambda>priKey.
          if alg = ''RS256'' then Inr (MRS256, Private priKey)
          else if alg = ''RS384'' then Inr (MRS384, Private priKey)
          else if alg = ''RS512'' then Inr (MRS512, Private priKey)
          else if alg = ''PS256'' then Inr (MPS256, Private priKey)
          else if alg = ''PS384'' then Inr (MPS384, Private priKey)
          else if alg = ''PS512'' then
            (if keyType = KeyRSA1024 then Inl ErrJwtInvalidAlgCombination else Inr (MPS512, Private priKey))
          else Inl (Errorf ''invalid algorithm''))
      else if keyType = KeyECDSA256 then
        (if alg \<noteq> ''ES256'' then Inl (Errorf ''invalid key type'')
         else res_bind (ParseECDSAPrivateKey lib key) (\<lambda>priKey. Inr (MES256, Private priKey)))
      else if keyType = KeyECDSA384 then
        (if alg \<noteq> ''ES384'' then Inl (Errorf ''invalid key type'')
         else res_bind (ParseECDSAPrivateKey lib key) (\<lambda>priKey. Inr (MES384, Private priKey)))
      else if keyType = KeyECDSA521 then
        (if alg \<noteq> ''ES512'' then Inl (Errorf ''invalid key type'')
         else res_bind (ParseECDSAPrivateKey lib key) (\<lambda>priKey. Inr (MES512, Private priKey)))
      else Inl (Errorf ''invalid key type''))"

section \<open>Claims\<close>

type_synonym JwtClaims = JwtData

text \<open>A time is its nanoseconds since the epoch; the claims hold whole seconds.\<close>

definition unix_seconds :: "int \<Rightarrow> int" where
  "unix_seconds t = t div 1000000000"

definition SetIssuer :: "string \<Rightarrow> JwtClaims \<Rightarrow> JwtClaims" where "SetIssuer issuer j = AList.update ''iss'' (Str_val issuer) j"
definition SetSubject :: "string \<Rightarrow> JwtClaims \<Rightarrow> JwtClaims" where "SetSubject subject j = AList.update ''sub'' (Str_val subject) j"
definition SetAudience :: "string list \<Rightarrow> JwtClaims \<Rightarrow> JwtClaims" where "SetAudience audiences j = AList.update ''aud'' (Strs audiences) j"
definition SetExp :: "int \<Rightarrow> JwtClaims \<Rightarrow> JwtClaims" where "SetExp t j = AList.update ''exp'' (Int_val (unix_seconds t)) j"
definition SetNbf :: "int \<Rightarrow> JwtClaims \<Rightarrow> JwtClaims" where "SetNbf t j = AList.update ''nbf'' (Int_val (unix_seconds t)) j"
definition SetIat :: "int \<Rightarrow> JwtClaims \<Rightarrow> JwtClaims" where "SetIat t j = AList.update ''iat'' (Int_val (unix_seconds t)) j"
definition SetID :: "string \<Rightarrow> JwtClaims \<Rightarrow> JwtClaims" where "SetID i j = AList.update ''jti'' (Str_val i) j"

definition FromJwtData :: "JwtData \<Rightarrow> JwtClaims \<Rightarrow> JwtClaims" where
  "FromJwtData data j = fold (\<lambda>(key, val). AList.update key val) data j"

definition convertClaims :: "JwtClaims \<Rightarrow> JwtData" where
  "convertClaims claims = fold (\<lambda>(k, v). AList.update k v) claims []"

section \<open>The tool\<close>

record 'pk jwtlib =
  jl_sign :: "signing_method \<Rightarrow> JwtData \<Rightarrow> JwtData \<Rightarrow> 'pk jwt_key \<Rightarrow> string res"   \<comment> \<open>method, further header, claims, key\<close>
  jl_header :: "string \<Rightarrow> JwtData res"
  jl_verify :: "int \<Rightarrow> string \<Rightarrow> 'pk jwt_key \<Rightarrow> (JwtData \<times> bool) res"           \<comment> \<open>time, token, key: claims and validity\<close>

definition keyIdString :: "int \<Rightarrow> string" where "keyIdString keyId = FormatInt keyId"
definition keyIdVal :: "string \<Rightarrow> int res" where "keyIdVal keyIdStr = ParseInt keyIdStr"

definition SignJwtToken ::
  "'pk keylib \<Rightarrow> 'pk jwtlib \<Rightarrow> 's fetch_fn \<Rightarrow> string \<Rightarrow> JwtAlg \<Rightarrow> JwtClaims \<Rightarrow> 's \<Rightarrow> string res run" where
  "SignJwtToken lib jl fetch keyName jwtAlg claims s =
     rr_bind (fetch keyName s) (\<lambda>(keyId, keyType, key).
     rr_bind (Done (jwtSigningKeyMapping lib keyType jwtAlg key)) (\<lambda>(signingMethod, signingKey).
       Done (jl_sign jl signingMethod [(''kid'', Str_val (keyIdString keyId))] (convertClaims claims) signingKey)))"

text \<open>The function that finds the key for a token's header.\<close>

definition jwt_keyfunc :: "'pk keylib \<Rightarrow> 's load_fn \<Rightarrow> JwtData \<Rightarrow> 's \<Rightarrow> 'pk jwt_key res run" where
  "jwt_keyfunc lib load header s =
     (case map_of header ''alg'' of
        Some (Str_val alg) \<Rightarrow>
          (case map_of header ''kid'' of
             Some (Str_val keyIdStr) \<Rightarrow>
               rr_bind (Done (keyIdVal keyIdStr)) (\<lambda>keyId.
               rr_bind (load keyId s) (\<lambda>(kt, key).
               rr_bind (Done (jwtVerificationKeyMapping lib kt alg key)) (\<lambda>(_, verifyKey). Done (Inr verifyKey))))
           | _ \<Rightarrow> Done (Inl (Errorf ''kid is not a string'')))
      | _ \<Rightarrow> Done (Inl (Errorf ''invalid algorithm'')))"

definition VerifyJwtToken ::
  "'pk keylib \<Rightarrow> 'pk jwtlib \<Rightarrow> int \<Rightarrow> 's load_fn \<Rightarrow> string \<Rightarrow> 's \<Rightarrow> JwtData res run" where
  "VerifyJwtToken lib jl now load tokenString s =
     rr_bind (Done (jl_header jl tokenString)) (\<lambda>header.
     rr_bind (jwt_keyfunc lib load header s) (\<lambda>verifyKey.
     rr_bind (Done (jl_verify jl now tokenString verifyKey)) (\<lambda>(claims, valid).
       Done (if valid then Inr claims else Inl (Errorf ''invalid token'')))))"

section \<open>The storage as signer and verifier\<close>

record JwtOption =
  jo_ServerControl :: bool
  jo_TTL :: int64
  jo_OneTime :: bool

text \<open>An error of signing is dropped: the caller gets the empty token and no error.\<close>

definition SignJwt ::
  "'pk keylib \<Rightarrow> 'pk jwtlib \<Rightarrow> int \<Rightarrow> 's fetch_fn \<Rightarrow> string \<Rightarrow> JwtAlg \<Rightarrow> JwtData \<Rightarrow> JwtOption \<Rightarrow> 's \<Rightarrow> string res run" where
  "SignJwt lib jl now fetch l2key jwtAlg data opt s =
     run_bind (SignJwtToken lib jl fetch l2key jwtAlg (SetExp (now + sint (jo_TTL opt)) (FromJwtData data [])) s)
       (\<lambda>r. case r of Inl e \<Rightarrow> Done (Inr []) | Inr token \<Rightarrow> Done (Inr token))"

definition VerifyJwt :: "'pk keylib \<Rightarrow> 'pk jwtlib \<Rightarrow> int \<Rightarrow> 's load_fn \<Rightarrow> string \<Rightarrow> 's \<Rightarrow> JwtData res run" where
  "VerifyJwt lib jl now load jwtToken s = VerifyJwtToken lib jl now load jwtToken s"

section \<open>Lemmas\<close>

text \<open>
  What the library's documentation promises of a signed token: its header carries the method's
  algorithm and the given entries, and while its expiry time lies ahead (and no start time is
  set) it verifies against the public part of the key, with the claims that were signed.
\<close>

definition jwtlib_ok :: "'pk jwtlib \<Rightarrow> bool" where
  "jwtlib_ok jl \<longleftrightarrow> (\<forall>m hdr claims sk tok. jl_sign jl m hdr claims sk = Inr tok \<longrightarrow>
     tok \<noteq> [] \<and>
     (\<exists>h. jl_header jl tok = Inr h \<and> map_of h ''alg'' = Some (Str_val (method_alg m)) \<and>
        (\<forall>k v. k \<noteq> ''alg'' \<longrightarrow> map_of hdr k = Some v \<longrightarrow> map_of h k = Some (through_json v))) \<and>
     (\<forall>now e. map_of claims ''exp'' = Some (Int_val e) \<longrightarrow> unix_seconds now < e \<longrightarrow> map_of claims ''nbf'' = None \<longrightarrow>
        (\<exists>c. jl_verify jl now tok (public_part sk) = Inr (c, True) \<and>
           (\<forall>k. map_of c k = map_option through_json (map_of claims k)))))"

lemma jwtlib_okD:
  assumes "jwtlib_ok jl" "jl_sign jl m hdr claims sk = Inr tok"
  shows "tok \<noteq> []"
    and "\<exists>h. jl_header jl tok = Inr h \<and> map_of h ''alg'' = Some (Str_val (method_alg m)) \<and>
        (\<forall>k v. k \<noteq> ''alg'' \<longrightarrow> map_of hdr k = Some v \<longrightarrow> map_of h k = Some (through_json v))"
    and "map_of claims ''exp'' = Some (Int_val e) \<Longrightarrow> unix_seconds now < e \<Longrightarrow> map_of claims ''nbf'' = None \<Longrightarrow>
        \<exists>c. jl_verify jl now tok (public_part sk) = Inr (c, True) \<and> (\<forall>k. map_of c k = map_option through_json (map_of claims k))"
  using assms unfolding jwtlib_ok_def by blast+

lemma map_of_fold_pairs:
  "gomap_ok data \<Longrightarrow> map_of (fold (\<lambda>(k, v). AList.update k v) data j) = map_of j ++ map_of data"
proof (induction data arbitrary: j)
  case (Cons p data)
  obtain k v where p: "p = (k, v)" by (cases p)
  have ok: "gomap_ok data" "map_of data k = None" using Cons.prems p by (auto simp: gomap_ok_def map_of_eq_None_iff)
  have "map_of (AList.update k v j) ++ map_of data = map_of j ++ map_of (p # data)"
    unfolding p update_conv using ok(2) by (auto simp: map_add_def fun_eq_iff split: option.splits)
  moreover have "fold (\<lambda>(k, v). AList.update k v) (p # data) j = fold (\<lambda>(k, v). AList.update k v) data (AList.update k v j)"
    by (simp add: p)
  ultimately show ?case using Cons.IH [OF ok(1), of "AList.update k v j"] by metis
qed simp

lemma gomap_ok_fold_pairs: "gomap_ok j \<Longrightarrow> gomap_ok (fold (\<lambda>(k, v). AList.update k v) data j)"
  by (induction data arbitrary: j) auto

lemma convertClaims_map_of: "gomap_ok claims \<Longrightarrow> map_of (convertClaims claims) = map_of claims"
  unfolding convertClaims_def by (simp add: map_of_fold_pairs)

lemma signed_claims:
  assumes "gomap_ok data"
  shows "map_of (convertClaims (SetExp t (FromJwtData data []))) = (map_of data)(''exp'' \<mapsto> Int_val (unix_seconds t))"
proof -
  have "gomap_ok (FromJwtData data [])" unfolding FromJwtData_def by (rule gomap_ok_fold_pairs) simp
  then have ok: "gomap_ok (SetExp t (FromJwtData data []))" unfolding SetExp_def by (rule gomap_ok_update)
  have "map_of (FromJwtData data []) = map_of data" unfolding FromJwtData_def by (simp add: map_of_fold_pairs [OF assms])
  then have "map_of (SetExp t (FromJwtData data [])) = (map_of data)(''exp'' \<mapsto> Int_val (unix_seconds t))"
    unfolding SetExp_def update_conv by (simp add: fun_eq_iff)
  then show ?thesis unfolding convertClaims_map_of [OF ok] .
qed

text \<open>The two key mappings: the same method for the same key and algorithm, and the public part of the signing key.\<close>

fun ok_of :: "'a res \<Rightarrow> 'a option" where
  "ok_of (Inl e) = None"
| "ok_of (Inr x) = Some x"

lemma ok_of_Some: "ok_of r = Some x \<longleftrightarrow> r = Inr x"
  by (cases r) auto

lemma ok_of_bind: "ok_of (res_bind r f) = Option.bind (ok_of r) (\<lambda>x. ok_of (f x))"
  by (cases r) auto

lemma mappings_agree:
  "ok_of (jwtVerificationKeyMapping lib kt alg key) = map_option (\<lambda>(m, sk). (m, public_part sk)) (ok_of (jwtSigningKeyMapping lib kt alg key))"
proof -
  have b: "map_option g (Option.bind r f) = Option.bind r (\<lambda>x. map_option g (f x))" for g :: "'c \<Rightarrow> 'd" and r :: "'e option" and f
    by (cases r) auto
  show ?thesis
    unfolding jwtSigningKeyMapping_def jwtVerificationKeyMapping_def
    by (simp add: if_distrib [of ok_of] if_distrib [of "map_option _"] ok_of_bind b cong: if_cong)
qed

lemma mapping_verify:
  "jwtSigningKeyMapping lib kt alg key = Inr (m, sk) \<Longrightarrow> jwtVerificationKeyMapping lib kt alg key = Inr (m, public_part sk)"
  using mappings_agree [of lib kt alg key] by (simp add: ok_of_Some)

lemma mapping_sign:
  assumes "jwtVerificationKeyMapping lib kt alg key = Inr (m, vk)"
  shows "\<exists>sk. jwtSigningKeyMapping lib kt alg key = Inr (m, sk) \<and> vk = public_part sk"
  using mappings_agree [of lib kt alg key] assms by (cases "jwtSigningKeyMapping lib kt alg key") auto

text \<open>The algorithm of the chosen method is the one that was asked for, and raw bytes are a key of the general types only.\<close>

lemma mapping_alg_raw:
  assumes "jwtSigningKeyMapping lib kt alg key = Inr (m, sk)"
  shows "method_alg m = alg \<and> (\<forall>b. sk = Raw b \<longrightarrow> b = key \<and> (kt = KeyGeneral64B \<or> kt = KeyGeneral128B))"
proof -
  let ?Q = "\<lambda>(m, sk). method_alg m = alg \<and> (\<forall>b. sk = Raw b \<longrightarrow> b = key \<and> (kt = KeyGeneral64B \<or> kt = KeyGeneral128B))"
  have b: "pred_option P (Option.bind r f) = pred_option (\<lambda>x. pred_option P (f x)) r" for P and r :: "'c option" and f
    by (cases r) auto
  have t: "pred_option (\<lambda>x. True) r" for r :: "'c option" by (cases r) auto
  have "pred_option ?Q (ok_of (jwtSigningKeyMapping lib kt alg key))"
    unfolding jwtSigningKeyMapping_def
    by (simp add: if_distrib [of ok_of] if_distrib [of "pred_option _"] ok_of_bind b t cong: if_cong)
  then show ?thesis using assms by simp
qed

text \<open>A signed token verifies wherever the key that signed it is loaded by its id.\<close>

lemma sign_verify:
  assumes jl: "jwtlib_ok jl" and s: "SignJwtToken lib jl fetch n alg claims s = Done (Inr tok)"
    and id: "\<And>i kt k. fetch n s = Done (Inr (i, kt, k)) \<Longrightarrow> in_int64 i \<and> load i s' = Done (Inr (kt, k))"
    and exp: "map_of (convertClaims claims) ''exp'' = Some (Int_val e)" "unix_seconds now < e" "map_of (convertClaims claims) ''nbf'' = None"
  shows "\<exists>c. VerifyJwtToken lib jl now load tok s' = Done (Inr c) \<and> (\<forall>k. map_of c k = map_option through_json (map_of (convertClaims claims) k))"
proof -
  from s obtain i kt key m sk where f: "fetch n s = Done (Inr (i, kt, key))" "jwtSigningKeyMapping lib kt alg key = Inr (m, sk)"
    "jl_sign jl m [(''kid'', Str_val (keyIdString i))] (convertClaims claims) sk = Inr tok"
    unfolding SignJwtToken_def by (auto simp: rr_bind_Inr)
  from jwtlib_okD(2) [OF jl f(3)] obtain h where h: "jl_header jl tok = Inr h" "map_of h ''alg'' = Some (Str_val (method_alg m))"
    "map_of h ''kid'' = Some (Str_val (keyIdString i))" by fastforce
  from jwtlib_okD(3) [OF jl f(3) exp] obtain c where c: "jl_verify jl now tok (public_part sk) = Inr (c, True)"
    "\<forall>k. map_of c k = map_option through_json (map_of (convertClaims claims) k)" by blast
  have "jwt_keyfunc lib load h s' = Done (Inr (public_part sk))"
    using h id [OF f(1)] mapping_verify [OF f(2)] mapping_alg_raw [OF f(2)]
    by (simp add: jwt_keyfunc_def keyIdVal_def keyIdString_def)
  then show ?thesis using h(1) c by (simp add: VerifyJwtToken_def)
qed

context key_storage
begin

lemma signed_token_verifies:
  assumes "inv s" "jwtlib_ok jl" "SignJwtToken lib jl fetch n alg claims s = Done (Inr tok)" "later run P s s'"
    and "\<And>i kt k. fetch n s = Done (Inr (i, kt, k)) \<Longrightarrow> in_int64 i"
    and "map_of (convertClaims claims) ''exp'' = Some (Int_val e)" "unix_seconds now < e" "map_of (convertClaims claims) ''nbf'' = None"
  shows "\<exists>c. VerifyJwtToken lib jl now load tok s' = Done (Inr c) \<and> (\<forall>k. map_of c k = map_option through_json (map_of (convertClaims claims) k))"
  by (rule sign_verify [OF assms(2,3) _ assms(6-8)]) (use assms(5) fetched_key_loads [OF assms(1) _ assms(4)] in blast)

end

lemma SignJwt_token:
  assumes "SignJwt lib jl now fetch n alg data opt s = Done (Inr tok)" "tok \<noteq> []"
  shows "SignJwtToken lib jl fetch n alg (SetExp (now + sint (jo_TTL opt)) (FromJwtData data [])) s = Done (Inr tok)"
proof -
  let ?r = "SignJwtToken lib jl fetch n alg (SetExp (now + sint (jo_TTL opt)) (FromJwtData data [])) s"
  show "?r = Done (Inr tok)"
  proof (cases ?r)
    case (Done r)
    then show ?thesis using assms unfolding SignJwt_def by (cases r) simp_all
  qed (use assms in \<open>simp_all add: SignJwt_def\<close>)
qed

end
