(* ===== verification/SecretApi.thy ===== *)
theory SecretApi
  imports Chi2 CertChain JwtAddon
begin

text \<open>
  The write API of the secret server (\<open>configure/secretserver\<close>): the check of the bearer token, the
  controllers for tokens, keys and certificates, and their registration. What a request meets behind
  the server (the signer and verifier of tokens, the two storages, the libraries, the clock and the decoders of
  bodies) is a record of functions on a state \<open>'s\<close>, the fields of \<open>SecretServerReq\<close>.
\<close>

section \<open>The requests\<close>

record jwtAdminReq =
  ja_Key :: string
  ja_Alg :: string
  ja_TTL :: int64

record jwtNewReq =
  jn_Key :: string
  jn_Alg :: string
  jn_TTL :: int64
  jn_Permissions :: "string list"

record jwtVerifyReq =
  jv_Token :: string

record newKeyReq =
  nk_Type :: string
  nk_KeyScale :: string
  nk_EncryptKeyName :: string

record createCertReq =
  cc_CAName :: string
  cc_TTL :: int64
  cc_CertName :: string
  cc_CertReqData :: string
  cc_CertUsage :: string
  cc_KeyId :: string

record createCertReqReq =
  cr_KeyName :: string
  cr_CommonName :: string
  cr_Organization :: string
  cr_Country :: string
  cr_Province :: string
  cr_Locality :: string
  cr_StreetAddress :: string
  cr_PostalCode :: string
  cr_DNSNames :: "string list"
  cr_IPAddresses :: "string list"
  cr_EmailAddresses :: "string list"

text \<open>The JSON decoders of the requests.\<close>

record decoders =
  de_admin :: "bytes \<Rightarrow> jwtAdminReq res"
  de_new :: "bytes \<Rightarrow> jwtNewReq res"
  de_verify :: "bytes \<Rightarrow> jwtVerifyReq res"
  de_key :: "bytes \<Rightarrow> newKeyReq res"
  de_cert :: "bytes \<Rightarrow> createCertReq res"
  de_certreq :: "bytes \<Rightarrow> createCertReqReq res"

section \<open>What is behind the server\<close>

text \<open>A function that a handler may call more than once takes the call's number.\<close>

record ('s, 'pk, 'pub) SecretServerReq =
  ss_SignJwt :: "string \<Rightarrow> JwtAlg \<Rightarrow> JwtData \<Rightarrow> JwtOption \<Rightarrow> 's \<Rightarrow> string res run"
  ss_VerifyJwt :: "string \<Rightarrow> 's \<Rightarrow> JwtData res run"
  ss_StoreL2DataKey :: "'s store_fn"
  ss_FetchL2DataKey :: "'s fetch_fn"
  ss_LoadL2DataKeyById :: "nat \<Rightarrow> 's load_fn"
  ss_LoadLevel2KeySetById :: "int \<Rightarrow> 's \<Rightarrow> KeySet res run"
  ss_LoadCertByName :: "string \<Rightarrow> CertLevelType \<Rightarrow> 's \<Rightarrow> (Certificate \<times> CertKeyInfo) res"
  ss_LoadParentCertByCertId :: "nat \<Rightarrow> CertSerialNumber \<Rightarrow> 's \<Rightarrow> (Certificate \<times> CertLevelType \<times> CertKeyInfo) option res"
  ss_LoadCertChainByName :: "string \<Rightarrow> CertLevelType \<Rightarrow> 's \<Rightarrow> (Certificate list \<times> CertKeyInfo) res"
  ss_NextCertSerialNumber :: "'s \<Rightarrow> CertSerialNumber res \<times> 's"
  ss_SaveCert :: "string \<Rightarrow> CertSerialNumber \<Rightarrow> Certificate \<Rightarrow> CertKeyInfo \<Rightarrow> 's \<Rightarrow> CertSerialNumber res \<times> 's"
  ss_keylib :: "'pk keylib"
  ss_keyGen :: "'pk rng"
  ss_x509 :: "('pk, 'pub) x509lib"
  ss_now :: int
  ss_decode :: decoders

section \<open>The bearer token\<close>

definition ValidateJwtToken :: "(string \<Rightarrow> 's \<Rightarrow> JwtData res run) \<Rightarrow> PermissionResourceList \<Rightarrow> 's validator" where
  "ValidateJwtToken verify allowed r s =
     (let auth = TrimSpace (rq_header r ''Authorization'');
          auths = Split CHR '' '' auth in
      if length auths \<noteq> 2 then Done (Some (NewStatusRender StatusUnauthorized))
      else if TrimSpace (auths ! 0) \<noteq> ''Bearer'' then Done (Some (NewStatusRender StatusUnauthorized))
      else
        let token = TrimSpace (auths ! 1) in
        run_bind (VerifyPermissionsOnJwtToken (\<lambda>tok. verify tok s) token allowed AnyPermissionOperator) (\<lambda>res. case res of
          Inl e \<Rightarrow> Done (Some (NewStatusRender StatusUnauthorized))
        | Inr pass \<Rightarrow> if \<not> pass then Done (Some (NewStatusRender StatusUnauthorized)) else Done None))"

section \<open>Controllers\<close>

text \<open>A step whose error is answered with the error render.\<close>

definition on_ok :: "'a res run \<Rightarrow> 's \<Rightarrow> ('a \<Rightarrow> (render \<times> 's) run) \<Rightarrow> (render \<times> 's) run" where
  "on_ok m s f = run_bind m (\<lambda>r. case r of Inl e \<Rightarrow> Done (NewErrRender e, s) | Inr x \<Rightarrow> f x)"

text \<open>\<open>render.DecodeJSON\<close> into a fresh request.\<close>

definition json_parser :: "(bytes \<Rightarrow> 'm res) \<Rightarrow> http_request \<Rightarrow> bytes res \<Rightarrow> 'm res" where
  "json_parser decode hr body = res_bind body decode"

definition standard_middlewares :: "middleware list" where
  "standard_middlewares = [Logger, RealIP, Recoverer]"

definition new_controller :: "'s validator list \<Rightarrow> (http_request \<Rightarrow> bytes res \<Rightarrow> 'm res) \<Rightarrow> ('s, 'm) Controller" where
  "new_controller validators parse =
     \<lparr>ctl_Middlewares = standard_middlewares, ctl_RequestValidators = validators, ctl_BodyParser = Some parse,
      ctl_BodyVerifier = None, ctl_NewCustomErrorRender = None\<rparr>"

text \<open>The two fields of a controller that carry tags.\<close>

definition tagged :: "string \<Rightarrow> string \<Rightarrow> string \<Rightarrow> (string \<times> (string \<Rightarrow> string)) option" where
  "tagged method url field =
     (if field = ''Method'' then Some (''string'', \<lambda>k. if k = ''method'' then method else [])
      else if field = ''URL'' then Some (''string'', \<lambda>k. if k = ''url'' then url else [])
      else None)"

definition api :: "string \<Rightarrow> string \<Rightarrow> ('s, 'm) Controller \<Rightarrow> 's http_handler \<Rightarrow> 's api_controller" where
  "api method url c h =
     \<lparr>ac_field = tagged method url, ac_Middlewares = ctl_Middlewares c, ac_RequestValidators = ctl_RequestValidators c,
      ac_HandleHttp = h\<rparr>"

text \<open>A JSON body and a permission, or only a permission.\<close>

definition json_with :: "('s, 'pk, 'pub) SecretServerReq \<Rightarrow> PermissionDef \<Rightarrow> 's validator list" where
  "json_with q perm = [AllowContentTypeFor [''application/json''], ValidateJwtToken (ss_VerifyJwt q) (prl_Add [perm] [])]"

definition only_with :: "('s, 'pk, 'pub) SecretServerReq \<Rightarrow> PermissionDef \<Rightarrow> 's validator list" where
  "only_with q perm = [ValidateJwtToken (ss_VerifyJwt q) (prl_Add [perm] [])]"

subsection \<open>Tokens\<close>

definition ttl_option :: "int64 \<Rightarrow> JwtOption" where
  "ttl_option ttl = \<lparr>jo_ServerControl = False, jo_TTL = ttl * 1000000000, jo_OneTime = False\<rparr>"

definition JwtManageCreateAdminJwt :: "('s, 'pk, 'pub) SecretServerReq \<Rightarrow> ('s, jwtAdminReq) Controller" where
  "JwtManageCreateAdminJwt q = new_controller (json_with q SecretJwtAdmin) (json_parser (de_admin (ss_decode q)))"

definition CreateAdminJwt_HandleHttp :: "('s, 'pk, 'pub) SecretServerReq \<Rightarrow> 's http_handler" where
  "CreateAdminJwt_HandleHttp q r s =
     on_ok (ParseBody (JwtManageCreateAdminJwt q) r) s (\<lambda>req.
     let jwtData = SetupPermissions [] (prl_Add [SecretJwtAdmin, SecretJwtNew] []) in
     on_ok (ss_SignJwt q (ja_Key req) (ja_Alg req) jwtData (ttl_option (ja_TTL req)) s) s (\<lambda>token.
       Done (NewJsonOkRender [(''token'', JString token)], s)))"

definition NewJwtManageCreateAdminJwt :: "('s, 'pk, 'pub) SecretServerReq \<Rightarrow> 's api_controller" where
  "NewJwtManageCreateAdminJwt q =
     api ''POST'' ''/api/v1/secret/jwt/admin/new'' (JwtManageCreateAdminJwt q) (CreateAdminJwt_HandleHttp q)"

definition MaxPermissionsInSingleToken :: nat where "MaxPermissionsInSingleToken = 10"

text \<open>The requested permissions, or the status the request is refused with.\<close>

fun check_permissions :: "string list \<Rightarrow> nat + PermissionDef list" where
  "check_permissions [] = Inr []"
| "check_permissions (perm # ps) =
     (case GetPermissionDef perm of
        None \<Rightarrow> Inl StatusBadRequest
      | Some d \<Rightarrow>
          if pd_Equals d SecretJwtAdmin then Inl StatusUnauthorized
          else res_bind (check_permissions ps) (\<lambda>ds. Inr (d # ds)))"

definition JwtManageCreateNewJwt :: "('s, 'pk, 'pub) SecretServerReq \<Rightarrow> ('s, jwtNewReq) Controller" where
  "JwtManageCreateNewJwt q = new_controller (json_with q SecretJwtNew) (json_parser (de_new (ss_decode q)))"

definition CreateNewJwt_HandleHttp :: "('s, 'pk, 'pub) SecretServerReq \<Rightarrow> 's http_handler" where
  "CreateNewJwt_HandleHttp q r s =
     on_ok (ParseBody (JwtManageCreateNewJwt q) r) s (\<lambda>req.
     if jn_Permissions req = [] \<or> MaxPermissionsInSingleToken < length (jn_Permissions req)
     then Done (NewStatusRender StatusBadRequest, s)
     else (case check_permissions (jn_Permissions req) of
         Inl status \<Rightarrow> Done (NewStatusRender status, s)
       | Inr perms \<Rightarrow>
           let jwtData = SetupPermissions [] (prl_Add perms []) in
           on_ok (ss_SignJwt q (jn_Key req) (jn_Alg req) jwtData (ttl_option (jn_TTL req)) s) s (\<lambda>token.
             Done (NewJsonOkRender [(''token'', JString token)], s))))"

definition NewJwtManageCreateNewJwt :: "('s, 'pk, 'pub) SecretServerReq \<Rightarrow> 's api_controller" where
  "NewJwtManageCreateNewJwt q =
     api ''POST'' ''/api/v1/secret/jwt/new'' (JwtManageCreateNewJwt q) (CreateNewJwt_HandleHttp q)"

definition JwtManageVerifyJwt :: "('s, 'pk, 'pub) SecretServerReq \<Rightarrow> ('s, jwtVerifyReq) Controller" where
  "JwtManageVerifyJwt q = new_controller (json_with q SecretJwtVerify) (json_parser (de_verify (ss_decode q)))"

definition VerifyJwt_HandleHttp :: "('s, 'pk, 'pub) SecretServerReq \<Rightarrow> 's http_handler" where
  "VerifyJwt_HandleHttp q r s =
     on_ok (ParseBody (JwtManageVerifyJwt q) r) s (\<lambda>req.
     run_bind (ss_VerifyJwt q (jv_Token req) s) (\<lambda>res.
       Done (NewJsonOkRender [(''result'', JBool (is_ok res))], s)))"

definition NewJwtManageVerifyJwt :: "('s, 'pk, 'pub) SecretServerReq \<Rightarrow> 's api_controller" where
  "NewJwtManageVerifyJwt q =
     api ''PUT'' ''/api/v1/secret/jwt/verify'' (JwtManageVerifyJwt q) (VerifyJwt_HandleHttp q)"

subsection \<open>Keys\<close>

text \<open>The scales that a type of key has.\<close>

definition key_scales :: "string \<Rightarrow> string list" where
  "key_scales typ =
     (if typ = ''RSA'' then [''2048'', ''1024'', ''3072'', ''4096'']
      else if typ = ''ECDSA'' then [''224'', ''256'', ''384'', ''521'']
      else if typ = ''AES'' then [''128'', ''192'', ''256'']
      else [])"

text \<open>The second switch; \<open>None\<close> is its panic.\<close>

definition requested_key :: "'pk keylib \<Rightarrow> 'pk rng \<Rightarrow> string \<Rightarrow> string \<Rightarrow> (KeyType \<times> bytes res) option" where
  "requested_key lib rg typ scale =
     (if typ = ''RSA'' then
        (let kt = (if scale = ''1024'' then Some KeyRSA1024 else if scale = ''2048'' then Some KeyRSA2048
                   else if scale = ''3072'' then Some KeyRSA3072 else if scale = ''4096'' then Some KeyRSA4096 else None)
         in map_option (\<lambda>kt. (kt, gen_RSA lib rg kt)) kt)
      else if typ = ''ECDSA'' then
        (let kt = (if scale = ''256'' then Some KeyECDSA256 else if scale = ''224'' then Some KeyECDSA224
                   else if scale = ''384'' then Some KeyECDSA384 else if scale = ''521'' then Some KeyECDSA521 else None)
         in map_option (\<lambda>kt. (kt, gen_ECDSA lib rg kt)) kt)
      else if typ = ''AES'' then
        (if scale = ''128'' then Some (KeyAES128, Aes128 rg)
         else if scale = ''192'' then Some (KeyAES192, Aes192 rg)
         else if scale = ''256'' then Some (KeyAES256, Aes256 rg)
         else None)
      else None)"

definition KeyManageGenerateNewKey :: "('s, 'pk, 'pub) SecretServerReq \<Rightarrow> ('s, newKeyReq) Controller" where
  "KeyManageGenerateNewKey q = new_controller (json_with q SecretKeyAdmin) (json_parser (de_key (ss_decode q)))"

definition GenerateNewKey_HandleHttp :: "('s, 'pk, 'pub) SecretServerReq \<Rightarrow> 's http_handler" where
  "GenerateNewKey_HandleHttp q r s =
     on_ok (ParseBody (KeyManageGenerateNewKey q) r) s (\<lambda>req.
     let keyName = TrimSpace (rq_param r ''key_name'');
         encryptKeyName = TrimSpace (nk_EncryptKeyName req) in
     if keyName = [] \<or> encryptKeyName = [] then Done (NewStatusRender StatusBadRequest, s)
     else if nk_KeyScale req \<notin> set (key_scales (nk_Type req)) then Done (NewStatusRender StatusBadRequest, s)
     else (case requested_key (ss_keylib q) (ss_keyGen q) (nk_Type req) (nk_KeyScale req) of
         None \<Rightarrow> Panic
       | Some (kt, gen) \<Rightarrow>
           on_ok (Done gen) s (\<lambda>key.
           run_bind (ss_StoreL2DataKey q encryptKeyName keyName kt key s) (\<lambda>(res, s).
           on_ok (Done res) s (\<lambda>_.
             Done (NewJsonOkRender [(''key_name'', JString keyName)], s))))))"

definition NewKeyManageGenerateNewKey :: "('s, 'pk, 'pub) SecretServerReq \<Rightarrow> 's api_controller" where
  "NewKeyManageGenerateNewKey q =
     api ''PUT'' ''/api/v1/secret/key/new/{key_name}'' (KeyManageGenerateNewKey q) (GenerateNewKey_HandleHttp q)"

text \<open>The series and the format of a type of key, as both reading handlers name them.\<close>

definition key_series :: "KeyType \<Rightarrow> (string \<times> string) option" where
  "key_series kt =
     (if kt = KeyKeySet then Some (''keyset'', ''pem'')
      else if kt \<in> {KeyAES128, KeyAES192, KeyAES256} then Some (''aes'', ''raw'')
      else if kt \<in> {KeyRSA1024, KeyRSA2048, KeyRSA3072, KeyRSA4096} then Some (''rsa'', ''pem'')
      else if kt \<in> {KeyECDSA224, KeyECDSA256, KeyECDSA384, KeyECDSA521} then Some (''ecdsa'', ''pem'')
      else if kt = KeyEd25519 then Some (''ed25519'', ''raw'')
      else if kt \<in> {KeyGeneral64B, KeyGeneral128B} then Some (''general'', ''raw'')
      else None)"

definition KeyManageGetKeyById :: "('s, 'pk, 'pub) SecretServerReq \<Rightarrow> ('s, newKeyReq) Controller" where
  "KeyManageGetKeyById q = new_controller (only_with q SecretKeyAdmin) (json_parser (de_key (ss_decode q)))"

definition GetKeyById_HandleHttp :: "('s, 'pk, 'pub) SecretServerReq \<Rightarrow> 's http_handler" where
  "GetKeyById_HandleHttp q r s =
     (let keyId = TrimSpace (rq_param r ''key_id'') in
      if keyId = [] then Done (NewStatusRender StatusBadRequest, s)
      else
        on_ok (Done (ParseInt keyId)) s (\<lambda>keyIdInt.
        on_ok (ss_LoadL2DataKeyById q 0 keyIdInt s) s (\<lambda>(kt, key).
        case key_series kt of
          None \<Rightarrow> Done (NewErrRender (Errorf ''unsupported key type''), s)
        | Some (series, format) \<Rightarrow>
            Done (NewJsonOkRender [(''key_type'', JString series), (''key'', JBytes key), (''format'', JString format)], s))))"

definition NewKeyManageGetKeyById :: "('s, 'pk, 'pub) SecretServerReq \<Rightarrow> 's api_controller" where
  "NewKeyManageGetKeyById q =
     api ''GET'' ''/api/v1/secret/key/info/{key_id}'' (KeyManageGetKeyById q) (GetKeyById_HandleHttp q)"

definition KeyManageGetKeyByName :: "('s, 'pk, 'pub) SecretServerReq \<Rightarrow> ('s, unit) Controller" where
  "KeyManageGetKeyByName q = new_controller (only_with q SecretKeyAdmin) (\<lambda>hr body. Inr ())"

definition GetKeyByName_HandleHttp :: "('s, 'pk, 'pub) SecretServerReq \<Rightarrow> 's http_handler" where
  "GetKeyByName_HandleHttp q r s =
     (let keyName = TrimSpace (rq_param r ''key_name'') in
      if keyName = [] then Done (NewStatusRender StatusBadRequest, s)
      else
        on_ok (ss_FetchL2DataKey q keyName s) s (\<lambda>(keyId, kt, key).
        case key_series kt of
          None \<Rightarrow> Done (NewErrRender (Errorf ''unsupported key type''), s)
        | Some (series, format) \<Rightarrow>
            Done (NewJsonOkRender [(''key_id'', JString (FormatInt keyId)), (''key_type'', JString series), (''key'', JBytes key),
              (''format'', JString format)], s)))"

definition NewKeyManageGetKeyByName :: "('s, 'pk, 'pub) SecretServerReq \<Rightarrow> 's api_controller" where
  "NewKeyManageGetKeyByName q =
     api ''GET'' ''/api/v1/secret/key/name/{key_name}'' (KeyManageGetKeyByName q) (GetKeyByName_HandleHttp q)"

end
