(* ===== verification/SecretCerts.thy ===== *)
theory SecretCerts
  imports SecretApi
begin

text \<open>
  The controllers of the secret server for certificates (\<open>controller.cert.manage.go\<close>) and the table of
  routes the server registers (\<open>server.go\<close>).
\<close>

section \<open>Creating certificates\<close>

definition CertManageCreateCert :: "('s, 'pk, 'pub) SecretServerReq \<Rightarrow> ('s, createCertReq) Controller" where
  "CertManageCreateCert q = new_controller (json_with q SecretCertAdmin) (json_parser (de_cert (ss_decode q)))"

text \<open>
  The managed private key a request may name: the level and the id that are stored with the certificate, or the
  render the request is answered with.
\<close>

definition managed_key ::
  "('s, 'pk, 'pub) SecretServerReq \<Rightarrow> string \<Rightarrow> 's \<Rightarrow> (render + CertKeyInfo) run" where
  "managed_key q key_id s =
     (if key_id = [] then Done (Inr \<lparr>ki_CertKeyLevel = CertKeyLevelExternal, ki_CertKeyId = []\<rparr>)
      else case ParseInt key_id of
        Inl e \<Rightarrow> Done (Inl (NewStatusRender StatusBadRequest))
      | Inr n \<Rightarrow>
          run_bind (ss_LoadL2DataKeyById q 0 n s) (\<lambda>res. case res of
            Inl e \<Rightarrow> Done (Inl (NewErrRender e))
          | Inr (t, _) \<Rightarrow>
              Done (if is_rsa t \<or> is_ecdsa t
                    then Inr \<lparr>ki_CertKeyLevel = CertKeyLevelLevel2Custom, ki_CertKeyId = key_id\<rparr>
                    else Inl (NewErrRender (Errorf ''unsupported key type'')))))"

text \<open>The private key of the CA, by the level of its key.\<close>

definition ca_signer ::
  "('s, 'pk, 'pub) SecretServerReq \<Rightarrow> CertKeyLevel \<Rightarrow> int \<Rightarrow> 's \<Rightarrow> 'pk res run" where
  "ca_signer q level keyId s =
     (if level = CertKeyLevelLevel2Custom then
        rr_bind (ss_LoadL2DataKeyById q 1 keyId s) (\<lambda>(kt, key).
          Done (if is_rsa kt then ParseRsaPrivateKey (ss_keylib q) key
                else if is_ecdsa kt then ParseECDSAPrivateKey (ss_keylib q) key
                else Inl (Errorf ''unsupported key type'')))
      else if level = CertKeyLevelLevel2Rsa then
        rr_bind (ss_LoadLevel2KeySetById q keyId s) (\<lambda>ks. Done (ks_Rsa (ss_keylib q) ks))
      else if level = CertKeyLevelLevel2Ecdsa then
        rr_bind (ss_LoadLevel2KeySetById q keyId s) (\<lambda>ks. Done (ks_Ecdsa (ss_keylib q) ks))
      else Done (Inl (Errorf ''unsupported cert key level'')))"

fun encode_certs :: "'pk keylib \<Rightarrow> Certificate list \<Rightarrow> string list res" where
  "encode_certs lib [] = Inr []"
| "encode_certs lib (c # cs) =
     res_bind (EncodeCertificate lib c) (\<lambda>data. res_bind (encode_certs lib cs) (\<lambda>ds. Inr (string_of data # ds)))"

definition zero_CertTool :: CertTool where
  "zero_CertTool = \<lparr>EndUserCertKeyUsage = 0, EndUserCertExtKeyUsage = []\<rparr>"

definition usage_tool :: "string \<Rightarrow> CertTool res" where
  "usage_tool usage =
     (if usage = ''server'' then Inr (SetupDefaultServerCertKeyUsage zero_CertTool)
      else if usage = ''client'' then Inr (SetupDefaultClientCertKeyUsage zero_CertTool)
      else if usage = ''both'' then Inr (SetupDefaultBothCertKeyUsage zero_CertTool)
      else Inl (Errorf ''unsupported cert usage''))"

text \<open>The recursion that does not return overflows the stack: no response.\<close>

definition ca_chain :: "('s, 'pk, 'pub) SecretServerReq \<Rightarrow> Certificate \<Rightarrow> 's \<Rightarrow> Certificate list res run" where
  "ca_chain q caCert s =
     (case recursiveRetrieveCerts (\<lambda>n sn. ss_LoadParentCertByCertId q n sn s) 0 caCert (sn_of caCert) of
        None \<Rightarrow> Block
      | Some res \<Rightarrow> Done res)"

text \<open>
  The new certificate. The error of \<open>CreateCertificate\<close> is overwritten by the next assignment, and
  encoding the nil certificate panics.
\<close>

definition issue ::
  "('s, 'pk, 'pub) SecretServerReq \<Rightarrow> createCertReq \<Rightarrow> CertTool \<Rightarrow> 'pub CertificateRequest \<Rightarrow> int \<Rightarrow> Certificate \<Rightarrow> 'pk \<Rightarrow>
   (Certificate \<times> bytes) res run" where
  "issue q req tool certReq serial caCert signer =
     (let meta = cm_Duration (cc_TTL req * 1000000000)
            \<lparr>cm_SerialNumber = serial, cm_StartTime = ss_now q, cm_ExpireTime = 0, cm_Version = 0, cm_SignerCert = caCert,
             cm_Signer = \<lparr>kp_PrivateKey = signer, kp_PublicKey = xl_public (ss_x509 q) signer\<rparr>\<rparr>
      in case CreateCertificate (ss_x509 q) tool certReq meta of
           Inl e \<Rightarrow> Panic
         | Inr newCert \<Rightarrow> Done (res_bind (EncodeCertificate (ss_keylib q) newCert) (\<lambda>data. Inr (newCert, data))))"

text \<open>What follows the checks of the request: the CA, its key and chain, the serial number, the certificate, and its storing.\<close>

definition create_and_save ::
  "('s, 'pk, 'pub) SecretServerReq \<Rightarrow> createCertReq \<Rightarrow> string \<Rightarrow> string \<Rightarrow> CertKeyInfo \<Rightarrow> 's \<Rightarrow> (render \<times> 's) run" where
  "create_and_save q req certName caName keyInfo s =
     on_ok (Done (ParseCertificateRequest (ss_keylib q) (ss_x509 q) (bytes_of (cc_CertReqData req)))) s (\<lambda>certReq.
     on_ok (Done (ss_LoadCertByName q caName CertLevelTypeIntermediateCA s)) s (\<lambda>(caCert, caKeyInfo).
     on_ok (Done (ParseInt (ki_CertKeyId caKeyInfo))) s (\<lambda>certKeyIdNum.
     on_ok (ca_signer q (ki_CertKeyLevel caKeyInfo) certKeyIdNum s) s (\<lambda>signer.
     on_ok (ca_chain q caCert s) s (\<lambda>caCerts.
     on_ok (Done (encode_certs (ss_keylib q) caCerts)) s (\<lambda>caCertData.
     let (sn, s) = ss_NextCertSerialNumber q s in
     on_ok (Done sn) s (\<lambda>certSnNum.
     on_ok (Done (ToBigInt certSnNum)) s (\<lambda>certSnBig.
     on_ok (Done (usage_tool (cc_CertUsage req))) s (\<lambda>tool.
     on_ok (issue q req tool certReq certSnBig caCert signer) s (\<lambda>(newCert, newCertData).
     let (res, s) = ss_SaveCert q certName (sn_of caCert) newCert keyInfo s in
     on_ok (Done res) s (\<lambda>_.
       Done (NewJsonOkRender [(''cert'', JString (string_of newCertData)), (''ca_list'', JStrings caCertData)], s))))))))))))"

definition CreateCert_HandleHttp :: "('s, 'pk, 'pub) SecretServerReq \<Rightarrow> 's http_handler" where
  "CreateCert_HandleHttp q r s =
     on_ok (ParseBody (CertManageCreateCert q) r) s (\<lambda>req.
     let certName = TrimSpace (cc_CertName req);
         certReqData = cc_CertReqData req;
         caName = TrimSpace (cc_CAName req) in
     if certName = [] \<or> certReqData = [] \<or> caName = [] then Done (NewStatusRender StatusBadRequest, s)
     else if cc_CertUsage req \<noteq> ''server'' \<and> cc_CertUsage req \<noteq> ''client'' \<and> cc_CertUsage req \<noteq> ''both''
     then Done (NewStatusRender StatusBadRequest, s)
     else
       run_bind (managed_key q (cc_KeyId req) s) (\<lambda>res. case res of
         Inl rd \<Rightarrow> Done (rd, s)
       | Inr keyInfo \<Rightarrow> create_and_save q req certName caName keyInfo s))"

definition NewCertManageCreateCert :: "('s, 'pk, 'pub) SecretServerReq \<Rightarrow> 's api_controller" where
  "NewCertManageCreateCert q =
     api ''POST'' ''/api/v1/secret/cert/new'' (CertManageCreateCert q) (CreateCert_HandleHttp q)"

section \<open>Creating certificate requests\<close>

definition CertManageCreateCertReq :: "('s, 'pk, 'pub) SecretServerReq \<Rightarrow> ('s, createCertReqReq) Controller" where
  "CertManageCreateCertReq q = new_controller (json_with q SecretCertAdmin) (json_parser (de_certreq (ss_decode q)))"

fun parse_ips :: "(string \<Rightarrow> bytes option) \<Rightarrow> string list \<Rightarrow> bytes list option" where
  "parse_ips parse [] = Some []"
| "parse_ips parse (ip # ips) =
     (case parse ip of None \<Rightarrow> None | Some n \<Rightarrow> map_option (\<lambda>ns. n # ns) (parse_ips parse ips))"

definition CreateCertReq_HandleHttp :: "('s, 'pk, 'pub) SecretServerReq \<Rightarrow> 's http_handler" where
  "CreateCertReq_HandleHttp q r s =
     on_ok (ParseBody (CertManageCreateCertReq q) r) s (\<lambda>req.
     if cr_KeyName req = [] then Done (NewStatusRender StatusBadRequest, s)
     else (case parse_ips (xl_parse_ip (ss_x509 q)) (cr_IPAddresses req) of
       None \<Rightarrow> Done (NewStatusRender StatusBadRequest, s)
     | Some ipAddresses \<Rightarrow>
         on_ok (ss_FetchL2DataKey q (cr_KeyName req) s) s (\<lambda>(keyId, keyType, key).
         on_ok (Done (if is_rsa keyType then ParseRsaPrivateKey (ss_keylib q) key
                else if is_ecdsa keyType then ParseECDSAPrivateKey (ss_keylib q) key
                else Inl (Errorf ''unsupported key type''))) s (\<lambda>signer.
         on_ok (Done (CreateCertificateRequest (ss_x509 q)
             \<lparr>cq_CommonName = cr_CommonName req, cq_Organization = cr_Organization req, cq_Country = cr_Country req,
              cq_Province = cr_Province req, cq_Locality = cr_Locality req, cq_StreetAddress = cr_StreetAddress req,
              cq_PostalCode = cr_PostalCode req, cq_DNSNames = cr_DNSNames req, cq_EmailAddresses = cr_EmailAddresses req,
              cq_IPAddresses = ipAddresses, cq_URLs = []\<rparr>
             \<lparr>kp_PrivateKey = signer, kp_PublicKey = xl_public (ss_x509 q) signer\<rparr>)) s (\<lambda>certReq.
         on_ok (Done (EncodeCertificateRequest (ss_keylib q) (xr_Raw certReq))) s (\<lambda>result.
           Done (NewJsonOkRender [(''key_id'', JString (FormatInt keyId)), (''req'', JString (string_of result))], s)))))))"

definition NewCertManageCreateCertReq :: "('s, 'pk, 'pub) SecretServerReq \<Rightarrow> 's api_controller" where
  "NewCertManageCreateCertReq q =
     api ''POST'' ''/api/v1/secret/cert/newreq'' (CertManageCreateCertReq q) (CreateCertReq_HandleHttp q)"

section \<open>Reading certificates\<close>

definition CertManageGetCert :: "('s, 'pk, 'pub) SecretServerReq \<Rightarrow> ('s, createCertReqReq) Controller" where
  "CertManageGetCert q = new_controller (only_with q SecretCertAdmin) (json_parser (de_certreq (ss_decode q)))"

text \<open>The private key that is stored for a certificate; a level without one yields no bytes.\<close>

definition cert_private_key :: "('s, 'pk, 'pub) SecretServerReq \<Rightarrow> CertKeyLevel \<Rightarrow> int \<Rightarrow> 's \<Rightarrow> bytes res run" where
  "cert_private_key q level keyId s =
     (if level = CertKeyLevelLevel2Custom then
        rr_bind (ss_LoadL2DataKeyById q 0 keyId s) (\<lambda>(_, key). Done (Inr key))
      else if level = CertKeyLevelLevel2Rsa then
        rr_bind (ss_LoadLevel2KeySetById q keyId s) (\<lambda>ks. Done (Inr (RSA4096 ks)))
      else if level = CertKeyLevelLevel2Ecdsa then
        rr_bind (ss_LoadLevel2KeySetById q keyId s) (\<lambda>ks. Done (Inr (ECDSA_P521 ks)))
      else Done (Inr []))"

text \<open>The empty chain would panic at its first certificate; the storage never returns it.\<close>

definition GetCert_HandleHttp :: "('s, 'pk, 'pub) SecretServerReq \<Rightarrow> 's http_handler" where
  "GetCert_HandleHttp q r s =
     (let certName = TrimSpace (rq_param r ''cert_name'') in
      if certName = [] then Done (NewStatusRender StatusBadRequest, s)
      else
        on_ok (Done (ss_LoadCertChainByName q certName CertLevelTypeCert s)) s (\<lambda>(certs, info).
        on_ok (Done (ParseInt (ki_CertKeyId info))) s (\<lambda>certKeyIdNum.
        on_ok (cert_private_key q (ki_CertKeyLevel info) certKeyIdNum s) s (\<lambda>certKey.
        case certs of
          [] \<Rightarrow> Panic
        | c # cs \<Rightarrow>
            on_ok (Done (EncodeCertificate (ss_keylib q) c)) s (\<lambda>certStr.
            on_ok (Done (encode_certs (ss_keylib q) cs)) s (\<lambda>caCerts.
              Done (NewJsonOkRender [(''cert'', JString (string_of certStr)), (''ca_list'', JStrings caCerts),
                (''key'', JString (string_of certKey))], s)))))))"

definition NewCertManageGetCert :: "('s, 'pk, 'pub) SecretServerReq \<Rightarrow> 's api_controller" where
  "NewCertManageGetCert q =
     api ''GET'' ''/api/v1/secret/cert/name/{cert_name}'' (CertManageGetCert q) (GetCert_HandleHttp q)"

section \<open>The server\<close>

text \<open>The registration stops at the first error.\<close>

definition initWriteApis :: "('s, 'pk, 'pub) SecretServerReq \<Rightarrow> 's ChiApiStub res" where
  "initWriteApis q =
     (case RegisterControllers
        [NewJwtManageCreateAdminJwt q, NewJwtManageVerifyJwt q, NewJwtManageCreateNewJwt q] NewChiApiStub of
        (Inl e, _) \<Rightarrow> Inl e
      | (Inr _, stub) \<Rightarrow>
          (case RegisterControllers
             [NewCertManageCreateCertReq q, NewCertManageCreateCert q, NewCertManageGetCert q] stub of
             (Inl e, _) \<Rightarrow> Inl e
           | (Inr _, stub) \<Rightarrow>
               (case RegisterControllers
                  [NewKeyManageGenerateNewKey q, NewKeyManageGetKeyById q, NewKeyManageGetKeyByName q] stub of
                  (Inl e, _) \<Rightarrow> Inl e
                | (Inr _, stub) \<Rightarrow> Inr stub)))"

definition write_routes :: "(json_obj \<Rightarrow> bytes res) \<Rightarrow> ('s, 'pk, 'pub) SecretServerReq \<Rightarrow> 's mounted list res" where
  "write_routes marshal q = res_bind (initWriteApis q) (\<lambda>stub. Inr (BuildFor marshal stub))"

end
