(* ===== verification/SecretGuard.thy ===== *)
theory SecretGuard
  imports SecretCerts
begin

text \<open>
  The routes of the secret server and what guards them: the permission each route asks for, and that
  a request without a verified token that carries it is refused before its handler runs.
\<close>

section \<open>Steps\<close>

lemma on_ok_Done:
  "on_ok m s f = Done y \<longleftrightarrow> (\<exists>e. m = Done (Inl e) \<and> y = (ErrRender e, s)) \<or> (\<exists>x. m = Done (Inr x) \<and> f x = Done y)"
proof (cases m)
  case (Done r)
  then show ?thesis by (cases r) (auto simp: on_ok_def NewErrRender_def)
qed (simp_all add: on_ok_def)

lemma on_ok_simps [simp]:
  "on_ok (Done (Inr x)) s f = f x" "on_ok (Done (Inl e)) s f = Done (ErrRender e, s)" "on_ok Panic s f = Panic" "on_ok Block s f = Block"
  by (simp_all add: on_ok_def NewErrRender_def)

lemma on_ok_Json:
  "on_ok m s f = Done (JsonObjRender c obj, s') \<longleftrightarrow> (\<exists>x. m = Done (Inr x) \<and> f x = Done (JsonObjRender c obj, s'))"
  unfolding on_ok_Done by simp

section \<open>The bearer token\<close>

definition bearer_token :: "http_request \<Rightarrow> string option" where
  "bearer_token r =
     (case Split CHR '' '' (TrimSpace (rq_header r ''Authorization'')) of
        [b, tok] \<Rightarrow> if TrimSpace b = ''Bearer'' then Some (TrimSpace tok) else None
      | _ \<Rightarrow> None)"

definition carries :: "JwtData \<Rightarrow> PermissionDef \<Rightarrow> bool" where
  "carries data perm \<longleftrightarrow> (\<exists>ps. map_of data JwtClaimsKeyPermissions = Some (Anys (map Str_val ps)) \<and> pd_ToString perm \<in> set ps)"

lemma ValidateJwtToken_eq:
  "ValidateJwtToken verify allowed r s =
    (case bearer_token r of
       None \<Rightarrow> Done (Some (StatusRender 401))
     | Some token \<Rightarrow>
         run_bind (VerifyPermissionsOnJwtToken (\<lambda>tok. verify tok s) token allowed AnyPermissionOperator) (\<lambda>res. case res of
           Inl e \<Rightarrow> Done (Some (StatusRender 401))
         | Inr pass \<Rightarrow> if \<not> pass then Done (Some (StatusRender 401)) else Done None))"
proof -
  let ?sp = "Split CHR '' '' (TrimSpace (rq_header r ''Authorization''))"
  consider "length ?sp \<noteq> 2" | b tok where "?sp = [b, tok]"
    by (cases ?sp; cases "tl ?sp"; cases "tl (tl ?sp)") auto
  then show ?thesis
  proof cases
    case 1
    then have "bearer_token r = None" by (auto simp: bearer_token_def split: list.splits)
    then show ?thesis using 1 by (simp add: ValidateJwtToken_def Let_def NewStatusRender_def StatusUnauthorized_def)
  next
    case 2
    then show ?thesis
      unfolding ValidateJwtToken_def bearer_token_def Let_def NewStatusRender_def StatusUnauthorized_def
      by (cases "TrimSpace b = ''Bearer''") simp_all
  qed
qed

lemma ValidateJwtToken_pass:
  "ValidateJwtToken verify (prl_Add [perm] []) r s = Done None \<longleftrightarrow>
    (\<exists>tok data. bearer_token r = Some tok \<and> verify tok s = Done (Inr data) \<and> carries data perm)"
proof (cases "bearer_token r")
  case None
  then show ?thesis by (simp add: ValidateJwtToken_eq)
next
  case (Some tok)
  have "ValidateJwtToken verify (prl_Add [perm] []) r s = Done None \<longleftrightarrow>
      VerifyPermissionsOnJwtToken (\<lambda>tok. verify tok s) tok (prl_Add [perm] []) AnyPermissionOperator = Done (Inr True)" (is "_ \<longleftrightarrow> ?v = _")
  proof (cases ?v)
    case (Done x)
    then show ?thesis using Some by (cases x) (simp_all add: ValidateJwtToken_eq)
  qed (use Some in \<open>simp_all add: ValidateJwtToken_eq\<close>)
  also have "\<dots> \<longleftrightarrow> (\<exists>data. verify tok s = Done (Inr data) \<and> VerifyPermissions data (prl_Add [perm] []) AnyPermissionOperator = Done True)"
  proof (cases "verify tok s")
    case (Done x)
    then show ?thesis by (cases x) (auto simp: VerifyPermissionsOnJwtToken_def)
  qed (simp_all add: VerifyPermissionsOnJwtToken_def)
  also have "\<dots> \<longleftrightarrow> (\<exists>data. verify tok s = Done (Inr data) \<and> carries data perm)"
    by (simp add: VerifyPermissions_any carries_def)
  finally show ?thesis using Some by simp
qed

lemma ValidateJwtToken_refuse: "ValidateJwtToken verify allowed r s = Done (Some rd) \<Longrightarrow> rd = StatusRender 401"
proof -
  assume a: "ValidateJwtToken verify allowed r s = Done (Some rd)"
  show ?thesis
  proof (cases "bearer_token r")
    case None
    then show ?thesis using a by (simp add: ValidateJwtToken_eq)
  next
    case (Some tok)
    then obtain x :: "bool res" where "(case x of Inl e \<Rightarrow> Done (Some (StatusRender 401))
        | Inr pass \<Rightarrow> if \<not> pass then Done (Some (StatusRender 401)) else Done None) = Done (Some rd)"
      using a by (auto simp: ValidateJwtToken_eq)
    then show ?thesis by (cases x) (simp_all split: if_splits)
  qed
qed

section \<open>The routes\<close>

definition route_permissions :: "((string \<times> string) \<times> PermissionDef) list" where
  "route_permissions =
    [((''POST'', ''/api/v1/secret/jwt/admin/new''), SecretJwtAdmin),
     ((''PUT'', ''/api/v1/secret/jwt/verify''), SecretJwtVerify),
     ((''POST'', ''/api/v1/secret/jwt/new''), SecretJwtNew),
     ((''POST'', ''/api/v1/secret/cert/newreq''), SecretCertAdmin),
     ((''POST'', ''/api/v1/secret/cert/new''), SecretCertAdmin),
     ((''GET'', ''/api/v1/secret/cert/name/{cert_name}''), SecretCertAdmin),
     ((''PUT'', ''/api/v1/secret/key/new/{key_name}''), SecretKeyAdmin),
     ((''GET'', ''/api/v1/secret/key/info/{key_id}''), SecretKeyAdmin),
     ((''GET'', ''/api/v1/secret/key/name/{key_name}''), SecretKeyAdmin)]"

text \<open>A list of controllers, each a route with its permission's validators, registers in order.\<close>

definition guarded_by :: "('s, 'pk, 'pub) SecretServerReq \<Rightarrow> PermissionDef \<Rightarrow> 's api_item \<Rightarrow> bool" where
  "guarded_by q perm item \<longleftrightarrow> it_RequestValidators item = json_with q perm \<or> it_RequestValidators item = only_with q perm"

lemma extract_api:
  "extractMethod (api m u c h) = (if ToUpper (TrimSpace m) \<in> set httpMethods then Inr (ToUpper (TrimSpace m)) else Inl ErrMethodInvalid)"
  "extractUrl (api m u c h) = (if TrimSpace u = [] then Inl ErrEmptyURL else Inr (TrimSpace u))"
  by (simp_all add: extractMethod_def extractUrl_def api_def tagged_def Let_def)

lemma api_parts:
  "ac_Middlewares (api m u c h) = ctl_Middlewares c" "ac_RequestValidators (api m u c h) = ctl_RequestValidators c"
  "ac_HandleHttp (api m u c h) = h"
  by (simp_all add: api_def)

definition plain_text :: "string \<Rightarrow> bool" where
  "plain_text s \<longleftrightarrow> list_all plain_char s"

lemma trim_plain_text: "plain_text s \<Longrightarrow> TrimSpace s = s"
  by (rule TrimSpace_plain) (simp add: plain_text_def list_all_iff)

text \<open>The item that is registered for a controller, and the registration of a list of controllers.\<close>

definition item_for :: "string \<times> string \<Rightarrow> 's api_controller \<Rightarrow> 's api_item" where
  "item_for mu c = \<lparr>it_m = fst mu, it_u = snd mu, it_Middlewares = ac_Middlewares c,
     it_RequestValidators = ac_RequestValidators c, it_HandleHttp = ac_HandleHttp c\<rparr>"

definition registrable :: "'s api_controller \<Rightarrow> string \<times> string \<Rightarrow> bool" where
  "registrable c mu \<longleftrightarrow> extractMethod c = Inr (fst mu) \<and> extractUrl c = Inr (snd mu)"

lemma register_all:
  "list_all2 registrable cs mus \<Longrightarrow> \<exists>stub'. RegisterControllers cs stub = (Inr (), stub') \<and>
    (\<forall>m u. item_at m u stub' =
       (case item_at m u stub of Some i \<Rightarrow> Some i | None \<Rightarrow> map_of (map (\<lambda>(mu, c). (mu, item_for mu c)) (zip mus cs)) (m, u)))"
proof (induction cs mus arbitrary: stub rule: list_all2_induct)
  case Nil
  show ?case by (auto split: option.splits)
next
  case (Cons c cs mu mus)
  let ?stub = "addItem (fst mu) (snd mu) (ac_Middlewares c) (ac_RequestValidators c) (ac_HandleHttp c) stub"
  obtain stub' where s: "RegisterControllers cs ?stub = (Inr (), stub')"
    "\<forall>m u. item_at m u stub' = (case item_at m u ?stub of Some i \<Rightarrow> Some i
       | None \<Rightarrow> map_of (map (\<lambda>(mu, c). (mu, item_for mu c)) (zip mus cs)) (m, u))"
    using Cons.IH [of ?stub] by blast
  have "RegisterControllers (c # cs) stub = (Inr (), stub')" using Cons.hyps(1) s(1) by (simp add: registrable_def)
  moreover have "item_at m u stub' = (case item_at m u stub of Some i \<Rightarrow> Some i
       | None \<Rightarrow> map_of (map (\<lambda>(mu, c). (mu, item_for mu c)) (zip (mu # mus) (c # cs))) (m, u))" for m u
    using s(2) by (cases "(m, u) = mu"; cases "item_at m u stub") (auto simp: item_at_addItem item_for_def)
  ultimately show ?case by blast
qed

lemma registrable_api:
  assumes "m \<in> {''GET'', ''POST'', ''PUT''}" "plain_text u" "u \<noteq> []"
  shows "registrable (api m u c h) (m, u)"
proof -
  have u: "ToUpper ''GET'' = ''GET''" "ToUpper ''POST'' = ''POST''" "ToUpper ''PUT'' = ''PUT''" by code_simp+
  have p: "plain_text ''GET''" "plain_text ''POST''" "plain_text ''PUT''" by code_simp+
  have "ToUpper (TrimSpace m) = m \<and> m \<in> set httpMethods"
    using assms(1) u p by (auto simp: trim_plain_text httpMethods_def)
  then show ?thesis using assms(2,3) by (simp add: registrable_def extract_api trim_plain_text)
qed

definition standard_item :: "string \<times> string \<Rightarrow> 's validator list \<Rightarrow> 's http_handler \<Rightarrow> 's api_item" where
  "standard_item mu vs h =
     \<lparr>it_m = fst mu, it_u = snd mu, it_Middlewares = standard_middlewares, it_RequestValidators = vs, it_HandleHttp = h\<rparr>"

text \<open>The items of the write API, in the order of \<open>route_permissions\<close>.\<close>

definition write_items :: "('s, 'pk, 'pub) SecretServerReq \<Rightarrow> ((string \<times> string) \<times> 's api_item) list" where
  "write_items q = map (\<lambda>((mu, p), (vs, h)). (mu, standard_item mu (vs q p) h)) (zip route_permissions
     [(json_with, CreateAdminJwt_HandleHttp q), (json_with, VerifyJwt_HandleHttp q), (json_with, CreateNewJwt_HandleHttp q),
      (json_with, CreateCertReq_HandleHttp q), (json_with, CreateCert_HandleHttp q), (only_with, GetCert_HandleHttp q),
      (json_with, GenerateNewKey_HandleHttp q), (only_with, GetKeyById_HandleHttp q), (only_with, GetKeyByName_HandleHttp q)])"

lemmas controller_defs = JwtManageCreateAdminJwt_def JwtManageVerifyJwt_def JwtManageCreateNewJwt_def CertManageCreateCertReq_def
  CertManageCreateCert_def CertManageGetCert_def KeyManageGenerateNewKey_def KeyManageGetKeyById_def KeyManageGetKeyByName_def

lemmas new_controller_defs = NewJwtManageCreateAdminJwt_def NewJwtManageVerifyJwt_def NewJwtManageCreateNewJwt_def
  NewCertManageCreateCertReq_def NewCertManageCreateCert_def NewCertManageGetCert_def NewKeyManageGenerateNewKey_def
  NewKeyManageGetKeyById_def NewKeyManageGetKeyByName_def

lemma new_controller_parts [simp]:
  "ctl_Middlewares (new_controller vs p) = standard_middlewares" "ctl_RequestValidators (new_controller vs p) = vs"
  by (simp_all add: new_controller_def)

lemma ParseBody_new [simp]: "ParseBody (new_controller vs p) r = Done (p r (rq_body r))"
  by (simp add: ParseBody_def new_controller_def)

lemma plain_urls: "list_all (\<lambda>(mu, p). plain_text (snd mu) \<and> snd mu \<noteq> []) route_permissions"
  by code_simp

lemma initWriteApis_items:
  "\<exists>stub. initWriteApis q = Inr stub \<and> (\<forall>m u. item_at m u stub = map_of (write_items q) (m, u))"
proof -
  have u: "plain_text ''/api/v1/secret/jwt/admin/new''" "plain_text ''/api/v1/secret/jwt/verify''" "plain_text ''/api/v1/secret/jwt/new''"
    "plain_text ''/api/v1/secret/cert/newreq''" "plain_text ''/api/v1/secret/cert/new''" "plain_text ''/api/v1/secret/cert/name/{cert_name}''"
    "plain_text ''/api/v1/secret/key/new/{key_name}''" "plain_text ''/api/v1/secret/key/info/{key_id}''" "plain_text ''/api/v1/secret/key/name/{key_name}''"
    using plain_urls by (simp_all add: route_permissions_def)
  have r: "list_all2 registrable [NewJwtManageCreateAdminJwt q, NewJwtManageVerifyJwt q, NewJwtManageCreateNewJwt q] (map fst (take 3 route_permissions))"
    "list_all2 registrable [NewCertManageCreateCertReq q, NewCertManageCreateCert q, NewCertManageGetCert q] (map fst (take 3 (drop 3 route_permissions)))"
    "list_all2 registrable [NewKeyManageGenerateNewKey q, NewKeyManageGetKeyById q, NewKeyManageGetKeyByName q] (map fst (drop 6 route_permissions))"
    unfolding new_controller_defs by (simp_all add: route_permissions_def registrable_api u)
  have l: "map (\<lambda>(mu, c). (mu, item_for mu c)) (zip (map fst (take 3 route_permissions))
        [NewJwtManageCreateAdminJwt q, NewJwtManageVerifyJwt q, NewJwtManageCreateNewJwt q]) = take 3 (write_items q)"
    "map (\<lambda>(mu, c). (mu, item_for mu c)) (zip (map fst (take 3 (drop 3 route_permissions)))
        [NewCertManageCreateCertReq q, NewCertManageCreateCert q, NewCertManageGetCert q]) = take 3 (drop 3 (write_items q))"
    "map (\<lambda>(mu, c). (mu, item_for mu c)) (zip (map fst (drop 6 route_permissions))
        [NewKeyManageGenerateNewKey q, NewKeyManageGetKeyById q, NewKeyManageGetKeyByName q]) = drop 6 (write_items q)"
    unfolding new_controller_defs
    by (simp_all add: controller_defs api_parts item_for_def write_items_def route_permissions_def standard_item_def)
  obtain s1 where s1: "RegisterControllers [NewJwtManageCreateAdminJwt q, NewJwtManageVerifyJwt q, NewJwtManageCreateNewJwt q] NewChiApiStub = (Inr (), s1)"
    "\<forall>m u. item_at m u s1 = (case item_at m u NewChiApiStub of Some i \<Rightarrow> Some i | None \<Rightarrow> map_of (take 3 (write_items q)) (m, u))"
    using register_all [OF r(1), of NewChiApiStub] unfolding l(1) by blast
  obtain s2 where s2: "RegisterControllers [NewCertManageCreateCertReq q, NewCertManageCreateCert q, NewCertManageGetCert q] s1 = (Inr (), s2)"
    "\<forall>m u. item_at m u s2 = (case item_at m u s1 of Some i \<Rightarrow> Some i | None \<Rightarrow> map_of (take 3 (drop 3 (write_items q))) (m, u))"
    using register_all [OF r(2), of s1] unfolding l(2) by blast
  obtain s3 where s3: "RegisterControllers [NewKeyManageGenerateNewKey q, NewKeyManageGetKeyById q, NewKeyManageGetKeyByName q] s2 = (Inr (), s3)"
    "\<forall>m u. item_at m u s3 = (case item_at m u s2 of Some i \<Rightarrow> Some i | None \<Rightarrow> map_of (drop 6 (write_items q)) (m, u))"
    using register_all [OF r(3), of s2] unfolding l(3) by blast
  have w: "write_items q = take 3 (write_items q) @ take 3 (drop 3 (write_items q)) @ drop 6 (write_items q)"
    by (simp add: write_items_def route_permissions_def)
  have m: "map_of (xs @ ys @ zs) k =
      (case (case map_of xs k of Some i \<Rightarrow> Some i | None \<Rightarrow> map_of ys k) of Some i \<Rightarrow> Some i | None \<Rightarrow> map_of zs k)"
    for xs ys zs :: "((string \<times> string) \<times> 'a api_item) list" and k
    by (simp add: map_add_def split: option.splits)
  have "item_at m u s3 = map_of (write_items q) (m, u)" for m u
    unfolding s3(2) [rule_format] s2(2) [rule_format] s1(2) [rule_format] item_at_New
    using m [of "take 3 (write_items q)" "take 3 (drop 3 (write_items q))" "drop 6 (write_items q)" "(m, u)"]
    unfolding w [symmetric] by (simp only: option.case)
  then show ?thesis unfolding initWriteApis_def using s1(1) s2(1) s3(1) by simp
qed

lemma write_items_guard:
  assumes "map_of (write_items q) mu = Some item"
  shows "\<exists>perm. (mu, perm) \<in> set route_permissions \<and> guarded_by q perm item"
proof -
  let ?hs = "[(json_with, CreateAdminJwt_HandleHttp q), (json_with, VerifyJwt_HandleHttp q), (json_with, CreateNewJwt_HandleHttp q),
      (json_with, CreateCertReq_HandleHttp q), (json_with, CreateCert_HandleHttp q), (only_with, GetCert_HandleHttp q),
      (json_with, GenerateNewKey_HandleHttp q), (only_with, GetKeyById_HandleHttp q), (only_with, GetKeyByName_HandleHttp q)]"
  obtain p vs h where x: "((mu, p), (vs, h)) \<in> set (zip route_permissions ?hs)" "item = standard_item mu (vs q p) h"
    using map_of_SomeD [OF assms] unfolding write_items_def by auto
  have "(vs, h) \<in> set ?hs" using x(1) by (rule set_zip_rightD)
  then have "vs = json_with \<or> vs = only_with" by auto
  then show ?thesis using x(2) set_zip_leftD [OF x(1)] by (auto simp: guarded_by_def standard_item_def)
qed

text \<open>A handler behind a permission runs only for a request that carries it.\<close>

lemma guarded_handler:
  assumes g: "guarded_by q perm item" and h: "generalHandler marshal item r s = Done (resp, s')"
  shows "(s' = s \<and> rs_status resp \<in> {401, 415}) \<or>
    ((\<exists>tok data. bearer_token r = Some tok \<and> ss_VerifyJwt q tok s = Done (Inr data) \<and> carries data perm) \<and>
     (\<exists>rd. it_HandleHttp item r s = Done (rd, s') \<and> resp = fst (Render marshal rd)))"
proof -
  have refused: "rd \<in> {StatusRender 401, StatusRender 415}" if "rv \<in> set (it_RequestValidators item)" "rv r s = Done (Some rd)" for rv rd
  proof -
    have "rv = AllowContentTypeFor [''application/json''] \<or> rv = ValidateJwtToken (ss_VerifyJwt q) (prl_Add [perm] [])"
      using g that(1) by (auto simp: guarded_by_def json_with_def only_with_def)
    then show "rd \<in> {StatusRender 401, StatusRender 415}"
      using that(2) AllowContentTypeFor_cases [of "[''application/json'']" r s] ValidateJwtToken_refuse by fastforce
  qed
  have mem: "ValidateJwtToken (ss_VerifyJwt q) (prl_Add [perm] []) \<in> set (it_RequestValidators item)"
    using g by (auto simp: guarded_by_def json_with_def only_with_def)
  from generalHandler_cases [OF h] show ?thesis
  proof (elim disjE exE conjE)
    fix rd assume rd: "run_validators (it_RequestValidators item) r s = Done (Some rd)" "resp = fst (Render marshal rd)" "s' = s"
    from run_validators_Some [OF rd(1)] have "rd \<in> {StatusRender 401, StatusRender 415}" using refused by blast
    then show ?thesis using rd by auto
  next
    fix rd assume rd: "run_validators (it_RequestValidators item) r s = Done None" "it_HandleHttp item r s = Done (rd, s')"
      "resp = fst (Render marshal rd)"
    then have "ValidateJwtToken (ss_VerifyJwt q) (prl_Add [perm] []) r s = Done None" using mem by (simp add: run_validators_None)
    then show ?thesis using rd(2,3) unfolding ValidateJwtToken_pass by blast
  qed
qed

lemma write_item:
  assumes "initWriteApis q = Inr stub" "item_at m u stub = Some item"
  shows "map_of (write_items q) (m, u) = Some item"
  using initWriteApis_items [of q] assms by auto


end
