(* ===== verification/CertTable.thy ===== *)
theory CertTable
  imports CertChain
begin

text \<open>
  The invariant of the certificate table, that every save keeps it, and the interpretation of the
  interface \<open>CertStorage\<close> by the PostgreSQL storage.
\<close>

section \<open>The invariant\<close>

text \<open>The statuses of a name's versions: all archived but the last.\<close>

definition statuses :: "nat \<Rightarrow> int list" where
  "statuses k = (if k = 0 then [] else replicate (k - 1) 1 @ [0])"

text \<open>Every row has no issuer, or one that is known or stands before it.\<close>

fun parents_before :: "CertSerialNumber set \<Rightarrow> cert_row list \<Rightarrow> bool" where
  "parents_before K [] = True"
| "parents_before K (r # rs) = ((ce_parent r = [] \<or> ce_parent r \<in> K) \<and> parents_before (insert (ce_id r) K) rs)"

definition cert_readable :: "'pk keylib \<Rightarrow> ('pk, 'pub) x509lib \<Rightarrow> cert_row \<Rightarrow> bool" where
  "cert_readable lib xl r \<longleftrightarrow> (\<exists>c. ParseCertificate lib xl (ce_content r) = Inr c \<and> sn_of c = ce_id r)"

text \<open>
  Ids are unique; the versions of a name are 1, 2, ... in the order they were saved, all but the last
  archived; the issuer of a row was saved before it; every row holds the certificate of its id.
\<close>

definition cert_rows_ok :: "'pk keylib \<Rightarrow> ('pk, 'pub) x509lib \<Rightarrow> cert_row list \<Rightarrow> bool" where
  "cert_rows_ok lib xl rows \<longleftrightarrow>
     distinct (map ce_id rows) \<and>
     (\<forall>t n. map ce_version (certs_named t n rows) = map int [1..<Suc (length (certs_named t n rows))] \<and>
            map ce_status (certs_named t n rows) = statuses (length (certs_named t n rows))) \<and>
     parents_before {} rows \<and> (\<forall>r \<in> set rows. cert_readable lib xl r)"

lemma cert_rows_ok_Nil [simp]: "cert_rows_ok lib xl []"
  by (simp add: cert_rows_ok_def certs_named_def statuses_def)

lemma top_by_versions:
  assumes "map ce_version xs = map int [1..<Suc (length xs)]"
  shows "top_by ce_version xs = (if xs = [] then None else Some (last xs))"
proof (cases xs rule: rev_cases)
  case (snoc ys y)
  have "map ce_version ys = map int [1..<Suc (length ys)] \<and> ce_version y = int (Suc (length ys))"
    using assms unfolding snoc by simp
  moreover then have "ce_version x < ce_version y" if "x \<in> set ys" for x
  proof -
    from that have "ce_version x \<in> set (map ce_version ys)" by simp
    then show ?thesis using \<open>map ce_version ys = _ \<and> _\<close> by auto
  qed
  ultimately have "top_by ce_version xs = Some y" unfolding snoc by (intro top_by_unique) auto
  then show ?thesis by (simp add: snoc)
qed simp

lemma latest_named:
  assumes "cert_rows_ok lib xl rows"
  shows "top_by ce_version (certs_named t n rows) = (if certs_named t n rows = [] then None else Some (last (certs_named t n rows)))"
  using assms by (intro top_by_versions) (simp add: cert_rows_ok_def)

lemma max_cert_version_length:
  assumes "cert_rows_ok lib xl rows"
  shows "max_cert_version t n rows = int (length (certs_named t n rows))"
proof (cases "certs_named t n rows" rule: rev_cases)
  case Nil
  then show ?thesis by (simp add: max_cert_version_def)
next
  case (snoc ys y)
  have "map ce_version (ys @ [y]) = map int [1..<Suc (length (ys @ [y]))]"
    using assms unfolding cert_rows_ok_def snoc [symmetric] by blast
  then show ?thesis using latest_named [OF assms, of t n] by (simp add: max_cert_version_def snoc)
qed

section \<open>Saving\<close>

lemma archive_simps [simp]:
  "map ce_id (archive now t n rows) = map ce_id rows"
  "map ce_parent (archive now t n rows) = map ce_parent rows"
  "map ce_version (certs_named t' n' (archive now t n rows)) = map ce_version (certs_named t' n' rows)"
  "length (certs_named t' n' (archive now t n rows)) = length (certs_named t' n' rows)"
  by (induction rows) (simp_all add: archive_def certs_named_def)

lemma archive_status:
  "map ce_status (certs_named t' n' (archive now t n rows)) =
    (if t' = t \<and> n' = n then replicate (length (certs_named t n rows)) 1 else map ce_status (certs_named t' n' rows))"
proof (cases "t' = t \<and> n' = n")
  case True
  have "map ce_status (certs_named t n (archive now t n rows)) = replicate (length (certs_named t n rows)) 1"
    by (induction rows) (simp_all add: archive_def certs_named_def)
  with True show ?thesis by simp
next
  case False
  then have "certs_named t' n' (archive now t n rows) = certs_named t' n' rows"
    by (induction rows) (auto simp: archive_def certs_named_def)
  then show ?thesis unfolding if_not_P [OF False] by simp
qed

lemma archive_row: "r \<in> set (archive now t n rows) \<Longrightarrow> \<exists>x \<in> set rows. ce_id r = ce_id x \<and> ce_parent r = ce_parent x \<and>
    ce_content r = ce_content x \<and> ce_type r = ce_type x \<and> key_info r = key_info x \<and> ce_version r = ce_version x \<and> ce_name r = ce_name x"
  by (auto simp: archive_def key_info_def)

lemma parents_before_snoc:
  "parents_before K (rows @ [r]) \<longleftrightarrow> parents_before K rows \<and> (ce_parent r = [] \<or> ce_parent r \<in> K \<union> ce_id ` set rows)"
  by (induction rows arbitrary: K) auto

lemma parents_before_archive [simp]: "parents_before K (archive now t n rows) = parents_before K rows"
  by (induction rows arbitrary: K) (simp_all add: archive_def)

text \<open>What a save that succeeds does to the table.\<close>

lemma saveInternal_Inr:
  assumes "saveInternal lib en t n ca c ki db = (Inr sn, db')"
  shows "sn = sn_of c \<and> (\<exists>d v. EncodeCertificate lib c = Inr d \<and> (v = 1 \<or> v = max_cert_version t n (cd_rows db) + 1) \<and>
      sn \<notin> ce_id ` set (cd_rows db) \<and> \<not> (\<exists>x \<in> set (certs_named t n (cd_rows db)). ce_version x = v) \<and>
      db' = db\<lparr>cd_rows := archive (cv_now en 0) t n (cd_rows db) @
        [cert_new en t n v (if t = CertLevelTypeRootCA then [] else ca) c d ki]\<rparr>)"
proof -
  let ?ca = "if t = CertLevelTypeRootCA then [] else ca"
  obtain d where d: "EncodeCertificate lib c = Inr d" by (simp add: EncodeCertificate_def)
  obtain rows where tx: "cert_save_tx en t n ?ca c d ki (cd_rows db) = Inr rows"
    and r: "sn = sn_of c" "db' = db\<lparr>cd_rows := rows\<rparr>"
    using assms d unfolding saveInternal_def Let_def sn_of_def by (auto split: option.splits sum.splits)
  let ?v = "(case cv_query en of Some e \<Rightarrow> 0 | None \<Rightarrow> max_cert_version t n (cd_rows db)) + 1"
  have "insert_cert (cert_new en t n ?v ?ca c d ki) (archive (cv_now en 0) t n (cd_rows db)) = Inr rows"
    using tx unfolding cert_save_tx_def Let_def by (auto simp: ok_unless_def)
  then have i: "\<not> (\<exists>x \<in> set (archive (cv_now en 0) t n (cd_rows db)). ce_id x = sn_of c)"
    "\<not> (\<exists>x \<in> set (archive (cv_now en 0) t n (cd_rows db)). ce_type x = t \<and> ce_name x = n \<and> ce_version x = ?v)"
    "rows = archive (cv_now en 0) t n (cd_rows db) @ [cert_new en t n ?v ?ca c d ki]"
    unfolding insert_cert_def by (auto simp: cert_new_def sn_of_def split: if_splits)
  have "sn_of c \<notin> set (map ce_id (archive (cv_now en 0) t n (cd_rows db)))" using i(1) unfolding set_map by force
  then have "sn_of c \<notin> ce_id ` set (cd_rows db)" unfolding archive_simps by simp
  moreover have "?v \<notin> set (map ce_version (certs_named t n (archive (cv_now en 0) t n (cd_rows db))))"
    using i(2) by (auto simp: certs_named_def)
  then have "\<not> (\<exists>x \<in> set (certs_named t n (cd_rows db)). ce_version x = ?v)" unfolding archive_simps set_map image_iff by metis
  moreover have "?v = 1 \<or> ?v = max_cert_version t n (cd_rows db) + 1" by (cases "cv_query en") simp_all
  ultimately show ?thesis using r d i(3) by metis
qed

lemma saveInternal_Inl: "saveInternal lib en t n ca c ki db = (Inl e, db') \<Longrightarrow> db' = db"
  unfolding saveInternal_def Let_def by (auto split: option.splits sum.splits)

text \<open>A saved row is appended with the next version, and the versions before it are archived.\<close>

definition appended :: "cert_env \<Rightarrow> CertLevelType \<Rightarrow> string \<Rightarrow> CertSerialNumber \<Rightarrow> Certificate \<Rightarrow> bytes \<Rightarrow> CertKeyInfo \<Rightarrow> cert_row list \<Rightarrow> cert_row list" where
  "appended en t n ca c d ki rows =
     archive (cv_now en 0) t n rows @ [cert_new en t n (int (length (certs_named t n rows)) + 1) ca c d ki]"

lemma saveInternal_appended:
  assumes ok: "cert_rows_ok lib xl (cd_rows db)" and s: "saveInternal lib en t n ca c ki db = (Inr sn, db')"
  shows "sn = sn_of c" "sn \<notin> ce_id ` set (cd_rows db)"
    "\<exists>d. EncodeCertificate lib c = Inr d \<and>
      db' = db\<lparr>cd_rows := appended en t n (if t = CertLevelTypeRootCA then [] else ca) c d ki (cd_rows db)\<rparr>"
proof -
  from saveInternal_Inr [OF s] obtain d v where h: "sn = sn_of c" "EncodeCertificate lib c = Inr d"
    "v = 1 \<or> v = max_cert_version t n (cd_rows db) + 1" "sn \<notin> ce_id ` set (cd_rows db)"
    "\<not> (\<exists>x \<in> set (certs_named t n (cd_rows db)). ce_version x = v)"
    "db' = db\<lparr>cd_rows := archive (cv_now en 0) t n (cd_rows db) @ [cert_new en t n v (if t = CertLevelTypeRootCA then [] else ca) c d ki]\<rparr>"
    by blast
  have vs: "map ce_version (certs_named t n (cd_rows db)) = map int [1..<Suc (length (certs_named t n (cd_rows db)))]"
    using ok by (simp add: cert_rows_ok_def)
  have "v = int (length (certs_named t n (cd_rows db))) + 1"
  proof (cases "certs_named t n (cd_rows db) = []")
    case True
    then show ?thesis using h(3) max_cert_version_length [OF ok, of t n] by auto
  next
    case False
    then have "0 < length (certs_named t n (cd_rows db))" by simp
    then have "int 1 \<in> set (map int [1..<Suc (length (certs_named t n (cd_rows db)))])" 
      unfolding set_map by (intro imageI) (simp del: upt_Suc length_greater_0_conv)
    then have "int 1 \<in> ce_version ` set (certs_named t n (cd_rows db))" unfolding vs [symmetric] set_map .
    then have "v \<noteq> 1" using h(5) by force
    then show ?thesis using h(3) max_cert_version_length [OF ok, of t n] by simp
  qed
  then show "sn = sn_of c" "sn \<notin> ce_id ` set (cd_rows db)"
    "\<exists>d. EncodeCertificate lib c = Inr d \<and>
      db' = db\<lparr>cd_rows := appended en t n (if t = CertLevelTypeRootCA then [] else ca) c d ki (cd_rows db)\<rparr>"
    using h by (auto simp: appended_def)
qed

lemma certs_named_appended:
  "certs_named t' n' (appended en t n ca c d ki rows) = certs_named t' n' (archive (cv_now en 0) t n rows) @
    (if t' = t \<and> n' = n then [cert_new en t n (int (length (certs_named t n rows)) + 1) ca c d ki] else [])"
  by (simp add: appended_def certs_named_def cert_new_def)

lemma cert_rows_ok_appended:
  assumes ok: "cert_rows_ok lib xl rows" and k: "keylib_ok lib" "parsed xl c" "EncodeCertificate lib c = Inr d"
    and new: "sn_of c \<notin> ce_id ` set rows" and ca: "ca = [] \<or> ca \<in> ce_id ` set rows"
  shows "cert_rows_ok lib xl (appended en t n ca c d ki rows)"
  unfolding cert_rows_ok_def
proof (intro conjI allI)
  let ?arch = "archive (cv_now en 0) t n rows"
  have ids: "ce_id ` set ?arch = ce_id ` set rows" by (metis archive_simps(1) set_map)
  have "ce_id (cert_new en t n v ca c d ki) = sn_of c" for v by (simp add: cert_new_def sn_of_def)
  then have "map ce_id (appended en t n ca c d ki rows) = map ce_id rows @ [sn_of c]" by (simp add: appended_def)
  then show "distinct (map ce_id (appended en t n ca c d ki rows))" using ok new by (simp add: cert_rows_ok_def)
  fix t' n'
  note v = ok [unfolded cert_rows_ok_def, THEN conjunct2, THEN conjunct1, rule_format, of t' n']
  show "map ce_version (certs_named t' n' (appended en t n ca c d ki rows)) =
      map int [1..<Suc (length (certs_named t' n' (appended en t n ca c d ki rows)))]"
    using v unfolding certs_named_appended by (simp add: cert_new_def)
  show "map ce_status (certs_named t' n' (appended en t n ca c d ki rows)) =
      statuses (length (certs_named t' n' (appended en t n ca c d ki rows)))"
    using v unfolding certs_named_appended map_append archive_status by (simp add: cert_new_def statuses_def)
next
  let ?arch = "archive (cv_now en 0) t n rows"
  have ids: "ce_id ` set ?arch = ce_id ` set rows" by (metis archive_simps(1) set_map)
  have "parents_before {} rows" using ok by (simp add: cert_rows_ok_def)
  then show "parents_before {} (appended en t n ca c d ki rows)"
    unfolding appended_def parents_before_snoc parents_before_archive ids using ca by (simp add: cert_new_def)
  show "\<forall>r \<in> set (appended en t n ca c d ki rows). cert_readable lib xl r"
  proof
    fix r assume "r \<in> set (appended en t n ca c d ki rows)"
    then consider "r \<in> set ?arch" | "ce_content r = d" "ce_id r = sn_of c" by (auto simp: appended_def cert_new_def sn_of_def)
    then show "cert_readable lib xl r"
    proof cases
      case 1
      then obtain x where "x \<in> set rows" "ce_id r = ce_id x" "ce_content r = ce_content x" using archive_row by blast
      then show ?thesis using ok by (simp add: cert_rows_ok_def cert_readable_def)
    next
      case 2
      then show ?thesis using ParseCertificate_Encode [OF k] by (simp add: cert_readable_def)
    qed
  qed
qed

section \<open>Queries\<close>

lemma cert_by_id_Some:
  assumes "distinct (map ce_id rows)"
  shows "cert_by_id sn rows = Some r \<longleftrightarrow> r \<in> set rows \<and> ce_id r = sn"
proof
  show "r \<in> set rows \<and> ce_id r = sn" if "cert_by_id sn rows = Some r"
    using top_by_Some [OF that [unfolded cert_by_id_def]] by simp
  show "cert_by_id sn rows = Some r" if "r \<in> set rows \<and> ce_id r = sn"
    unfolding cert_by_id_def
  proof (rule top_by_unique)
    show "\<forall>y \<in> set (filter (\<lambda>r. ce_id r = sn) rows). y \<noteq> r \<longrightarrow> ce_version y < ce_version r"
      using that assms by (auto simp: distinct_map inj_on_def)
  qed (use that in simp)
qed

lemma cert_by_id_None: "cert_by_id sn rows = None \<longleftrightarrow> sn \<notin> ce_id ` set rows"
  by (auto simp: cert_by_id_def filter_empty_conv)

lemma parents_before_append:
  "parents_before K (xs @ ys) \<longleftrightarrow> parents_before K xs \<and> parents_before (K \<union> ce_id ` set xs) ys"
  by (induction xs arbitrary: K) auto

lemma parent_known_id:
  assumes "parents_before {} rows" "r \<in> set rows"
  shows "ce_parent r = [] \<or> ce_parent r \<in> ce_id ` set rows"
  using assms split_list [OF assms(2)] by (auto simp: parents_before_append)

definition cert_depth :: "cert_row list \<Rightarrow> CertSerialNumber \<Rightarrow> nat" where
  "cert_depth rows sn = length (takeWhile (\<lambda>r. ce_id r \<noteq> sn) rows)"

lemma cert_depth_parent:
  assumes "parents_before {} rows" "distinct (map ce_id rows)" "r \<in> set rows" "ce_parent r \<noteq> []"
  shows "cert_depth rows (ce_parent r) < cert_depth rows (ce_id r)"
proof -
  obtain ys zs where rows: "rows = ys @ r # zs" using split_list [OF assms(3)] by blast
  then obtain x where x: "x \<in> set ys" "ce_id x = ce_parent r" using assms(1,4) by (auto simp: parents_before_append)
  have id: "takeWhile (\<lambda>x. ce_id x \<noteq> ce_id r) rows = ys"
  proof -
    have "ce_id r \<notin> ce_id ` set ys" using assms(2) unfolding rows by simp
    then have "\<And>x. x \<in> set ys \<Longrightarrow> ce_id x \<noteq> ce_id r" by (metis imageI)
    then have "takeWhile (\<lambda>x. ce_id x \<noteq> ce_id r) rows = ys @ takeWhile (\<lambda>x. ce_id x \<noteq> ce_id r) (r # zs)"
      unfolding rows by (rule takeWhile_append2)
    then show ?thesis by simp
  qed
  have "takeWhile (\<lambda>x. ce_id x \<noteq> ce_parent r) rows = takeWhile (\<lambda>x. ce_id x \<noteq> ce_parent r) ys"
    using takeWhile_append1 [of x ys "\<lambda>x. ce_id x \<noteq> ce_parent r" "r # zs"] x unfolding rows by simp
  moreover have "length (takeWhile (\<lambda>x. ce_id x \<noteq> ce_parent r) ys) < length ys"
  proof -
    have "takeWhile (\<lambda>x. ce_id x \<noteq> ce_parent r) ys \<noteq> ys" using x by (auto simp: takeWhile_eq_all_conv)
    then show ?thesis
      by (metis length_takeWhile_le le_neq_implies_less takeWhile_dropWhile_id append_eq_conv_conj take_all_iff)
  qed
  ultimately show ?thesis by (simp add: cert_depth_def id)
qed

lemma cert_rows_okD:
  assumes "cert_rows_ok lib xl rows"
  shows "distinct (map ce_id rows)" "parents_before {} rows" "r \<in> set rows \<Longrightarrow> cert_readable lib xl r"
  using assms by (simp_all add: cert_rows_ok_def)

lemma LoadCertById_Inr:
  assumes "cert_rows_ok lib xl (cd_rows db)" "LoadCertById lib xl qe sn db = Inr (c, t, k)"
  shows "sn_of c = sn \<and> sn \<in> ce_id ` set (cd_rows db)"
proof -
  obtain r where r: "cert_by_id sn (cd_rows db) = Some r" "ParseCertificate lib xl (ce_content r) = Inr c"
    using assms(2) unfolding LoadCertById_def by (auto split: option.splits)
  then have "r \<in> set (cd_rows db) \<and> ce_id r = sn" using cert_by_id_Some [OF cert_rows_okD(1) [OF assms(1)]] by simp
  then show ?thesis using cert_rows_okD(3) [OF assms(1), of r] r(2) by (force simp: cert_readable_def)
qed

lemma LoadCertById_known:
  assumes "cert_rows_ok lib xl (cd_rows db)" "r \<in> set (cd_rows db)"
  shows "\<exists>c. ParseCertificate lib xl (ce_content r) = Inr c \<and> sn_of c = ce_id r \<and>
    LoadCertById lib xl None (ce_id r) db = Inr (c, ce_type r, key_info r)"
proof -
  have "cert_by_id (ce_id r) (cd_rows db) = Some r" using cert_by_id_Some [OF cert_rows_okD(1) [OF assms(1)]] assms(2) by simp
  then show ?thesis using cert_rows_okD(3) [OF assms] by (auto simp: cert_readable_def LoadCertById_def)
qed

lemma LoadParent_known:
  assumes "cert_rows_ok lib xl (cd_rows db)" "r \<in> set (cd_rows db)"
  shows "LoadParentCertByCertId lib xl (\<lambda>_. None) (ce_id r) db =
    (if ce_parent r = [] then Inr None else res_bind (LoadCertById lib xl None (ce_parent r) db) (\<lambda>x. Inr (Some x)))"
proof -
  have "cert_by_id (ce_id r) (cd_rows db) = Some r" using cert_by_id_Some [OF cert_rows_okD(1) [OF assms(1)]] assms(2) by simp
  then show ?thesis by (simp add: LoadParentCertByCertId_def)
qed

text \<open>An appended row leaves what is read of the others by id as it was.\<close>

lemma appended_old:
  assumes "r \<in> set rows"
  shows "\<exists>r' \<in> set (appended en t n ca c d ki rows). ce_id r' = ce_id r \<and> ce_parent r' = ce_parent r \<and>
    ce_content r' = ce_content r \<and> ce_type r' = ce_type r \<and> key_info r' = key_info r"
proof (intro bexI)
  let ?r = "if ce_type r = t \<and> ce_name r = n then r\<lparr>ce_status := 1, ce_updated := cv_now en 0\<rparr> else r"
  show "?r \<in> set (appended en t n ca c d ki rows)" using assms unfolding appended_def archive_def set_append set_map by blast
  show "ce_id ?r = ce_id r \<and> ce_parent ?r = ce_parent r \<and> ce_content ?r = ce_content r \<and> ce_type ?r = ce_type r \<and> key_info ?r = key_info r"
    by (simp add: key_info_def)
qed

lemma ids_appended: "ce_id ` set (appended en t n ca c d ki rows) = insert (sn_of c) (ce_id ` set rows)"
proof -
  have "set (map ce_id (appended en t n ca c d ki rows)) = insert (sn_of c) (set (map ce_id rows))"
    by (simp only: appended_def map_append archive_simps) (simp add: cert_new_def sn_of_def)
  then show ?thesis by simp
qed

lemma appended_by_id:
  assumes ok: "cert_rows_ok lib xl (cd_rows db)" "cert_rows_ok lib xl (appended en t n ca c d ki (cd_rows db))"
    and sn: "sn \<in> ce_id ` set (cd_rows db)"
  shows "LoadCertById lib xl None sn (db\<lparr>cd_rows := appended en t n ca c d ki (cd_rows db)\<rparr>) = LoadCertById lib xl None sn db"
    and "LoadParentCertByCertId lib xl (\<lambda>_. None) sn (db\<lparr>cd_rows := appended en t n ca c d ki (cd_rows db)\<rparr>) =
      LoadParentCertByCertId lib xl (\<lambda>_. None) sn db"
proof -
  let ?db = "db\<lparr>cd_rows := appended en t n ca c d ki (cd_rows db)\<rparr>"
  have ok2: "cert_rows_ok lib xl (cd_rows ?db)" using ok(2) by simp
  have same: "LoadCertById lib xl None i ?db = LoadCertById lib xl None i db" if "i \<in> ce_id ` set (cd_rows db)" for i
  proof -
    from that obtain r where r: "r \<in> set (cd_rows db)" "ce_id r = i" by blast
    obtain r' where r': "r' \<in> set (cd_rows ?db)" "ce_id r' = i" "ce_content r' = ce_content r" "ce_type r' = ce_type r"
      "key_info r' = key_info r"
      using appended_old [OF r(1), of en t n ca c d ki] r(2) by auto
    show ?thesis using LoadCertById_known [OF ok(1) r(1)] LoadCertById_known [OF ok2 r'(1)] r r' by auto
  qed
  show "LoadCertById lib xl None sn ?db = LoadCertById lib xl None sn db" by (rule same [OF sn])
  from sn obtain r where r: "r \<in> set (cd_rows db)" "ce_id r = sn" by blast
  obtain r' where r': "r' \<in> set (cd_rows ?db)" "ce_id r' = sn" "ce_parent r' = ce_parent r"
    using appended_old [OF r(1), of en t n ca c d ki] r(2) by auto
  show "LoadParentCertByCertId lib xl (\<lambda>_. None) sn ?db = LoadParentCertByCertId lib xl (\<lambda>_. None) sn db"
    using LoadParent_known [OF ok(1) r(1)] LoadParent_known [OF ok2 r'(1)] r(2) r'(2,3)
      parent_known_id [OF cert_rows_okD(2) [OF ok(1)] r(1)] same by auto
qed

section \<open>The interface\<close>

text \<open>The libraries are part of the state of the interpretation, and their laws part of the invariant.\<close>

type_synonym ('pk, 'pub) cert_state = "'pk keylib \<times> ('pk, 'pub) x509lib \<times> cert_db"

fun pgc_save ::
  "cert_env \<Rightarrow> CertLevelType \<Rightarrow> string \<Rightarrow> CertSerialNumber \<Rightarrow> Certificate \<Rightarrow> CertKeyInfo \<Rightarrow> ('pk, 'pub) cert_state \<Rightarrow>
   CertSerialNumber res \<times> ('pk, 'pub) cert_state" where
  "pgc_save en t n ca c ki (lib, xl, db) = (let (r, db') = saveInternal lib en t n ca c ki db in (r, (lib, xl, db')))"

fun pgc_load :: "go_error option \<Rightarrow> string \<Rightarrow> CertLevelType \<Rightarrow> ('pk, 'pub) cert_state \<Rightarrow> (Certificate \<times> CertKeyInfo) res" where
  "pgc_load qe n t (lib, xl, db) = LoadCertByName lib xl qe n t db"

fun pgc_by_id :: "go_error option \<Rightarrow> CertSerialNumber \<Rightarrow> ('pk, 'pub) cert_state \<Rightarrow> (Certificate \<times> CertLevelType \<times> CertKeyInfo) res" where
  "pgc_by_id qe sn (lib, xl, db) = LoadCertById lib xl qe sn db"

fun pgc_parent ::
  "(nat \<Rightarrow> go_error option) \<Rightarrow> CertSerialNumber \<Rightarrow> ('pk, 'pub) cert_state \<Rightarrow> (Certificate \<times> CertLevelType \<times> CertKeyInfo) option res" where
  "pgc_parent qe sn (lib, xl, db) = LoadParentCertByCertId lib xl qe sn db"

fun pgc_inv :: "('pk, 'pub) cert_state \<Rightarrow> bool" where
  "pgc_inv (lib, xl, db) \<longleftrightarrow> keylib_ok lib \<and> cert_rows_ok lib xl (cd_rows db)"

fun pgc_readable :: "('pk, 'pub) cert_state \<Rightarrow> Certificate \<Rightarrow> bool" where
  "pgc_readable (lib, xl, db) c \<longleftrightarrow> parsed xl c"

fun pgc_known :: "('pk, 'pub) cert_state \<Rightarrow> CertSerialNumber set" where
  "pgc_known (lib, xl, db) = ce_id ` set (cd_rows db)"

fun pgc_depth :: "('pk, 'pub) cert_state \<Rightarrow> CertSerialNumber \<Rightarrow> nat" where
  "pgc_depth (lib, xl, db) = cert_depth (cd_rows db)"

lemma LoadParent_Some:
  assumes "cert_rows_ok lib xl (cd_rows db)" "LoadParentCertByCertId lib xl q sn db = Inr (Some (c, t, k))"
  shows "\<exists>r \<in> set (cd_rows db). ce_id r = sn \<and> ce_parent r \<noteq> [] \<and> sn_of c = ce_parent r"
proof -
  obtain r where r: "cert_by_id sn (cd_rows db) = Some r" "ce_parent r \<noteq> []" "LoadCertById lib xl (q 1) (ce_parent r) db = Inr (c, t, k)"
    using assms(2) unfolding LoadParentCertByCertId_def by (auto split: option.splits if_splits)
  then show ?thesis
    using cert_by_id_Some [OF cert_rows_okD(1) [OF assms(1)]] LoadCertById_Inr [OF assms(1) r(3)] by blast
qed

lemma saved_ok:
  assumes "keylib_ok lib" "cert_rows_ok lib xl (cd_rows db)" "parsed xl c" "ca = [] \<or> ca \<in> ce_id ` set (cd_rows db)"
    and "saveInternal lib en t n ca c ki db = (Inr sn, db')"
  shows "\<exists>d. EncodeCertificate lib c = Inr d \<and> sn = sn_of c \<and>
    db' = db\<lparr>cd_rows := appended en t n (if t = CertLevelTypeRootCA then [] else ca) c d ki (cd_rows db)\<rparr> \<and>
    cert_rows_ok lib xl (appended en t n (if t = CertLevelTypeRootCA then [] else ca) c d ki (cd_rows db))"
proof -
  note s = saveInternal_appended [OF assms(2,5)]
  from s(3) obtain d where "EncodeCertificate lib c = Inr d"
    "db' = db\<lparr>cd_rows := appended en t n (if t = CertLevelTypeRootCA then [] else ca) c d ki (cd_rows db)\<rparr>" by blast
  then show ?thesis using cert_rows_ok_appended [OF assms(2,1,3)] s(1,2) assms(4) by auto
qed

interpretation pgc: cert_storage pgc_save pgc_load pgc_by_id pgc_parent pgc_inv pgc_readable pgc_known pgc_depth
proof unfold_locales
  fix s s' :: "('pk, 'pub) cert_state" and q qe sn c t k n ki ca en r err cc ct ck
  obtain lib xl db where s: "s = (lib, xl, db)" by (cases s)
  show "pgc_depth s (sn_of c) < pgc_depth s sn" if "pgc_inv s" "pgc_parent q sn s = Inr (Some (c, t, k))"
    using that LoadParent_Some [of lib xl db q sn c t k] cert_depth_parent [OF cert_rows_okD(2,1)] unfolding s by fastforce
  show "pgc_parent (\<lambda>_. None) sn s = Inr None \<or> (\<exists>c t k. pgc_parent (\<lambda>_. None) sn s = Inr (Some (c, t, k)) \<and> sn_of c \<in> pgc_known s)"
    if i: "pgc_inv s" and k: "sn \<in> pgc_known s"
  proof -
    from k obtain r where r: "r \<in> set (cd_rows db)" "ce_id r = sn" unfolding s by auto
    have ok: "cert_rows_ok lib xl (cd_rows db)" using i unfolding s by simp
    show ?thesis
    proof (cases "ce_parent r = []")
      case True
      then show ?thesis using LoadParent_known [OF ok r(1)] r(2) unfolding s by simp
    next
      case False
      then obtain x where x: "x \<in> set (cd_rows db)" "ce_id x = ce_parent r"
        using parent_known_id [OF cert_rows_okD(2) [OF ok] r(1)] by force
      then show ?thesis using LoadParent_known [OF ok r(1)] LoadCertById_known [OF ok x(1)] r(2) False unfolding s by force
    qed
  qed
  show "sn_of c \<in> pgc_known s \<and> pgc_by_id None (sn_of c) s = Inr (c, t, ki)" if i: "pgc_inv s" and l: "pgc_load qe n t s = Inr (c, ki)"
  proof -
    have ok: "cert_rows_ok lib xl (cd_rows db)" using i unfolding s by simp
    obtain r where r: "top_by ce_version (certs_named t n (cd_rows db)) = Some r" "ParseCertificate lib xl (ce_content r) = Inr c" "ki = key_info r"
      using l unfolding s by (auto simp: LoadCertByName_def split: option.splits)
    then have m: "r \<in> set (cd_rows db)" "ce_type r = t" using top_by_Some [OF r(1)] by (auto simp: certs_named_def)
    then show ?thesis using LoadCertById_known [OF ok m(1)] r unfolding s by auto
  qed
  show "pgc_inv s'" if h: "pgc_inv s" "pgc_readable s c" "ca = [] \<or> ca \<in> pgc_known s" "pgc_save en t n ca c ki s = (r, s')"
  proof (cases r)
    case (Inl e)
    then show ?thesis using h saveInternal_Inl [of lib en t n ca c ki db e] unfolding s by (auto split: prod.splits)
  next
    case (Inr sn)
    obtain db' where "s' = (lib, xl, db')" "saveInternal lib en t n ca c ki db = (Inr sn, db')"
      using h(4) Inr unfolding s by (auto split: prod.splits)
    then show ?thesis using saved_ok [of lib xl db c ca en t n ki sn db'] h(1-3) unfolding s by auto
  qed
  show "s' = s" if "pgc_save en t n ca c ki s = (Inl err, s')"
    using that saveInternal_Inl [of lib en t n ca c ki db err] unfolding s by (auto split: prod.splits)
  show "sn = sn_of c \<and> pgc_load None n t s' = Inr (c, ki)"
    if h: "pgc_inv s" "pgc_readable s c" "ca = [] \<or> ca \<in> pgc_known s" "pgc_save en t n ca c ki s = (Inr sn, s')"
  proof -
    obtain db' where s': "s' = (lib, xl, db')" "saveInternal lib en t n ca c ki db = (Inr sn, db')"
      using h(4) unfolding s by (auto split: prod.splits)
    let ?rows = "\<lambda>d. appended en t n (if t = CertLevelTypeRootCA then [] else ca) c d ki (cd_rows db)"
    obtain d where d: "EncodeCertificate lib c = Inr d" "sn = sn_of c" "db' = db\<lparr>cd_rows := ?rows d\<rparr>" "cert_rows_ok lib xl (?rows d)"
      using saved_ok [OF _ _ _ _ s'(2), of xl] h(1-3) unfolding s by auto
    have "ParseCertificate lib xl d = Inr c" using ParseCertificate_Encode [OF _ _ d(1), of xl] h(1,2) unfolding s by simp
    then show ?thesis using latest_named [OF d(4), of t n] d(2,3) unfolding s'(1) certs_named_appended
      by (simp add: LoadCertByName_def certs_named_appended cert_new_def key_info_def)
  qed
  show "pgc_parent (\<lambda>_. None) (sn_of c) s' = Inr (Some (cc, ct, ck))"
    if h: "pgc_inv s" "pgc_readable s c" "ca \<in> pgc_known s" "t \<noteq> CertLevelTypeRootCA" "ca \<noteq> []" "pgc_save en t n ca c ki s = (Inr sn, s')"
      "pgc_by_id None ca s = Inr (cc, ct, ck)"
  proof -
    obtain db' where s': "s' = (lib, xl, db')" "saveInternal lib en t n ca c ki db = (Inr sn, db')"
      using h(6) unfolding s by (auto split: prod.splits)
    have ok: "cert_rows_ok lib xl (cd_rows db)" and known: "ca \<in> ce_id ` set (cd_rows db)" using h(1,3) unfolding s by simp_all
    obtain d where d: "db' = db\<lparr>cd_rows := appended en t n ca c d ki (cd_rows db)\<rparr>" "cert_rows_ok lib xl (appended en t n ca c d ki (cd_rows db))"
      using saved_ok [OF _ ok _ _ s'(2)] h(1,2,4) known unfolding s by auto
    let ?r = "cert_new en t n (int (length (certs_named t n (cd_rows db))) + 1) ca c d ki"
    have r: "?r \<in> set (cd_rows db')" "ce_id ?r = sn_of c" "ce_parent ?r = ca" by (simp_all add: d(1) appended_def cert_new_def sn_of_def)
    have "LoadCertById lib xl None ca db' = Inr (cc, ct, ck)"
      using appended_by_id(1) [OF ok d(2) known] h(7) unfolding s d(1) by simp
    then show ?thesis using LoadParent_known [of lib xl db' ?r] r h(5) d unfolding s'(1) by simp
  qed
  show "sn \<in> pgc_known s' \<and> pgc_parent (\<lambda>_. None) sn s' = pgc_parent (\<lambda>_. None) sn s"
    if h: "pgc_inv s" "pgc_readable s c" "ca = [] \<or> ca \<in> pgc_known s" "pgc_save en t n ca c ki s = (r, s')" "sn \<in> pgc_known s"
  proof (cases r)
    case (Inl e)
    then show ?thesis using h saveInternal_Inl [of lib en t n ca c ki db e] unfolding s by (auto split: prod.splits)
  next
    case (Inr sn')
    obtain db' where s': "s' = (lib, xl, db')" "saveInternal lib en t n ca c ki db = (Inr sn', db')"
      using h(4) Inr unfolding s by (auto split: prod.splits)
    let ?rows = "\<lambda>d. appended en t n (if t = CertLevelTypeRootCA then [] else ca) c d ki (cd_rows db)"
    have ok: "cert_rows_ok lib xl (cd_rows db)" and known: "sn \<in> ce_id ` set (cd_rows db)" using h(1,5) unfolding s by simp_all
    obtain d where d: "db' = db\<lparr>cd_rows := ?rows d\<rparr>" "cert_rows_ok lib xl (?rows d)"
      using saved_ok [OF _ ok _ _ s'(2)] h(1-3) unfolding s by auto
    have "sn \<in> ce_id ` set (cd_rows db')" using known by (simp add: d(1) ids_appended)
    then show ?thesis using appended_by_id(2) [OF ok d(2) known] unfolding s s'(1) d(1) by simp
  qed
qed

end
