(* ===== verification/KeyProps.thy ===== *)
theory KeyProps
  imports KeyService
begin

text \<open>
  The properties of the key storage, over the states it reaches; and a concrete run of
  it, from an empty database through unsealing to a rotated data key.
\<close>

section \<open>Successful stores\<close>

text \<open>A call in which nothing fails.\<close>

definition quiet :: "'pk pg_env \<Rightarrow> bool" where
  "quiet en \<longleftrightarrow> (\<forall>i. pe_query en i = None) \<and> (\<forall>i. pe_begin en i = None) \<and> (\<forall>i. pe_commit en i = None) \<and>
     pe_insert en = None \<and> pe_insert_rows en = None \<and> pe_update en = None \<and> pe_update_rows en = None"

lemma quietD:
  assumes "quiet en"
  shows "pe_query en i = None" "pe_begin en i = None" "pe_commit en i = None"
    "pe_insert en = None" "pe_insert_rows en = None" "pe_update en = None" "pe_update_rows en = None"
  using assms by (simp_all add: quiet_def)

lemma store_l2_quiet:
  assumes "quiet en" "k_version r = max_version (k_name r) (db2 db) + 1"
  shows "store_l2 en r db = Inr ((), db\<lparr>db2 := rotate (pe_now en) r (db2 db), next2 := next2 db + 1\<rparr>)"
  using assms insert_row_next [OF assms(2)]
  by (simp add: store_l2_def insert_l2_def quietD rows_affected_def rotate_def)

lemma store_l1_quiet:
  assumes "quiet en" "k_version r = max_version (k_name r) (db1 db) + 1"
  shows "store_l1 en r db = Inr ((), db\<lparr>db1 := rotate (pe_now en) r (db1 db), next1 := next1 db + 1\<rparr>)"
  using assms insert_row_next [OF assms(2)]
  by (simp add: store_l1_def insert_l1_def quietD rows_affected_def rotate_def)

lemma in_tx_quiet: "quiet en \<Longrightarrow> in_tx en i db body = rr_bind (body db) (\<lambda>(x, db'). Done (Inr (x, db')))"
  by (simp add: in_tx_def quietD)

lemma recent_version_ok:
  assumes "\<And>r. latest_row n (db2 db) = Some r \<Longrightarrow> kt_FromString (k_type r) = Done kt"
  shows "recent_version None kt n db = Done (Inr (kt, max_version n (db2 db)))"
  using assms by (cases "latest_row n (db2 db)") (auto simp: recent_version_def max_version_def)

lemma known_nonzero: "kt_String kt = Done s \<Longrightarrow> kt \<noteq> 0"
  by (auto simp: kt_String_Done key_type_names_def key_types)

lemma StoreL2DataKey_quiet:
  assumes q: "quiet en" and l1: "active_row l1 (db1 (pg_db p)) = Some r1" "decrypt_l1 lib p (k_encrypted r1) = Done (Inr ks)"
    "dataEncryptByL1 lib (pe_rng en) key (word_of_int (k_id r1)) ks = Inr c" and kt: "kt_String kt = Done tn"
    and lt: "\<And>r. latest_row n (db2 (pg_db p)) = Some r \<Longrightarrow> kt_FromString (k_type r) = Done kt"
  shows "StoreL2DataKey lib en l1 n kt key p = Done (Inr (),
    p\<lparr>pg_db := (pg_db p)\<lparr>db2 := rotate (pe_now en) (l2_new en n (max_version n (db2 (pg_db p)) + 1) (k_id r1) tn c (pg_db p)) (db2 (pg_db p)),
      next2 := next2 (pg_db p) + 1\<rparr>\<rparr>)"
proof -
  have "checkRotateLevel2Key kt kt = Inr ()" using known_nonzero [OF kt] by (simp add: checkRotateLevel2Key_def)
  moreover have "loadLevel1KeySetInternal lib None p (pg_db p) l1 = Done (Inr (k_id r1, ks))"
    using l1(1,2) by (simp add: loadLevel1_Inr)
  ultimately show ?thesis
    using recent_version_ok [of n "pg_db p" kt, OF lt] l1(3) kt
      store_l2_quiet [OF q, of "l2_new en n (max_version n (db2 (pg_db p)) + 1) (k_id r1) tn c (pg_db p)" "pg_db p"]
    by (simp add: StoreL2DataKey_def in_tx_quiet [OF q] quietD [OF q] type_name_def with_db_def l2_new_def)
qed

lemma StoreLevel1KeySet_quiet:
  assumes q: "quiet en" and "n \<noteq> TokenName" "VerifyCrc key" "kl_json_marshal lib key = Inr d" "pg_provider p = Some up"
    "up_Encrypt up (pe_rng en) d = Inr (c, u)"
  shows "StoreLevel1KeySet lib en n key p = Done (Inr (),
    p\<lparr>pg_db := (pg_db p)\<lparr>db1 := rotate (pe_now en) (l1_new en n (max_version n (db1 (pg_db p)) + 1) u c (pg_db p)) (db1 (pg_db p)),
      next1 := next1 (pg_db p) + 1\<rparr>\<rparr>)"
  using assms store_l1_quiet [OF q, of "l1_new en n (max_version n (db1 (pg_db p)) + 1) u c (pg_db p)" "pg_db p"]
  by (simp add: StoreLevel1KeySet_def checkAvailableKeyName_def seal_l1_def in_tx_quiet [OF q] quietD [OF q] with_db_def l1_new_def)

section \<open>The file provider\<close>

lemma Wait_Encrypt:
  assumes "keylib_ok lib" "rng_ok rg" "lp_ok l" "lp_Encrypt lib l rg d = Inr (c, u)"
  shows "c \<noteq> [] \<and> WaitUnsealOperation lib l (string_of c) =
    Done (Inr \<lparr>ur_Selector = UseKeyId l, ur_Token = string_of d\<rparr>)"
proof -
  have "c \<noteq> []" using assms(4) by (auto simp: lp_Encrypt_def formatEncryptedData_def envelope_format_def bytes_of_def)
  moreover have "lp_keySets l \<noteq> []" using assms(3) by (auto simp: lp_ok_def)
  moreover have "string_of c \<noteq> []" using \<open>c \<noteq> []\<close> by (simp add: string_of_def)
  ultimately show ?thesis
    using lp_Decrypt_Encrypt [OF assms] by (simp add: WaitUnsealOperation_def UseKeyId_def)
qed

lemma stored_token_insert:
  assumes ok: "secret_ok db" and i: "insert_l1 en (l1_new en TokenName 1 u c db) db = Inr db'"
  shows "stored_token db' = string_of c"
proof -
  have new: "\<not> (\<exists>x \<in> set (db1 db). k_name x = TokenName \<and> k_version x = 1)" and db': "db1 db' = db1 db @ [l1_new en TokenName 1 u c db]"
    using i by (auto simp: insert_l1_def insert_row_Inr l1_new_def split: option.splits)
  have none: "\<forall>x \<in> set (db1 db). k_name x \<noteq> TokenName"
    using rows_okD(2,4) [OF secret_okD(1) [OF ok]] new by (metis order_refl)
  have "find (\<lambda>r. k_name r = TokenName) (rs @ [r]) = Some r" if "\<forall>x \<in> set rs. k_name x \<noteq> TokenName" "k_name r = TokenName"
    for rs and r :: l1_row using that by (induction rs) auto
  from this [OF none] show ?thesis by (simp add: stored_token_def db' l1_new_def)
qed

text \<open>A stored key set of level 1 is the valid row of its name, and the provider decrypts it.\<close>

lemma level1_stored:
  assumes "keylib_ok lib" "rng_ok (pe_rng en)" "lp_ok l" "secret_ok (pg_db p)" "pg_provider p = Some (local_provider lib l)"
    and "StoreLevel1KeySet lib en n key p = Done (Inr (), p')"
  shows "\<exists>r1. active_row n (db1 (pg_db p')) = Some r1 \<and> k_id r1 = next1 (pg_db p) \<and> decrypt_l1 lib p' (k_encrypted r1) = Done (Inr key)"
proof -
  note ok = assms(4)
  from StoreLevel1KeySet_Inr [OF assms(6) secret_okD(1) [OF ok]] obtain d up c u where s: "kl_json_marshal lib key = Inr d"
    "pg_provider p = Some up" "up_Encrypt up (pe_rng en) d = Inr (c, u)" "VerifyCrc key"
    and p': "p' = p\<lparr>pg_db := (pg_db p)\<lparr>db1 := rotate (pe_now en) (l1_new en n (max_version n (db1 (pg_db p)) + 1) u c (pg_db p)) (db1 (pg_db p)),
      next1 := next1 (pg_db p) + 1\<rparr>\<rparr>"
    unfolding Let_def by blast
  let ?r = "l1_new en n (max_version n (db1 (pg_db p)) + 1) u c (pg_db p)"
  have "lp_Encrypt lib l (pe_rng en) d = Inr (c, u)" using s(2,3) assms(5) by (auto simp: local_provider_def)
  from lp_Decrypt_Encrypt [OF assms(1-3) this] keylib_okD(4) [OF assms(1) s(4,1)]
  have dec: "decrypt_l1 lib p' c = Done (Inr key)"
    using assms(5) by (simp add: decrypt_l1_def p' keySetDecrypt_def local_provider_def)
  have "secret_ok (pg_db p')" using exec_ok [OF ok, of lib en "StoreL1 n key"] assms(6) by simp
  then have "active_row n (db1 (pg_db p')) = latest_row n (db1 (pg_db p'))" by (rule active_latest [OF secret_okD(1)])
  also have "\<dots> = Some ?r" using rotate_latest [of ?r "db1 (pg_db p)" "pe_now en"] by (simp add: p' l1_new_def)
  finally show ?thesis using dec by (simp add: l1_new_def)
qed

section \<open>Properties\<close>

text \<open>C7. In every reachable state the rows of a name of level 2 are rotated properly: versions and ids are
  unique, a row is valid exactly when it is the name's latest, all have one key type, and each is
  encrypted by a key of level 1 that is still there.\<close>

theorem rotation_invariant:
  assumes "pg_reach lib p" "r \<in> set (db2 (pg_db p))"
  shows "(k_status r = 0 \<longleftrightarrow> (\<forall>x \<in> set (db2 (pg_db p)). k_name x = k_name r \<longrightarrow> k_version x \<le> k_version r)) \<and>
    (\<forall>x \<in> set (db2 (pg_db p)). k_id x = k_id r \<or> k_name x = k_name r \<and> k_version x = k_version r \<longrightarrow> x = r) \<and>
    (\<forall>x \<in> set (db2 (pg_db p)). k_name x = k_name r \<longrightarrow> k_type x = k_type r) \<and>
    (\<exists>r1 \<in> set (db1 (pg_db p)). k_id r1 = k_use_l1 r)"
proof -
  have ok: "secret_ok (pg_db p)" by (rule pg_reach_ok [OF assms(1)])
  note rows = secret_okD(2) [OF ok]
  obtain z where z: "latest_row (k_name r) (db2 (pg_db p)) = Some z"
    using assms(2) latest_row_None [of "k_name r" "db2 (pg_db p)"] by fastforce
  have zi: "z \<in> set (db2 (pg_db p))" "k_name z = k_name r" using latest_row_in [OF z] by auto
  have mv: "max_version (k_name r) (db2 (pg_db p)) = k_version z" using z by (simp add: max_version_def)
  have "k_status r = 0 \<longleftrightarrow> (\<forall>x \<in> set (db2 (pg_db p)). k_name x = k_name r \<longrightarrow> k_version x \<le> k_version r)"
    using rows_okD(3) [OF rows assms(2)] max_version_ge [of _ "db2 (pg_db p)" "k_name r"] zi mv assms(2)
    by (metis order_antisym zero_neq_one)
  moreover have "x = r" if "x \<in> set (db2 (pg_db p))" "k_id x = k_id r" for x
    using row_by_id_in [OF rows_ok_distinct [OF rows]] that assms(2) by (metis option.inject)
  moreover have "x = r" if "x \<in> set (db2 (pg_db p))" "k_name x = k_name r" "k_version x = k_version r" for x
    by (rule rows_ok_inj [OF rows that(1) assms(2) that(2,3)])
  ultimately show ?thesis using secret_okD(3,5) [OF ok assms(2)] by (metis imageE)
qed

lemma later_pg: "later (exec lib) P p p' \<Longrightarrow> later pg_run P (lib, p) (lib, p')"
proof (induction rule: later.induct)
  case (later_step p1 op en r p2)
  then show ?case using later.later_step [of pg_run P "(lib, p)" "(lib, p1)" op en r "(lib, p2)"] by simp
qed (rule later_refl)


text \<open>C23. A key cannot be rotated to another key type: such a store fails and changes nothing.\<close>

theorem rotation_keeps_type:
  assumes "FetchL2DataKey lib qe n p = Done (Inr (i, kt0, k0))" "pg_reach lib p" "kt \<noteq> kt0"
    and "StoreL2DataKey lib en l1 n kt k p = Done (r, p')"
  shows "p' = p \<and> (\<exists>e. r = Inl e)"
proof (cases r)
  case (Inl e)
  then show ?thesis using assms(4) StoreL2DataKey_Inl by blast
next
  case (Inr u)
  have ok: "secret_ok (pg_db p)" by (rule pg_reach_ok [OF assms(2)])
  obtain z where z: "active_row n (db2 (pg_db p)) = Some z" "read_data lib qe p z = Done (Inr (kt0, k0))"
    using assms(1) by (auto simp: FetchL2DataKey_def rr_bind_Inr split: option.splits)
  have "kt_FromString (k_type z) = Done kt0" using z(2) by (auto simp: read_data_def rr_bind_Inr)
  moreover have "latest_row n (db2 (pg_db p)) = Some z" using active_latest [OF secret_okD(2) [OF ok]] z(1) by simp
  ultimately show ?thesis using StoreL2DataKey_Inr [of lib en l1 n kt k p p'] assms(3,4) Inr by auto
qed


text \<open>A key set of level 1 that was stored is the one that is loaded by its name, for a storage unsealed by
  a file provider.\<close>

theorem level1_roundtrip:
  assumes "keylib_ok lib" "rng_ok (pe_rng en)" "lp_ok l" "pg_reach lib p" "pg_provider p = Some (local_provider lib l)"
    and "StoreLevel1KeySet lib en n key p = Done (Inr (), p')" "quiet en2"
  shows "LoadLevel1KeySet lib en2 p' n = Done (Inr (next1 (pg_db p), key))"
proof -
  obtain r1 where "active_row n (db1 (pg_db p')) = Some r1" "k_id r1 = next1 (pg_db p)" "decrypt_l1 lib p' (k_encrypted r1) = Done (Inr key)"
    using level1_stored [OF assms(1-3) pg_reach_ok [OF assms(4)] assms(5,6)] by blast
  then have "loadLevel1KeySetInternal lib None p' (pg_db p') n = Done (Inr (next1 (pg_db p), key))"
    by (simp add: loadLevel1_Inr)
  then show ?thesis
    by (simp add: LoadLevel1KeySet_def in_tx_quiet [OF assms(7)] quietD [OF assms(7)])
qed

section \<open>A run\<close>

definition demo_lp :: LocalFileUnsealProvider where
  "demo_lp = \<lparr>lp_keySets = [(1, demo_keyset)], lp_latestKeyId = 1, lp_latestKey = demo_keyset\<rparr>"

definition demo_pgenv :: "bytes pg_env" where
  "demo_pgenv = \<lparr>pe_rng = demo_rng, pe_now = 5, pe_query = \<lambda>_. None, pe_begin = \<lambda>_. None, pe_insert = None, pe_insert_rows = None,
     pe_update = None, pe_update_rows = None, pe_commit = \<lambda>_. None\<rparr>"

lemma demo_pgenv_simps [simp]: "pe_rng demo_pgenv = demo_rng" "pe_query demo_pgenv i = None" "pe_insert demo_pgenv = None"
  "pe_insert_rows demo_pgenv = None"
  by (simp_all add: demo_pgenv_def)

lemma demo_quiet [simp]: "quiet demo_pgenv"
  by (simp add: quiet_def demo_pgenv_def)

lemma demo_rng_ok [simp]: "rng_ok demo_rng"
  by (simp add: rng_ok_def demo_rng_def)

lemma demo_lp_ok [simp]: "lp_ok demo_lp"
  by (simp add: lp_ok_def demo_lp_def)

abbreviation demo_up :: "bytes unseal_provider" where
  "demo_up \<equiv> local_provider demo_keylib demo_lp"

lemma demo_seal: "AesGCMEnc demo_keylib demo_rng demo_keyset d = Inr (7 # d, replicate 12 7)"
  by (simp add: AesGCMEnc_def ks_Aes_def aes_NewCipher_def demo_keyset_def CalculateCrc_def demo_keylib_def demo_rng_def gcm_nonce_size_def)

lemma demo_marshal_keyset: "kl_json_marshal demo_keylib demo_keyset = Inr [9]"
  by (simp add: demo_keylib_def)

lemma demo_crc [simp]: "VerifyCrc demo_keyset"
  by (simp add: demo_keyset_def)

lemma demo_unseal:
  "\<exists>p1. SetupUnsealProviderAndWait demo_pgenv demo_up NewPostgresKeyStorage = Done (Inr (), p1) \<and> pg_provider p1 = Some demo_up"
  by (simp add: SetupUnsealProviderAndWait_def NewPostgresKeyStorage_def stored_token_def local_provider_def WaitUnsealOperation_def
      finish_unseal_def lp_Encrypt_def demo_lp_def demo_seal insert_l1_def insert_row_def markUnsealed_def)

definition has_l1 :: "bytes PostgresKeyStorage \<Rightarrow> bool" where
  "has_l1 p \<longleftrightarrow> (\<exists>r1. active_row ''l1'' (db1 (pg_db p)) = Some r1 \<and> decrypt_l1 demo_keylib p (k_encrypted r1) = Done (Inr demo_keyset))"

lemma demo_store1:
  assumes "pg_reach demo_keylib p" "pg_provider p = Some demo_up"
  shows "\<exists>p'. StoreLevel1KeySet demo_keylib demo_pgenv ''l1'' demo_keyset p = Done (Inr (), p') \<and> has_l1 p' \<and> pg_reach demo_keylib p'"
proof -
  obtain c u where "up_Encrypt demo_up demo_rng [9] = Inr (c, u)"
    by (simp add: local_provider_def lp_Encrypt_def demo_lp_def demo_seal)
  then obtain p' where p': "StoreLevel1KeySet demo_keylib demo_pgenv ''l1'' demo_keyset p = Done (Inr (), p')"
    using StoreLevel1KeySet_quiet [OF demo_quiet _ demo_crc demo_marshal_keyset assms(2), of "''l1''"]
    by (simp add: TokenName_def)
  from level1_stored [OF demo_keylib_ok _ demo_lp_ok pg_reach_ok [OF assms(1)] assms(2) p'] have "has_l1 p'"
    by (auto simp: has_l1_def)
  moreover have "pg_reach demo_keylib p'"
    using pg_reach.pg_exec [OF assms(1), of demo_pgenv "StoreL1 ''l1'' demo_keyset" "Inr ()" p'] p' by simp
  ultimately show ?thesis using p' by blast
qed

lemma demo_store2:
  assumes "pg_reach demo_keylib p" "has_l1 p" "kt_String kt = Done tn"
    and "\<And>r. latest_row n (db2 (pg_db p)) = Some r \<Longrightarrow> kt_FromString (k_type r) = Done kt"
  shows "\<exists>p'. StoreL2DataKey demo_keylib demo_pgenv ''l1'' n kt k p = Done (Inr (), p') \<and> has_l1 p' \<and> pg_reach demo_keylib p' \<and>
    (\<forall>r. latest_row n (db2 (pg_db p')) = Some r \<longrightarrow> kt_FromString (k_type r) = Done kt)"
proof -
  obtain r1 where r1: "active_row ''l1'' (db1 (pg_db p)) = Some r1" "decrypt_l1 demo_keylib p (k_encrypted r1) = Done (Inr demo_keyset)"
    using assms(2) by (auto simp: has_l1_def)
  obtain c where c: "dataEncryptByL1 demo_keylib (pe_rng demo_pgenv) k (word_of_int (k_id r1)) demo_keyset = Inr c"
    by (simp add: dataEncryptByL1_def demo_seal)
  let ?r = "l2_new demo_pgenv n (max_version n (db2 (pg_db p)) + 1) (k_id r1) tn c (pg_db p)"
  let ?p = "p\<lparr>pg_db := (pg_db p)\<lparr>db2 := rotate (pe_now demo_pgenv) ?r (db2 (pg_db p)), next2 := next2 (pg_db p) + 1\<rparr>\<rparr>"
  have s: "StoreL2DataKey demo_keylib demo_pgenv ''l1'' n kt k p = Done (Inr (), ?p)"
    by (rule StoreL2DataKey_quiet [OF demo_quiet r1 c assms(3,4)])
  have "has_l1 ?p" using r1 by (simp add: has_l1_def decrypt_l1_def)
  moreover have "pg_reach demo_keylib ?p"
    using pg_reach.pg_exec [OF assms(1), of demo_pgenv "StoreData ''l1'' n kt k" "Inr ()" ?p] s by simp
  moreover have "latest_row n (db2 (pg_db ?p)) = Some ?r"
    using rotate_latest [of ?r "db2 (pg_db p)" "pe_now demo_pgenv"] by (simp add: l2_new_def)
  then have "kt_FromString (k_type r) = Done kt" if "latest_row n (db2 (pg_db ?p)) = Some r" for r
    using that FromString_String_Done [OF assms(3)] by (auto simp: l2_new_def)
  ultimately show ?thesis using s by blast
qed

lemma AES128_name: "kt_String KeyAES128 = Done ''KeyAES128''"
  by (simp add: kt_String_def key_type_names_def key_types)

text \<open>The run: unsealed, a key of level 1, a data key, its rotation.\<close>

lemma demo_history:
  "\<exists>p1 p2 p3 p4. SetupUnsealProviderAndWait demo_pgenv demo_up NewPostgresKeyStorage = Done (Inr (), p1) \<and>
     pg_reach demo_keylib p1 \<and> pg_provider p1 = Some demo_up \<and>
     StoreLevel1KeySet demo_keylib demo_pgenv ''l1'' demo_keyset p1 = Done (Inr (), p2) \<and> pg_reach demo_keylib p2 \<and>
     has_l1 p2 \<and> db2 (pg_db p2) = [] \<and> next2 (pg_db p2) = 1 \<and>
     StoreL2DataKey demo_keylib demo_pgenv ''l1'' ''k'' KeyAES128 [1] p2 = Done (Inr (), p3) \<and> pg_reach demo_keylib p3 \<and>
     StoreL2DataKey demo_keylib demo_pgenv ''l1'' ''k'' KeyAES128 [2] p3 = Done (Inr (), p4) \<and> pg_reach demo_keylib p4"
proof -
  obtain p1 where p1: "SetupUnsealProviderAndWait demo_pgenv demo_up NewPostgresKeyStorage = Done (Inr (), p1)" "pg_provider p1 = Some demo_up"
    using demo_unseal by blast
  have r1: "pg_reach demo_keylib p1" by (rule pg_reach.pg_unseal [OF pg_reach.pg_new p1(1)])
  obtain p2 where p2: "StoreLevel1KeySet demo_keylib demo_pgenv ''l1'' demo_keyset p1 = Done (Inr (), p2)" "has_l1 p2" "pg_reach demo_keylib p2"
    using demo_store1 [OF r1 p1(2)] by blast
  have d1: "db2 (pg_db p1) = []" "next2 (pg_db p1) = 1" using p1(1)
    by (auto simp: SetupUnsealProviderAndWait_def NewPostgresKeyStorage_def stored_token_def local_provider_def WaitUnsealOperation_def
      finish_unseal_def lp_Encrypt_def demo_lp_def demo_seal insert_l1_def insert_row_def markUnsealed_def)
  have d2: "db2 (pg_db p2) = []" "next2 (pg_db p2) = 1"
    using exec_Inr [OF pg_reach_ok [OF r1], of demo_keylib demo_pgenv "StoreL1 ''l1'' demo_keyset" p2] p2(1) d1
    by (auto simp: grow1_def)
  obtain p3 where p3: "StoreL2DataKey demo_keylib demo_pgenv ''l1'' ''k'' KeyAES128 [1] p2 = Done (Inr (), p3)" "has_l1 p3" "pg_reach demo_keylib p3"
    "\<forall>r. latest_row ''k'' (db2 (pg_db p3)) = Some r \<longrightarrow> kt_FromString (k_type r) = Done KeyAES128"
    using demo_store2 [OF p2(3,2) AES128_name, of "''k''"] d2 by (auto simp: latest_row_def named_def)
  obtain p4 where "StoreL2DataKey demo_keylib demo_pgenv ''l1'' ''k'' KeyAES128 [2] p3 = Done (Inr (), p4)" "pg_reach demo_keylib p4"
    using demo_store2 [OF p3(3,2) AES128_name, of "''k''"] p3(4) by blast
  then show ?thesis using p1 r1 p2 p3 d2 by blast
qed

text \<open>A storage whose first data key is the given one.\<close>

lemma demo_first_key:
  assumes "kt_String kt = Done tn"
  shows "\<exists>p2 p. pg_reach demo_keylib p2 \<and> has_l1 p2 \<and> db2 (pg_db p2) = [] \<and> next2 (pg_db p2) = 1 \<and>
    StoreL2DataKey demo_keylib demo_pgenv ''l1'' n kt k p2 = Done (Inr (), p) \<and> has_l1 p \<and> pg_reach demo_keylib p \<and>
    (\<forall>r. latest_row n (db2 (pg_db p)) = Some r \<longrightarrow> kt_FromString (k_type r) = Done kt) \<and>
    FetchL2DataKey demo_keylib (\<lambda>_. None) n p = Done (Inr (1, kt, k)) \<and>
    LoadL2DataKeyById demo_keylib (\<lambda>_. None) 1 p = Done (Inr (kt, k))"
proof -
  obtain p2 where h: "pg_reach demo_keylib p2" "has_l1 p2" "db2 (pg_db p2) = []" "next2 (pg_db p2) = 1"
    using demo_history by blast
  obtain p where p: "StoreL2DataKey demo_keylib demo_pgenv ''l1'' n kt k p2 = Done (Inr (), p)" "has_l1 p" "pg_reach demo_keylib p"
    "\<forall>r. latest_row n (db2 (pg_db p)) = Some r \<longrightarrow> kt_FromString (k_type r) = Done kt"
    using demo_store2 [OF h(1,2) assms, of n] h(3) by (auto simp: latest_row_def named_def)
  have f: "FetchL2DataKey demo_keylib (\<lambda>_. None) n p = Done (Inr (1, kt, k))"
    using fetch_store [OF demo_keylib_ok _ pg_reach_ok [OF h(1)] p(1)] h(4) by simp
  show ?thesis using h p f fetch_load [OF pg_reach_ok [OF p(3)] f] by blast
qed


theorem rotation_keeps_type_witness:
  "\<exists>p. \<forall>r p'. StoreL2DataKey demo_keylib demo_pgenv ''l1'' ''k'' KeyRSA1024 [2] p = Done (r, p') \<longrightarrow> p' = p \<and> (\<exists>e. r = Inl e)"
proof -
  obtain p2 p3 where h: "pg_reach demo_keylib p2" "StoreL2DataKey demo_keylib demo_pgenv ''l1'' ''k'' KeyAES128 [1] p2 = Done (Inr (), p3)"
    "pg_reach demo_keylib p3"
    using demo_history by blast
  have f: "FetchL2DataKey demo_keylib (\<lambda>_. None) ''k'' p3 = Done (Inr (next2 (pg_db p2), KeyAES128, [1]))"
    by (rule fetch_store [OF demo_keylib_ok _ pg_reach_ok [OF h(1)] h(2)]) simp
  have "KeyRSA1024 \<noteq> KeyAES128" by (simp add: key_types)
  from rotation_keeps_type [OF f h(3) this] show ?thesis by blast
qed

theorem rotation_invariant_witness:
  "\<exists>(p :: bytes PostgresKeyStorage) r. r \<in> set (db2 (pg_db p)) \<and> (k_status r = 0 \<longleftrightarrow> (\<forall>x \<in> set (db2 (pg_db p)). k_name x = k_name r \<longrightarrow> k_version x \<le> k_version r))"
proof -
  obtain p2 p3 where h: "pg_reach demo_keylib p2" "StoreL2DataKey demo_keylib demo_pgenv ''l1'' ''k'' KeyAES128 [1] p2 = Done (Inr (), p3)"
    "pg_reach demo_keylib p3"
    using demo_history by blast
  obtain r where "r \<in> set (db2 (pg_db p3))"
    using StoreL2DataKey_Inr [OF h(2)] set_rotate unfolding Let_def by fastforce
  from rotation_invariant [OF h(3) this] this show ?thesis by (intro exI [of _ p3] exI [of _ r]) blast
qed

theorem level1_roundtrip_witness:
  "\<exists>p1 p2. StoreLevel1KeySet demo_keylib demo_pgenv ''l1'' demo_keyset p1 = Done (Inr (), p2) \<and>
     LoadLevel1KeySet demo_keylib demo_pgenv p2 ''l1'' = Done (Inr (next1 (pg_db p1), demo_keyset))"
proof -
  obtain p1 p2 where h: "pg_reach demo_keylib p1" "pg_provider p1 = Some demo_up"
     "StoreLevel1KeySet demo_keylib demo_pgenv ''l1'' demo_keyset p1 = Done (Inr (), p2)"
    using demo_history by blast
  from level1_roundtrip [OF demo_keylib_ok _ demo_lp_ok h demo_quiet] h(3) show ?thesis by auto
qed

text \<open>The second provider of the witness has another key under the same id.\<close>

definition demo_lp2 :: LocalFileUnsealProvider where
  "demo_lp2 = \<lparr>lp_keySets = [(1, demo_keyset\<lparr>AES256 := replicate 32 8\<rparr>)], lp_latestKeyId = 1,
     lp_latestKey = demo_keyset\<lparr>AES256 := replicate 32 8\<rparr>\<rparr>"


end
