(* ===== verification/JwtProps.thy ===== *)
theory JwtProps
  imports JwtAddon KeyProps
begin

text \<open>The properties of tokens and of encryption over the PostgreSQL storage.\<close>

text \<open>C14. The two switches over key types and algorithms agree: a key signs with a method exactly when the other
  switch verifies with the same method and the public part of the key; the method's algorithm is the
  requested one, and raw bytes are used as a key only for keys of the general types.\<close>

theorem key_mappings_agree:
  "((\<exists>sk. jwtSigningKeyMapping lib kt alg key = Inr (m, sk) \<and> vk = public_part sk) \<longleftrightarrow>
      jwtVerificationKeyMapping lib kt alg key = Inr (m, vk)) \<and>
   (jwtVerificationKeyMapping lib kt alg key = Inr (m, vk) \<longrightarrow>
      method_alg m = alg \<and> (\<forall>b. vk = Raw b \<longrightarrow> b = key \<and> (kt = KeyGeneral64B \<or> kt = KeyGeneral128B)))"
proof -
  have "method_alg m = alg \<and> (\<forall>b. vk = Raw b \<longrightarrow> b = key \<and> (kt = KeyGeneral64B \<or> kt = KeyGeneral128B))"
    if v: "jwtVerificationKeyMapping lib kt alg key = Inr (m, vk)"
  proof -
    obtain sk where sk: "jwtSigningKeyMapping lib kt alg key = Inr (m, sk)" "vk = public_part sk" using mapping_sign [OF v] by blast
    then show ?thesis using mapping_alg_raw [OF sk(1)] by (cases sk) auto
  qed
  then show ?thesis using mapping_sign [of lib kt alg key m vk] mapping_verify [of lib kt alg key m] by blast
qed

theorem key_mappings_agree_witness:
  "jwtVerificationKeyMapping demo_keylib KeyRSA2048 ''PS512'' [1] = Inr (MPS512, Public [1]) \<and>
   (\<exists>sk. jwtSigningKeyMapping demo_keylib KeyRSA2048 ''PS512'' [1] = Inr (MPS512, sk) \<and> Public [1] = public_part sk)"
proof -
  have "jwtVerificationKeyMapping demo_keylib KeyRSA2048 ''PS512'' [1] = Inr (MPS512, Public [1])"
    by (simp add: jwtVerificationKeyMapping_def is_rsa_def key_types ParseRsaPrivateKey_def demo_keylib_def)
  with key_mappings_agree [of demo_keylib KeyRSA2048 "''PS512''" "[1]" MPS512 "Public [1]"] show ?thesis by blast
qed


text \<open>A token library for the witness: a token is the id of its key; it signs one set of claims.\<close>

definition demo_claims :: JwtData where
  "demo_claims = [(''permissions'', Strs [''read:jwt.verify'']), (''exp'', Int_val 10)]"

definition demo_jwt :: "bytes jwtlib" where
  "demo_jwt = \<lparr>jl_sign = \<lambda>m hdr claims sk.
       (case hdr of [(k, Str_val s)] \<Rightarrow>
          if k = ''kid'' \<and> m = MHS256 \<and> claims = demo_claims then Inr (CHR ''t'' # s) else Inl (Errorf [])
        | _ \<Rightarrow> Inl (Errorf [])),
     jl_header = \<lambda>tok. Inr [(''alg'', Str_val ''HS256''), (''kid'', Str_val (tl tok))],
     jl_verify = \<lambda>now tok k. Inr (map (\<lambda>(k, v). (k, through_json v)) demo_claims, True)\<rparr>"

lemma demo_jwt_ok: "jwtlib_ok demo_jwt"
  by (auto simp: jwtlib_ok_def demo_jwt_def demo_claims_def split: list.splits any_val.splits if_splits)

lemma General64B_name: "kt_String KeyGeneral64B = Done ''KeyGeneral64B''"
  by (simp add: kt_String_def key_type_names_def key_types)

definition demo_opt :: JwtOption where
  "demo_opt = \<lparr>jo_ServerControl = False, jo_TTL = 10000000000, jo_OneTime = False\<rparr>"

lemma demo_SignJwt:
  assumes "FetchL2DataKey demo_keylib (\<lambda>_. None) ''j'' p = Done (Inr (1, KeyGeneral64B, k))"
  shows "SignJwt demo_keylib demo_jwt 0 (FetchL2DataKey demo_keylib (\<lambda>_. None)) ''j'' ''HS256''
      [(''permissions'', Strs [''read:jwt.verify''])] demo_opt p = Done (Inr (CHR ''t'' # FormatInt 1))"
proof -
  have d: "sint (jo_TTL demo_opt) = 10000000000" by (simp add: demo_opt_def)
  show ?thesis
    by (simp add: SignJwt_def SignJwtToken_def assms jwtSigningKeyMapping_def demo_jwt_def demo_claims_def keyIdString_def
        convertClaims_def SetExp_def FromJwtData_def unix_seconds_def d)
qed


end
