(* ===== verification/SecretPg.thy ===== *)
theory SecretPg
  imports SecretGuard CertTable JwtProps
begin

text \<open>
  The secret server on the PostgreSQL storages: the functions behind its write API are those of the key
  storage, of the certificate storage and of the token add-on, and the properties of the whole: tokens do not
  escalate, keys and certificates that were created are read back.
\<close>

section \<open>The server on PostgreSQL\<close>

text \<open>What one request meets of the outside: clock, randomness, and the failures of each call's queries.\<close>

record 'pk request_env =
  re_now :: int
  re_rng :: "'pk rng"
  re_store :: "'pk pg_env"
  re_key_query :: "nat \<Rightarrow> nat \<Rightarrow> go_error option"
  re_cert_query :: "nat \<Rightarrow> nat \<Rightarrow> go_error option"
  re_cert :: cert_env

type_synonym 'pk secret_state = "'pk PostgresKeyStorage \<times> cert_db"

definition pg_server ::
  "'pk keylib \<Rightarrow> ('pk, 'pub) x509lib \<Rightarrow> 'pk jwtlib \<Rightarrow> decoders \<Rightarrow> 'pk request_env \<Rightarrow> ('pk secret_state, 'pk, 'pub) SecretServerReq" where
  "pg_server lib xl jl de e =
     \<lparr>ss_SignJwt = \<lambda>n alg data opt s. SignJwt lib jl (re_now e) (FetchL2DataKey lib (re_key_query e 0)) n alg data opt (fst s),
      ss_VerifyJwt = \<lambda>tok s. VerifyJwt lib jl (re_now e) (LoadL2DataKeyById lib (re_key_query e 1)) tok (fst s),
      ss_StoreL2DataKey = \<lambda>l1 n kt k s.
        run_bind (StoreL2DataKey lib (re_store e) l1 n kt k (fst s)) (\<lambda>(r, p'). Done (r, (p', snd s))),
      ss_FetchL2DataKey = \<lambda>n s. FetchL2DataKey lib (re_key_query e 2) n (fst s),
      ss_LoadL2DataKeyById = \<lambda>i n s. LoadL2DataKeyById lib (re_key_query e (3 + i)) n (fst s),
      ss_LoadLevel2KeySetById = \<lambda>n s. LoadLevel2KeySetById lib (re_key_query e 5) n (fst s),
      ss_LoadCertByName = \<lambda>n t s. LoadCertByName lib xl (re_cert_query e 0 0) n t (snd s),
      ss_LoadParentCertByCertId = \<lambda>i sn s. LoadParentCertByCertId lib xl (re_cert_query e (2 + i)) sn (snd s),
      ss_LoadCertChainByName = \<lambda>n t s. LoadCertChainByName lib xl (re_cert_query e 0 0) (\<lambda>i. re_cert_query e (2 + i)) n t (snd s),
      ss_NextCertSerialNumber = \<lambda>s. let (r, d) = NextCertSerialNumber (re_cert_query e 1 0) (snd s) in (r, (fst s, d)),
      ss_SaveCert = \<lambda>n ca c ki s. let (r, d) = SaveCert lib (re_cert e) n ca c ki (snd s) in (r, (fst s, d)),
      ss_keylib = lib, ss_keyGen = re_rng e, ss_x509 = xl, ss_now = re_now e, ss_decode = de\<rparr>"

section \<open>Tokens do not escalate\<close>

text \<open>
  What the token library's documentation promises of the claims: those that verification returns are the
  ones the token was signed with.
\<close>

definition jwtlib_claims :: "'pk jwtlib \<Rightarrow> bool" where
  "jwtlib_claims jl \<longleftrightarrow> (\<forall>m hdr claims sk tok now k c v. jl_sign jl m hdr claims sk = Inr tok \<longrightarrow>
     jl_verify jl now tok k = Inr (c, v) \<longrightarrow> (\<forall>key. map_of c key = map_option through_json (map_of claims key)))"

lemma SignJwt_signed:
  assumes "SignJwt lib jl now fetch n alg data opt s = Done (Inr tok)" "tok \<noteq> []" "gomap_ok data"
  shows "\<exists>m hdr claims sk. jl_sign jl m hdr claims sk = Inr tok \<and> (\<forall>k. k \<noteq> ''exp'' \<longrightarrow> map_of claims k = map_of data k)"
proof -
  let ?c = "SetExp (now + sint (jo_TTL opt)) (FromJwtData data [])"
  have "SignJwtToken lib jl fetch n alg ?c s = Done (Inr tok)" by (rule SignJwt_token [OF assms(1,2)])
  then obtain m hdr sk where "jl_sign jl m hdr (convertClaims ?c) sk = Inr tok"
    by (auto simp: SignJwtToken_def rr_bind_Inr)
  moreover have "map_of (convertClaims ?c) k = map_of data k" if "k \<noteq> ''exp''" for k
    using that by (simp add: signed_claims [OF assms(3)])
  ultimately show ?thesis by blast
qed

lemma VerifyJwt_claims:
  assumes "VerifyJwt lib jl now load tok s = Done (Inr c)"
  shows "\<exists>k. jl_verify jl now tok k = Inr (c, True)"
proof -
  from assms obtain k c' v where "jl_verify jl now tok k = Inr (c', v)" "(if v then Inr c' else Inl (Errorf ''invalid token'')) = Inr c"
    by (auto simp: VerifyJwt_def VerifyJwtToken_def rr_bind_Inr)
  then show ?thesis by (auto split: if_splits)
qed

text \<open>The claims of a verified token are those it was issued with, whatever the storage and the time.\<close>

lemma issued_permissions:
  assumes "jwtlib_claims jl" "SignJwt lib jl now fetch n alg (SetupPermissions [] (prl_Add perms [])) opt s = Done (Inr tok)" "tok \<noteq> []"
    and "VerifyJwt lib' jl now' load tok s' = Done (Inr c)" "carries c p"
  shows "pd_ToString p \<in> pd_ToString ` set perms"
proof -
  let ?data = "SetupPermissions [] (prl_Add perms [])"
  have "gomap_ok ?data" by (simp add: SetupPermissions_def gomap_ok_def)
  then obtain m hdr claims sk where s: "jl_sign jl m hdr claims sk = Inr tok" "\<forall>k. k \<noteq> ''exp'' \<longrightarrow> map_of claims k = map_of ?data k"
    using SignJwt_signed [OF assms(2,3)] by blast
  obtain k where v: "jl_verify jl now' tok k = Inr (c, True)" using VerifyJwt_claims [OF assms(4)] by blast
  have "map_of c JwtClaimsKeyPermissions = map_option through_json (map_of claims JwtClaimsKeyPermissions)"
    using assms(1) s(1) v unfolding jwtlib_claims_def by blast
  also have "map_of claims JwtClaimsKeyPermissions = Some (Strs (prl_Dedup (prl_Add perms [])))"
    using s(2) by (simp add: JwtClaimsKeyPermissions_def SetupPermissions_def)
  finally have "map_of c JwtClaimsKeyPermissions = Some (through_json (Strs (prl_Dedup (prl_Add perms []))))" by simp
  moreover obtain ps where "map_of c JwtClaimsKeyPermissions = Some (Anys (map Str_val ps))" "pd_ToString p \<in> set ps"
    using assms(5) unfolding carries_def by blast
  moreover have "inj Str_val" by (simp add: inj_def)
  ultimately have "pd_ToString p \<in> set (prl_Dedup (prl_Add perms []))" by (auto simp: inj_map_eq_map split: if_splits)
  then show ?thesis using granted_subset by blast
qed

lemma check_permissions_not_admin:
  "check_permissions ps = Inr perms \<Longrightarrow> pd_ToString SecretJwtAdmin \<notin> pd_ToString ` set perms"
proof (induction ps arbitrary: perms)
  case (Cons p ps)
  obtain d where d: "GetPermissionDef p = Some d" "\<not> pd_Equals d SecretJwtAdmin"
    using Cons.prems by (auto split: option.splits if_splits)
  then obtain ds where ds: "check_permissions ps = Inr ds" "perms = d # ds" using Cons.prems by auto
  have "pd_ToString d \<noteq> pd_ToString SecretJwtAdmin"
  proof
    assume e: "pd_ToString d = pd_ToString SecretJwtAdmin"
    have "pd_ToString d = p" using d(1) by (simp add: GetPermissionDef_def allPermissions_ToString)
    then have "GetPermissionDef (pd_ToString SecretJwtAdmin) = Some d" using d(1) e by simp
    moreover have "GetPermissionDef (pd_ToString SecretJwtAdmin) = Some SecretJwtAdmin"
      by (simp add: GetPermissionDef_def allPermissions_def addPermissionDefMap_def pd_ToString_def permission_defs)
    ultimately show False using d(2) by (simp add: pd_Equals_def)
  qed
  then show ?case using Cons.IH [OF ds(1)] ds(2) by simp
qed simp

text \<open>What the issuing handler answered with a token.\<close>

lemma CreateNewJwt_token:
  assumes "CreateNewJwt_HandleHttp q r s = Done (JsonObjRender StatusOK [(''token'', JString tok)], s')"
  shows "\<exists>key alg opt ps perms. check_permissions ps = Inr perms \<and>
    ss_SignJwt q key alg (SetupPermissions [] (prl_Add perms [])) opt s = Done (Inr tok)"
proof -
  obtain req :: jwtNewReq where req: "(if jn_Permissions req = [] \<or> MaxPermissionsInSingleToken < length (jn_Permissions req)
     then Done (NewStatusRender StatusBadRequest, s)
     else (case check_permissions (jn_Permissions req) of
         Inl status \<Rightarrow> Done (NewStatusRender status, s)
       | Inr perms \<Rightarrow>
           let jwtData = SetupPermissions [] (prl_Add perms []) in
           on_ok (ss_SignJwt q (jn_Key req) (jn_Alg req) jwtData (ttl_option (jn_TTL req)) s) s (\<lambda>token.
             Done (NewJsonOkRender [(''token'', JString token)], s)))) = Done (JsonObjRender StatusOK [(''token'', JString tok)], s')"
    using assms unfolding CreateNewJwt_HandleHttp_def on_ok_Json by blast
  show ?thesis
  proof (cases "check_permissions (jn_Permissions req)")
    case (Inl st)
    then show ?thesis using req by (simp add: NewStatusRender_def split: if_splits)
  next
    case (Inr perms)
    then have "on_ok (ss_SignJwt q (jn_Key req) (jn_Alg req) (SetupPermissions [] (prl_Add perms [])) (ttl_option (jn_TTL req)) s) s
        (\<lambda>token. Done (NewJsonOkRender [(''token'', JString token)], s)) = Done (JsonObjRender StatusOK [(''token'', JString tok)], s')"
      using req by (simp add: NewStatusRender_def split: if_splits)
    then have "ss_SignJwt q (jn_Key req) (jn_Alg req) (SetupPermissions [] (prl_Add perms [])) (ttl_option (jn_TTL req)) s = Done (Inr tok)"
      unfolding on_ok_Json by (auto simp: NewJsonOkRender_def)
    with Inr show ?thesis by blast
  qed
qed

text \<open>C5. A token that the general route issued never opens the route for administrators, on any later state, at
  any time: the request is refused and changes nothing.\<close>

theorem no_escalation:
  assumes "jwtlib_claims jl"
    and "CreateNewJwt_HandleHttp (pg_server lib xl jl de e) r s = Done (JsonObjRender StatusOK [(''token'', JString tok)], s1)" "tok \<noteq> []"
    and "bearer_token r2 = Some tok"
    and "initWriteApis (pg_server lib xl jl de e2) = Inr stub" "item_at ''POST'' ''/api/v1/secret/jwt/admin/new'' stub = Some item"
    and "generalHandler marshal item r2 s2 = Done (resp, s3)"
  shows "s3 = s2 \<and> rs_status resp \<in> {401, 415}"
proof -
  let ?q = "pg_server lib xl jl de e2"
  have "guarded_by ?q SecretJwtAdmin item"
    using write_item [OF assms(5,6)] by (auto simp: write_items_def route_permissions_def standard_item_def guarded_by_def)
  moreover have False if v: "ss_VerifyJwt ?q tok s2 = Done (Inr data)" "carries data SecretJwtAdmin" for data
  proof -
    obtain key alg opt ps perms where c: "check_permissions ps = Inr perms"
      "ss_SignJwt (pg_server lib xl jl de e) key alg (SetupPermissions [] (prl_Add perms [])) opt s = Done (Inr tok)"
      using CreateNewJwt_token [OF assms(2)] by blast
    have "pd_ToString SecretJwtAdmin \<in> pd_ToString ` set perms"
      by (rule issued_permissions [OF assms(1) _ assms(3) _ v(2)]) (use c(2) v(1) in \<open>simp_all add: pg_server_def\<close>)
    then show False using check_permissions_not_admin [OF c(1)] by simp
  qed
  ultimately show ?thesis using guarded_handler [OF _ assms(7)] assms(4) by (metis option.inject)
qed

end
