(* ===== verification/CertProps.thy ===== *)
theory CertProps
  imports CertTable
begin

text \<open>
  The properties of the certificate storage: the invariant of its table in every reachable state, and
  that both walks from a certificate to its root end and agree.
\<close>

section \<open>Reachable tables\<close>

text \<open>The states of a certificate storage whose callers name an issuer that is stored, or none.\<close>

inductive cert_reach :: "'pk keylib \<Rightarrow> ('pk, 'pub) x509lib \<Rightarrow> cert_db \<Rightarrow> bool" for lib :: "'pk keylib" and xl :: "('pk, 'pub) x509lib" where
  cert_init: "cert_reach lib xl new_cert_db"
| cert_save: "cert_reach lib xl db \<Longrightarrow> parsed xl c \<Longrightarrow> ca = [] \<or> ca \<in> ce_id ` set (cd_rows db) \<Longrightarrow>
    saveInternal lib en t n ca c ki db = (r, db') \<Longrightarrow> cert_reach lib xl db'"
| cert_next: "cert_reach lib xl db \<Longrightarrow> NextCertSerialNumber qe db = (r, db') \<Longrightarrow> cert_reach lib xl db'"

lemma NextCertSerialNumber_rows: "NextCertSerialNumber qe db = (r, db') \<Longrightarrow> cd_rows db' = cd_rows db"
  by (auto simp: NextCertSerialNumber_def split: option.splits if_splits)

lemma cert_reach_ok:
  assumes "keylib_ok lib"
  shows "cert_reach lib xl db \<Longrightarrow> cert_rows_ok lib xl (cd_rows db)"
proof (induction rule: cert_reach.induct)
  case (cert_save db c ca en t n ki r db')
  then show ?case
    using pgc.save_inv [of "(lib, xl, db)" c ca en t n ki r "(lib, xl, db')"] assms by simp
qed (simp_all add: new_cert_db_def NextCertSerialNumber_rows)

text \<open>Of the versions of a name, the valid one is the latest.\<close>

lemma valid_latest:
  assumes "cert_rows_ok lib xl rows" "r \<in> set rows"
  shows "ce_status r = 0 \<longleftrightarrow> top_by ce_version (certs_named (ce_type r) (ce_name r) rows) = Some r"
proof -
  let ?xs = "certs_named (ce_type r) (ce_name r) rows"
  have m: "r \<in> set ?xs" using assms(2) by (simp add: certs_named_def)
  then obtain ys y where xs: "?xs = ys @ [y]" by (cases ?xs rule: rev_cases) auto
  have "map ce_status ?xs = statuses (length ?xs)" using assms(1) by (simp add: cert_rows_ok_def)
  then have st: "map ce_status ys = replicate (length ys) 1" "ce_status y = 0" unfolding xs by (simp_all add: statuses_def)
  have "ce_status x = 1" if "x \<in> set ys" for x
    using that st(1) by (metis in_set_conv_nth length_map nth_map nth_replicate)
  moreover have "top_by ce_version ?xs = Some y" using latest_named [OF assms(1), of "ce_type r" "ce_name r"] xs by simp
  ultimately show ?thesis using m st(2) unfolding xs by auto
qed


section \<open>Chains\<close>

lemma LoadParent_quiet: "LoadParentCertByCertId lib xl q sn db = Inr x \<Longrightarrow> LoadParentCertByCertId lib xl (\<lambda>_. None) sn db = Inr x"
  unfolding LoadParentCertByCertId_def LoadCertById_def by (auto split: option.splits if_splits)

lemma chain_by_name:
  assumes "LoadCertByName lib xl None n t db = Inr (c, ki)"
    and "ancestors (\<lambda>sn. LoadParentCertByCertId lib xl (\<lambda>_. None) sn db) (sn_of c) cs"
  shows "LoadCertChainByName lib xl None (\<lambda>_ _. None) n t db =
    (if length cs < 10 then Inr (c # cs, ki) else Inl (Errorf ''reaching max cert level''))"
  using assms(1) chain_loop_ancestors [OF assms(2), of MaxLevels "[c]"] by (simp add: LoadCertChainByName_def MaxLevels_def)


section \<open>An example\<close>

text \<open>A root and an intermediate CA, and a library that knows them and one end-user certificate.\<close>

definition demo_name :: "string \<Rightarrow> pkix_name" where
  "demo_name n = \<lparr>pn_Country = [''XX''], pn_Organization = [''org''], pn_Locality = [''l''], pn_Province = [''p''],
     pn_StreetAddress = [''s''], pn_PostalCode = [''1''], pn_CommonName = n\<rparr>"

definition demo_cert :: "byte \<Rightarrow> int \<Rightarrow> string \<Rightarrow> bool \<Rightarrow> Certificate" where
  "demo_cert raw sn n ca = \<lparr>xc_Raw = [raw], xc_SerialNumber = sn, xc_Subject = demo_name n, xc_NotBefore = 0, xc_NotAfter = 5000000,
     xc_Version = 0, xc_IsCA = ca, xc_BasicConstraintsValid = True, xc_KeyUsage = 29, xc_ExtKeyUsage = [1], xc_MaxPathLen = 0,
     xc_MaxPathLenZero = False, xc_DNSNames = [''a.example''], xc_EmailAddresses = [], xc_IPAddresses = [], xc_URIs = []\<rparr>"

definition demo_root :: Certificate where "demo_root = demo_cert 100 100 ''root'' True"
definition demo_ca :: Certificate where "demo_ca = demo_cert 101 101 ''ca'' True"
definition demo_leaf :: Certificate where "demo_leaf = demo_cert 1 1 ''leaf'' False"

definition demo_x509 :: "(bytes, bytes) x509lib" where
  "demo_x509 = \<lparr>
     xl_create_cert = \<lambda>t par pub k. if xc_SerialNumber t = 1 \<and> xc_Subject t = demo_name ''leaf'' \<and> xc_DNSNames t = [''a.example''] \<and>
       xc_KeyUsage t = 29 \<and> xc_ExtKeyUsage t = [1] \<and> \<not> xc_IsCA t then Inr [1] else Inl (Errorf []),
     xl_parse_cert = \<lambda>der. if der = [100] then Inr demo_root else if der = [101] then Inr demo_ca
       else if der = [1] then Inr demo_leaf else Inl (Errorf []),
     xl_create_req = \<lambda>t k. Inl (Errorf []),
     xl_parse_req = \<lambda>d. Inr \<lparr>xr_Raw = d, xr_Subject = demo_name ''leaf'', xr_DNSNames = [''a.example''], xr_EmailAddresses = [],
       xr_IPAddresses = [], xr_URIs = [], xr_Version = 0, xr_PublicKey = Some []\<rparr>,
     xl_public = \<lambda>k. k, xl_parse_ip = \<lambda>_. None\<rparr>"

lemma demo_x509_ok: "x509_ok demo_x509"
  by (auto simp: x509_ok_def demo_x509_def demo_root_def demo_ca_def demo_leaf_def demo_cert_def split: if_splits)

definition demo_cert_env :: cert_env where
  "demo_cert_env = \<lparr>cv_now = \<lambda>_. 0, cv_begin = None, cv_query = None, cv_update = None, cv_update_rows = None, cv_insert = None,
     cv_insert_rows = None, cv_commit = None, cv_rollback = None\<rparr>"

definition demo_ca_key :: CertKeyInfo where
  "demo_ca_key = \<lparr>ki_CertKeyLevel = CertKeyLevelLevel2Custom, ki_CertKeyId = ''1''\<rparr>"

definition demo_root_db :: cert_db where
  "demo_root_db = snd (SaveRootCA demo_keylib demo_cert_env ''root'' demo_root demo_ca_key new_cert_db)"

definition demo_cert_db :: cert_db where
  "demo_cert_db = snd (SaveIntermediateCA demo_keylib demo_cert_env ''ca'' ''64'' demo_ca demo_ca_key demo_root_db)"

lemma sn_small: "0 < n \<Longrightarrow> n < 256 \<Longrightarrow> sn_FromBigInt (int n) = [hex_digit (n div 16), hex_digit (n mod 16)]"
  using nat_bytes.simps [of n] nat_bytes.simps [of 0]
  by (simp add: sn_FromBigInt_def sn_FromBytes_def big_Bytes_def unat_of_nat)

lemma demo_sn: "sn_of demo_root = ''64''" "sn_of demo_ca = ''65''" "sn_of demo_leaf = ''01''"
proof -
  have "hex_digit 6 = CHR ''6''" "hex_digit 5 = CHR ''5''" "hex_digit 4 = CHR ''4''" "hex_digit 1 = CHR ''1''" "hex_digit 0 = CHR ''0''"
    by code_simp+
  then show "sn_of demo_root = ''64''" "sn_of demo_ca = ''65''" "sn_of demo_leaf = ''01''"
    using sn_small [of 100] sn_small [of 101] sn_small [of 1]
    by (simp_all add: sn_of_def demo_root_def demo_ca_def demo_leaf_def demo_cert_def)
qed

lemma demo_root_db: "cd_rows demo_root_db = [cert_new demo_cert_env CertLevelTypeRootCA ''root'' 1 [] demo_root [100] demo_ca_key]"
  "cd_seq demo_root_db = 1"
  by (simp_all add: demo_root_db_def SaveRootCA_def saveInternal_def EncodeCertificate_def demo_keylib_def demo_cert_env_def cert_save_tx_def
      ok_unless_def new_cert_db_def archive_def max_cert_version_def certs_named_def insert_cert_def demo_root_def demo_cert_def)

lemma demo_cert_db: "cd_rows demo_cert_db = cd_rows demo_root_db @ [cert_new demo_cert_env CertLevelTypeIntermediateCA ''ca'' 1 ''64'' demo_ca [101] demo_ca_key]"
  "cd_seq demo_cert_db = 1"
proof -
  have "sn_FromBigInt (xc_SerialNumber demo_root) = ''64''" "sn_FromBigInt (xc_SerialNumber demo_ca) = ''65''" "xc_Raw demo_ca = [101]"
    using demo_sn by (simp_all add: sn_of_def demo_ca_def demo_cert_def)
  then show "cd_rows demo_cert_db = cd_rows demo_root_db @ [cert_new demo_cert_env CertLevelTypeIntermediateCA ''ca'' 1 ''64'' demo_ca [101] demo_ca_key]"
    "cd_seq demo_cert_db = 1"
    by (simp_all add: demo_cert_db_def SaveIntermediateCA_def saveInternal_def EncodeCertificate_def demo_keylib_def demo_cert_env_def cert_save_tx_def
      ok_unless_def demo_root_db archive_def max_cert_version_def certs_named_def insert_cert_def cert_types cert_new_def)
qed

lemma demo_rows: "map ce_id (cd_rows demo_root_db) = [''64'']" "map ce_id (cd_rows demo_cert_db) = [''64'', ''65'']"
  using demo_sn by (simp_all add: demo_root_db demo_cert_db cert_new_def sn_of_def)

lemma demo_parsed: "parsed demo_x509 demo_root" "parsed demo_x509 demo_ca" "parsed demo_x509 demo_leaf"
  by (simp_all add: parsed_def demo_x509_def demo_root_def demo_ca_def demo_leaf_def demo_cert_def)

lemma demo_cert_reach: "cert_reach demo_keylib demo_x509 demo_cert_db"
proof -
  have "cert_reach demo_keylib demo_x509 demo_root_db"
    unfolding demo_root_db_def SaveRootCA_def
    by (rule cert_save [OF cert_init demo_parsed(1), where ca = "[]"]) (simp_all add: prod_eq_iff)
  moreover have "''64'' \<in> ce_id ` set (cd_rows demo_root_db)" using demo_rows(1) by (metis list.set_intros(1) set_map)
  ultimately show ?thesis
    using cert_save [of demo_keylib demo_x509 demo_root_db demo_ca "''64''" demo_cert_env CertLevelTypeIntermediateCA "''ca''" demo_ca_key]
      demo_parsed(2)
    by (simp add: demo_cert_db_def SaveIntermediateCA_def prod_eq_iff)
qed

lemmas demo_cert_simps = demo_cert_db demo_root_db cert_new_def certs_named_def cert_types demo_sn [unfolded sn_of_def] key_info_def
  ParseCertificate_def demo_keylib_def

lemma demo_load: "LoadCertByName demo_keylib demo_x509 None ''ca'' CertLevelTypeIntermediateCA demo_cert_db = Inr (demo_ca, demo_ca_key)"
  "LoadCertById demo_keylib demo_x509 None ''64'' demo_cert_db = Inr (demo_root, CertLevelTypeRootCA, demo_ca_key)"
  by (simp_all add: LoadCertByName_def LoadCertById_def cert_by_id_def demo_cert_simps demo_x509_def)

lemma demo_parent: "LoadParentCertByCertId demo_keylib demo_x509 (\<lambda>_. None) ''65'' demo_cert_db = Inr (Some (demo_root, CertLevelTypeRootCA, demo_ca_key))"
  "LoadParentCertByCertId demo_keylib demo_x509 (\<lambda>_. None) ''64'' demo_cert_db = Inr None"
  by (simp_all add: LoadParentCertByCertId_def demo_load(2) cert_by_id_def demo_cert_db demo_root_db cert_new_def demo_sn [unfolded sn_of_def])



end
