(* ===== verification/SecretProps.thy ===== *)
theory SecretProps
  imports SecretPg CertProps
begin

text \<open>
  What the secret server created is read back: keys by name and by id, certificates with their chain.
\<close>

section \<open>Keys\<close>

lemma requested_key_series:
  assumes "requested_key lib rg typ scale = Some (kt, gen)"
  shows "\<exists>format. key_series kt = Some (ToLower typ, format) \<and> typ \<in> {''RSA'', ''ECDSA'', ''AES''}"
proof -
  have low: "ToLower ''RSA'' = ''rsa''" "ToLower ''ECDSA'' = ''ecdsa''" "ToLower ''AES'' = ''aes''" by code_simp+
  consider "typ = ''RSA''" | "typ = ''ECDSA''" | "typ = ''AES''" using assms unfolding requested_key_def by (auto split: if_splits)
  then show ?thesis
  proof cases
    case 1
    then have "kt \<in> {KeyRSA1024, KeyRSA2048, KeyRSA3072, KeyRSA4096}" using assms by (auto simp: requested_key_def split: if_splits)
    then have "key_series kt = Some (''rsa'', ''pem'')" by (auto simp: key_series_def key_types)
    then show ?thesis using 1 low by simp
  next
    case 2
    then have "kt \<in> {KeyECDSA224, KeyECDSA256, KeyECDSA384, KeyECDSA521}" using assms by (auto simp: requested_key_def split: if_splits)
    then have "key_series kt = Some (''ecdsa'', ''pem'')" by (auto simp: key_series_def key_types)
    then show ?thesis using 2 low by simp
  next
    case 3
    then have "kt \<in> {KeyAES128, KeyAES192, KeyAES256}" using assms by (auto simp: requested_key_def split: if_splits)
    then have "key_series kt = Some (''aes'', ''raw'')" by (auto simp: key_series_def key_types)
    then show ?thesis using 3 low by simp
  qed
qed

lemma TrimSpace_FormatInt: "TrimSpace (FormatInt i) = FormatInt i"
  by (rule TrimSpace_plain) (auto simp: FormatInt_def plain_minus show_nat_chars)

lemma GenerateNewKey_Json:
  assumes "GenerateNewKey_HandleHttp (pg_server lib xl jl de e) r s = Done (JsonObjRender StatusOK obj, s1)"
  shows "\<exists>req kt key p1. res_bind (rq_body r) (de_key de) = Inr req \<and> TrimSpace (rq_param r ''key_name'') \<noteq> [] \<and>
    requested_key lib (re_rng e) (nk_Type req) (nk_KeyScale req) = Some (kt, Inr key) \<and>
    StoreL2DataKey lib (re_store e) (TrimSpace (nk_EncryptKeyName req)) (TrimSpace (rq_param r ''key_name'')) kt key (fst s) = Done (Inr (), p1) \<and>
    s1 = (p1, snd s) \<and> obj = [(''key_name'', JString (TrimSpace (rq_param r ''key_name'')))]"
proof -
  let ?q = "pg_server lib xl jl de e"
  let ?n = "TrimSpace (rq_param r ''key_name'')"
  obtain req :: newKeyReq where req: "ParseBody (KeyManageGenerateNewKey ?q) r = Done (Inr req)"
    and h: "(let keyName = ?n; encryptKeyName = TrimSpace (nk_EncryptKeyName req) in
     if keyName = [] \<or> encryptKeyName = [] then Done (NewStatusRender StatusBadRequest, s)
     else if nk_KeyScale req \<notin> set (key_scales (nk_Type req)) then Done (NewStatusRender StatusBadRequest, s)
     else (case requested_key (ss_keylib ?q) (ss_keyGen ?q) (nk_Type req) (nk_KeyScale req) of
         None \<Rightarrow> Panic
       | Some (kt, gen) \<Rightarrow>
           on_ok (Done gen) s (\<lambda>key.
           run_bind (ss_StoreL2DataKey ?q encryptKeyName keyName kt key s) (\<lambda>(res, s).
           on_ok (Done res) s (\<lambda>_.
             Done (NewJsonOkRender [(''key_name'', JString keyName)], s)))))) = Done (JsonObjRender StatusOK obj, s1)"
    using assms unfolding GenerateNewKey_HandleHttp_def on_ok_Json by blast
  have "res_bind (rq_body r) (de_key de) = Inr req"
    using req by (simp add: KeyManageGenerateNewKey_def json_parser_def pg_server_def)
  moreover have ne: "?n \<noteq> []" using h by (auto simp: Let_def NewStatusRender_def)
  moreover obtain kt gen where k: "requested_key lib (re_rng e) (nk_Type req) (nk_KeyScale req) = Some (kt, gen)"
    and h2: "on_ok (Done gen) s (\<lambda>key.
           run_bind (ss_StoreL2DataKey ?q (TrimSpace (nk_EncryptKeyName req)) ?n kt key s) (\<lambda>(res, s).
           on_ok (Done res) s (\<lambda>_.
             Done (NewJsonOkRender [(''key_name'', JString ?n)], s)))) = Done (JsonObjRender StatusOK obj, s1)"
    using h by (auto simp: Let_def NewStatusRender_def pg_server_def split: if_splits option.splits)
  moreover obtain key where key: "gen = Inr key"
    and h3: "run_bind (ss_StoreL2DataKey ?q (TrimSpace (nk_EncryptKeyName req)) ?n kt key s) (\<lambda>(res, s).
           on_ok (Done res) s (\<lambda>_. Done (NewJsonOkRender [(''key_name'', JString ?n)], s))) = Done (JsonObjRender StatusOK obj, s1)"
    using h2 unfolding on_ok_Json by blast
  moreover obtain res p1 where "StoreL2DataKey lib (re_store e) (TrimSpace (nk_EncryptKeyName req)) ?n kt key (fst s) = Done (res, p1)"
    and "on_ok (Done res) (p1, snd s) (\<lambda>_. Done (NewJsonOkRender [(''key_name'', JString ?n)], (p1, snd s))) = Done (JsonObjRender StatusOK obj, s1)"
    using h3 by (auto simp: pg_server_def)
  ultimately show ?thesis by (cases res) (auto simp: NewJsonOkRender_def)
qed


section \<open>Certificates\<close>

lemma encode_certs_eq: "encode_certs lib cs = Inr (map (\<lambda>c. string_of (kl_pem_encode lib ''CERTIFICATE'' (xc_Raw c))) cs)"
  by (induction cs) (simp_all add: EncodeCertificate_def)

lemma issue_Inr:
  assumes "issue q req tool certReq serial caCert signer = Done (Inr (c, data))"
  shows "EncodeCertificate (ss_keylib q) c = Inr data \<and> (\<exists>meta. CreateCertificate (ss_x509 q) tool certReq meta = Inr c \<and>
    cm_SerialNumber meta = serial)"
proof -
  let ?meta = "cm_Duration (cc_TTL req * 1000000000)
            \<lparr>cm_SerialNumber = serial, cm_StartTime = ss_now q, cm_ExpireTime = 0, cm_Version = 0, cm_SignerCert = caCert,
             cm_Signer = \<lparr>kp_PrivateKey = signer, kp_PublicKey = xl_public (ss_x509 q) signer\<rparr>\<rparr>"
  obtain c' where c: "CreateCertificate (ss_x509 q) tool certReq ?meta = Inr c'" "res_bind (EncodeCertificate (ss_keylib q) c') (\<lambda>data. Inr (c', data)) = Inr (c, data)"
    using assms unfolding issue_def Let_def by (cases "CreateCertificate (ss_x509 q) tool certReq ?meta") simp_all
  then show ?thesis by (auto simp: cm_Duration_def)
qed

text \<open>What a successful creation did.\<close>

lemma create_and_save_Json:
  assumes "create_and_save q req certName caName keyInfo s = Done (JsonObjRender StatusOK obj, s')"
  shows "\<exists>certReq caCert caKi caCerts sn s1 tool c serial signer data sn'.
    ss_LoadCertByName q caName CertLevelTypeIntermediateCA s = Inr (caCert, caKi) \<and>
    ca_chain q caCert s = Done (Inr caCerts) \<and> ss_NextCertSerialNumber q s = (sn, s1) \<and>
    usage_tool (cc_CertUsage req) = Inr tool \<and>
    issue q req tool certReq serial caCert signer = Done (Inr (c, data)) \<and>
    ss_SaveCert q certName (sn_of caCert) c keyInfo s1 = (Inr sn', s') \<and>
    obj = [(''cert'', JString (string_of data)),
      (''ca_list'', JStrings (map (\<lambda>c. string_of (kl_pem_encode (ss_keylib q) ''CERTIFICATE'' (xc_Raw c))) caCerts))]"
proof -
  have split_pair: "(case x of (a, b) \<Rightarrow> g a b) = y \<longleftrightarrow> (\<exists>a b. x = (a, b) \<and> g a b = y)" for x :: "'u \<times> 'v" and g and y :: 'w
    by (cases x) simp
  have "\<exists>certReq caCert caKi. ss_LoadCertByName q caName CertLevelTypeIntermediateCA s = Inr (caCert, caKi) \<and>
      (\<exists>signer caCerts. ca_chain q caCert s = Done (Inr caCerts) \<and>
        (\<exists>sn s1. ss_NextCertSerialNumber q s = (sn, s1) \<and>
          (\<exists>serial tool. usage_tool (cc_CertUsage req) = Inr tool \<and>
            (\<exists>c data. issue q req tool certReq serial caCert signer = Done (Inr (c, data)) \<and>
              (\<exists>res s2. ss_SaveCert q certName (sn_of caCert) c keyInfo s1 = (res, s2) \<and>
                on_ok (Done res) s2 (\<lambda>_. Done (NewJsonOkRender [(''cert'', JString (string_of data)),
                  (''ca_list'', JStrings (map (\<lambda>c. string_of (kl_pem_encode (ss_keylib q) ''CERTIFICATE'' (xc_Raw c))) caCerts))], s2)) =
                  Done (JsonObjRender StatusOK obj, s'))))))"
    using assms unfolding create_and_save_def encode_certs_eq
    by (simp only: on_ok_Json split_pair Let_def prod.case on_ok_simps) blast
  then obtain certReq caCert caKi signer caCerts sn s1 serial tool c data res s2 where h:
    "ss_LoadCertByName q caName CertLevelTypeIntermediateCA s = Inr (caCert, caKi)"
    "ca_chain q caCert s = Done (Inr caCerts)" "ss_NextCertSerialNumber q s = (sn, s1)" "usage_tool (cc_CertUsage req) = Inr tool"
    "issue q req tool certReq serial caCert signer = Done (Inr (c, data))" "ss_SaveCert q certName (sn_of caCert) c keyInfo s1 = (res, s2)"
    "on_ok (Done res) s2 (\<lambda>_. Done (NewJsonOkRender [(''cert'', JString (string_of data)),
       (''ca_list'', JStrings (map (\<lambda>c. string_of (kl_pem_encode (ss_keylib q) ''CERTIFICATE'' (xc_Raw c))) caCerts))], s2)) =
     Done (JsonObjRender StatusOK obj, s')"
    by (elim exE conjE) (rule that; assumption)
  obtain sn' where r: "res = Inr sn'" using h(7) by (cases res) simp_all
  have "s2 = s'" "obj = [(''cert'', JString (string_of data)),
       (''ca_list'', JStrings (map (\<lambda>c. string_of (kl_pem_encode (ss_keylib q) ''CERTIFICATE'' (xc_Raw c))) caCerts))]"
    using h(7) unfolding r by (simp_all add: NewJsonOkRender_def)
  then show ?thesis using h(1-6) unfolding r by blast
qed

text \<open>The serial number's query leaves the rows as they are.\<close>

lemma load_next:
  assumes "NextCertSerialNumber qe db = (r, db')"
  shows "LoadCertByName lib xl q n t db' = LoadCertByName lib xl q n t db" "LoadCertById lib xl q i db' = LoadCertById lib xl q i db"
    "LoadParentCertByCertId lib xl qs i db' = LoadParentCertByCertId lib xl qs i db"
  unfolding LoadCertByName_def LoadCertById_def LoadParentCertByCertId_def NextCertSerialNumber_rows [OF assms] by (rule refl)+

lemma managed_key_render:
  assumes "managed_key q k s = Done (Inl rd)"
  shows "rd \<noteq> JsonObjRender c obj"
proof (cases "ParseInt k")
  case (Inl e)
  then show ?thesis using assms by (auto simp: managed_key_def NewStatusRender_def split: if_splits)
next
  case (Inr n)
  have "k \<noteq> []" using assms by (auto simp: managed_key_def)
  then obtain x :: "(KeyType \<times> bytes) res" where "(case x of Inl e \<Rightarrow> Done (Inl (NewErrRender e))
        | Inr (t, _) \<Rightarrow>
            Done (if is_rsa t \<or> is_ecdsa t
                  then Inr \<lparr>ki_CertKeyLevel = CertKeyLevelLevel2Custom, ki_CertKeyId = k\<rparr>
                  else Inl (NewErrRender (Errorf ''unsupported key type'')))) = Done (Inl rd)"
    using assms Inr unfolding managed_key_def by auto
  then show ?thesis by (cases x) (auto simp: NewErrRender_def split: if_splits prod.splits)
qed

lemma CreateCert_Json:
  assumes "CreateCert_HandleHttp q r s = Done (JsonObjRender StatusOK obj, s')"
  shows "\<exists>req keyInfo. res_bind (rq_body r) (de_cert (ss_decode q)) = Inr req \<and>
    create_and_save q req (TrimSpace (cc_CertName req)) (TrimSpace (cc_CAName req)) keyInfo s = Done (JsonObjRender StatusOK obj, s')"
proof -
  obtain req :: createCertReq where req: "ParseBody (CertManageCreateCert q) r = Done (Inr req)"
    and h: "(let certName = TrimSpace (cc_CertName req); certReqData = cc_CertReqData req; caName = TrimSpace (cc_CAName req) in
     if certName = [] \<or> certReqData = [] \<or> caName = [] then Done (NewStatusRender StatusBadRequest, s)
     else if cc_CertUsage req \<noteq> ''server'' \<and> cc_CertUsage req \<noteq> ''client'' \<and> cc_CertUsage req \<noteq> ''both''
     then Done (NewStatusRender StatusBadRequest, s)
     else
       run_bind (managed_key q (cc_KeyId req) s) (\<lambda>res. case res of
         Inl rd \<Rightarrow> Done (rd, s)
       | Inr keyInfo \<Rightarrow> create_and_save q req certName caName keyInfo s)) = Done (JsonObjRender StatusOK obj, s')"
    using assms unfolding CreateCert_HandleHttp_def on_ok_Json by blast
  obtain res where res: "managed_key q (cc_KeyId req) s = Done res"
    "(case res of Inl rd \<Rightarrow> Done (rd, s)
       | Inr keyInfo \<Rightarrow> create_and_save q req (TrimSpace (cc_CertName req)) (TrimSpace (cc_CAName req)) keyInfo s) = Done (JsonObjRender StatusOK obj, s')"
    using h by (auto simp: Let_def NewStatusRender_def split: if_splits)
  have "rd \<noteq> JsonObjRender StatusOK obj" if "res = Inl rd" for rd
    by (rule managed_key_render) (use res(1) that in simp)
  then obtain keyInfo where "res = Inr keyInfo" using res(2) by (cases res) auto
  then show ?thesis using req res(2) by (auto simp: CertManageCreateCert_def json_parser_def)
qed


section \<open>An example\<close>

definition demo_decoders :: decoders where
  "demo_decoders = \<lparr>de_admin = \<lambda>_. Inl (Errorf []),
     de_new = \<lambda>_. Inr \<lparr>jn_Key = ''j'', jn_Alg = ''HS256'', jn_TTL = 10, jn_Permissions = [''read:jwt.verify'']\<rparr>,
     de_verify = \<lambda>_. Inr \<lparr>jv_Token = ''t1''\<rparr>,
     de_key = \<lambda>_. Inr \<lparr>nk_Type = ''AES'', nk_KeyScale = ''128'', nk_EncryptKeyName = ''l1''\<rparr>,
     de_cert = \<lambda>_. Inr \<lparr>cc_CAName = ''ca'', cc_TTL = 1, cc_CertName = ''leaf'', cc_CertReqData = ''r'', cc_CertUsage = ''server'', cc_KeyId = []\<rparr>,
     de_certreq = \<lambda>_. Inl (Errorf [])\<rparr>"

definition demo_env :: "bytes request_env" where
  "demo_env = \<lparr>re_now = 0, re_rng = demo_rng, re_store = demo_pgenv, re_key_query = \<lambda>_ _. None, re_cert_query = \<lambda>_ _. None,
     re_cert = demo_cert_env\<rparr>"

abbreviation demo_server :: "(bytes secret_state, bytes, bytes) SecretServerReq" where
  "demo_server \<equiv> pg_server demo_keylib demo_x509 demo_jwt demo_decoders demo_env"

definition demo_request :: http_request where
  "demo_request = \<lparr>rq_method = ''PUT'', rq_header = \<lambda>h. if h = ''Authorization'' then ''Bearer t1'' else ''application/json'',
     rq_body = Inr [], rq_param = \<lambda>x. if x = ''key_id'' then ''1'' else ''k'', rq_query = \<lambda>_. []\<rparr>"

lemma demo_fields: "re_store demo_env = demo_pgenv" "re_key_query demo_env = (\<lambda>_ _. None)" "rq_param demo_request ''key_id'' = ''1''"
  by (simp_all add: demo_env_def demo_request_def)

definition demo_marshal :: "json_obj \<Rightarrow> bytes res" where
  "demo_marshal obj = Inr []"

lemma demo_bearer: "bearer_token demo_request = Some ''t1''"
proof -
  have "TrimSpace ''Bearer t1'' = ''Bearer t1''" by (rule TrimSpace_plain_ends) (simp_all add: plain_char_def)
  moreover have "plain_text ''Bearer''" "plain_text ''t1''" by code_simp+
  ultimately show ?thesis by (simp add: bearer_token_def demo_request_def trim_plain_text)
qed

lemma demo_one: "FormatInt 1 = ''1''"
proof -
  have "digit_char 1 = CHR ''1''" by code_simp
  then show ?thesis by (simp add: FormatInt_def show_nat.simps [of "Suc 0"])
qed

lemma demo_token: "CHR ''t'' # FormatInt 1 = ''t1''"
  by (simp add: demo_one)

lemma demo_content: "AllowContentTypeFor [''application/json''] demo_request s = Done None"
proof -
  have "plain_text ''application/json''" by code_simp
  then show ?thesis by (simp add: AllowContentTypeFor_def demo_request_def trim_plain_text)
qed

text \<open>The token of the example, issued by the general route, verifies on the storage that holds its key.\<close>

lemma demo_verified:
  assumes "LoadL2DataKeyById demo_keylib (\<lambda>_. None) 1 p = Done (Inr (KeyGeneral64B, k))"
  shows "ss_VerifyJwt demo_server ''t1'' (p, d) = Done (Inr (map (\<lambda>(k, v). (k, through_json v)) demo_claims))"
proof -
  have "ParseInt ''1'' = Inr 1" using ParseInt_FormatInt [of 1] by (simp add: demo_one in_int64_def)
  then show ?thesis
    by (simp add: pg_server_def demo_env_def VerifyJwt_def VerifyJwtToken_def demo_jwt_def jwt_keyfunc_def keyIdVal_def assms
        jwtVerificationKeyMapping_def)
qed

lemma demo_carries: "carries (map (\<lambda>(k, v). (k, through_json v)) demo_claims) p \<longleftrightarrow> pd_ToString p = ''read:jwt.verify''"
proof -
  have "[Str_val ''read:jwt.verify''] = map Str_val ps \<longleftrightarrow> ps = [''read:jwt.verify'']" for ps by auto
  then show ?thesis by (auto simp: carries_def demo_claims_def JwtClaimsKeyPermissions_def)
qed

lemma demo_jwt_claims: "jwtlib_claims demo_jwt"
  unfolding jwtlib_claims_def
proof (intro allI impI)
  fix m hdr claims sk tok now k c v key
  assume s: "jl_sign demo_jwt m hdr claims sk = Inr tok" and v: "jl_verify demo_jwt now tok k = Inr (c, v)"
  have "claims = demo_claims" using s unfolding demo_jwt_def by (simp split: list.splits any_val.splits if_splits prod.splits)
  moreover have "c = map (\<lambda>(k, v). (k, through_json v)) demo_claims" using v unfolding demo_jwt_def by simp
  ultimately show "map_of c key = map_option through_json (map_of claims key)" by (simp add: map_of_map)
qed

lemma demo_jwt_storage: "\<exists>p. FetchL2DataKey demo_keylib (\<lambda>_. None) ''j'' p = Done (Inr (1, KeyGeneral64B, [1])) \<and>
    LoadL2DataKeyById demo_keylib (\<lambda>_. None) 1 p = Done (Inr (KeyGeneral64B, [1]))"
  using demo_first_key [OF General64B_name, of "''j''" "[1]"] by blast

theorem no_escalation_witness:
  "\<exists>p stub item resp. CreateNewJwt_HandleHttp demo_server demo_request (p, demo_cert_db) =
      Done (JsonObjRender StatusOK [(''token'', JString ''t1'')], (p, demo_cert_db)) \<and>
    initWriteApis demo_server = Inr stub \<and> item_at ''POST'' ''/api/v1/secret/jwt/admin/new'' stub = Some item \<and>
    generalHandler demo_marshal item demo_request (p, demo_cert_db) = Done (resp, (p, demo_cert_db)) \<and> rs_status resp \<in> {401, 415}"
proof -
  obtain p where p: "FetchL2DataKey demo_keylib (\<lambda>_. None) ''j'' p = Done (Inr (1, KeyGeneral64B, [1]))"
    "LoadL2DataKeyById demo_keylib (\<lambda>_. None) 1 p = Done (Inr (KeyGeneral64B, [1]))"
    using demo_jwt_storage by blast
  let ?s = "(p, demo_cert_db)"
  have g: "GetPermissionDef ''read:jwt.verify'' = Some SecretJwtVerify"
    by (simp add: GetPermissionDef_def allPermissions_def addPermissionDefMap_def pd_ToString_def permission_defs)
  have d: "SetupPermissions [] (prl_Add [SecretJwtVerify] []) = [(''permissions'', Strs [''read:jwt.verify''])]" "ttl_option 10 = demo_opt"
    by (simp_all add: SetupPermissions_def pd_ToString_def permission_defs JwtClaimsKeyPermissions_def ttl_option_def demo_opt_def)
  have ne: "\<not> pd_Equals SecretJwtVerify SecretJwtAdmin" by (simp add: pd_Equals_def permission_defs)
  have c: "CreateNewJwt_HandleHttp demo_server demo_request ?s = Done (JsonObjRender StatusOK [(''token'', JString ''t1'')], ?s)"
    using demo_SignJwt [OF p(1)]
    by (simp add: CreateNewJwt_HandleHttp_def JwtManageCreateNewJwt_def json_parser_def pg_server_def demo_decoders_def demo_request_def
        MaxPermissionsInSingleToken_def g ne d demo_env_def demo_token NewJsonOkRender_def)
  obtain stub where stub: "initWriteApis demo_server = Inr stub" "\<forall>m u. item_at m u stub = map_of (write_items demo_server) (m, u)"
    using initWriteApis_items by blast
  then obtain item where item: "item_at ''POST'' ''/api/v1/secret/jwt/admin/new'' stub = Some item"
    "it_RequestValidators item = json_with demo_server SecretJwtAdmin"
    by (simp add: write_items_def route_permissions_def standard_item_def)
  have "pd_ToString SecretJwtAdmin \<noteq> ''read:jwt.verify''" by (simp add: pd_ToString_def permission_defs)
  then have "VerifyPermissions (map (\<lambda>(k, v). (k, through_json v)) demo_claims) (prl_Add [SecretJwtAdmin] []) AnyPermissionOperator = Done False"
    unfolding VerifyPermissions_any by (intro exI [of _ "[''read:jwt.verify'']"]) (simp add: demo_claims_def JwtClaimsKeyPermissions_def)
  then have "ValidateJwtToken (ss_VerifyJwt demo_server) (prl_Add [SecretJwtAdmin] []) demo_request ?s = Done (Some (StatusRender 401))"
    using demo_verified [OF p(2)] by (simp add: ValidateJwtToken_eq demo_bearer VerifyPermissionsOnJwtToken_def)
  then have "run_validators (it_RequestValidators item) demo_request ?s = Done (Some (StatusRender 401))"
    by (simp add: item(2) json_with_def demo_content)
  then have h: "generalHandler demo_marshal item demo_request ?s = Done (status_only 401, ?s)" by (simp add: generalHandler_def)
  from no_escalation [OF demo_jwt_claims c _ demo_bearer stub(1) item(1) h] show ?thesis using c stub(1) item(1) h by blast
qed



lemma ECDSA256_name: "kt_String KeyECDSA256 = Done ''KeyECDSA256''"
  by (simp add: kt_String_def key_type_names_def key_types)

lemma demo_chain:
  "recursiveRetrieveCerts (\<lambda>n sn. LoadParentCertByCertId demo_keylib demo_x509 (\<lambda>_. None) sn demo_cert_db) 0 demo_ca ''65'' =
    Some (Inr [demo_root, demo_ca])"
proof -
  let ?p = "\<lambda>sn. LoadParentCertByCertId demo_keylib demo_x509 (\<lambda>_. None) sn demo_cert_db"
  have "ancestors ?p (sn_of demo_root) []" using demo_parent(2) demo_sn(1) by (auto intro: ancestors.anc_root)
  then have "ancestors ?p ''65'' [demo_root]" using demo_parent(1) by (auto intro: ancestors.anc_step)
  from retrieve_ancestors [OF this, of 0 demo_ca] show ?thesis by simp
qed

lemma demo_next: "NextCertSerialNumber None demo_cert_db = (Inr ''01'', demo_cert_db\<lparr>cd_seq := 17\<rparr>)"
  using demo_sn(3) by (simp add: NextCertSerialNumber_def demo_cert_db sn_FromInt64_def sn_of_def sn_FromBigInt_def sn_FromBytes_def
      demo_leaf_def demo_cert_def)

lemma demo_issue:
  assumes "usage_tool ''server'' = Inr tool" "ParseCertificateRequest demo_keylib demo_x509 b = Inr csr"
  shows "issue demo_server req tool csr 1 demo_ca k = Done (Inr (demo_leaf, [1]))"
proof -
  have u: "EndUserCertKeyUsage tool = 29" "EndUserCertExtKeyUsage tool = [1]"
    using assms(1) by (auto simp: usage_tool_def SetupDefaultServerCertKeyUsage_def KeyUsageDigitalSignature_def KeyUsageKeyEncipherment_def
        KeyUsageDataEncipherment_def KeyUsageKeyAgreement_def ExtKeyUsageServerAuth_def)
  have c: "xr_Subject csr = demo_name ''leaf''" "xr_DNSNames csr = [''a.example'']"
    using assms(2) by (auto simp: ParseCertificateRequest_def demo_keylib_def demo_x509_def)
  have "CreateCertificate demo_x509 tool csr meta = Inr demo_leaf" if "cm_SerialNumber meta = 1" for meta :: "(bytes, bytes) CertMeta"
    by (simp add: CreateCertificate_def cert_template_def demo_x509_def u c that)
  then show ?thesis
    by (simp add: issue_def pg_server_def cm_Duration_def EncodeCertificate_def) (simp add: demo_keylib_def demo_leaf_def demo_cert_def)
qed

lemma demo_save_leaf: "\<exists>d'. SaveCert demo_keylib demo_cert_env ''leaf'' ''65'' demo_leaf ki (demo_cert_db\<lparr>cd_seq := 17\<rparr>) = (Inr ''01'', d')"
  using demo_sn by (simp add: SaveCert_def saveInternal_def EncodeCertificate_def demo_cert_env_def cert_save_tx_def ok_unless_def demo_cert_db
      demo_root_db archive_def max_cert_version_def certs_named_def insert_cert_def cert_types cert_new_def sn_of_def)


end
