(* ===== verification/ConfigClient.thy ===== *)
theory ConfigClient
  imports ConfigHttp
begin

text \<open>
  The configuration client (\<open>configclient/client.go\<close>, \<open>client.adv.go\<close>): its options, the
  registration of the required configurations, the loop that asks a server for what has changed,
  and the containers that are kept up to date. \<open>'a\<close> is the state of the application that the
  callbacks change, \<open>'n\<close> that of the network; a step that holds the client's lock is atomic.
\<close>

section \<open>Options\<close>

record ClientOptions =
  co_SelectorEnvironment :: string
  co_SelectorDatacenter :: string
  co_SelectorNamespace :: string
  co_SelectorApp :: string
  co_SelectorCluster :: string
  co_SelectorHostName :: string
  co_SelectorBeta :: string
  co_OverrideSelectors :: "selectors option"
  co_OverrideOptionalSelectors :: "selectors option"
  co_Auth :: string
  co_LocalFallbackDataPath :: string
  co_AllowedLocalFallbackDataTTL :: int64
  co_AcquireFullConfigurationsInterval :: int64

text \<open>One selector: set when it is not blank, and then without the space around it.\<close>

definition put_selector :: "string \<Rightarrow> string \<Rightarrow> (string, string) gomap \<Rightarrow> (string, string) gomap" where
  "put_selector name v m = (if TrimSpace v \<noteq> [] then AList.update name (TrimSpace v) m else m)"

definition ToSelectors :: "ClientOptions \<Rightarrow> selectors" where
  "ToSelectors c =
     (case co_OverrideSelectors c of
        Some s \<Rightarrow> s
      | None \<Rightarrow>
          \<lparr>s_Data =
             put_selector ''cluster'' (co_SelectorCluster c)
            (put_selector ''app'' (co_SelectorApp c)
            (put_selector ''ns'' (co_SelectorNamespace c)
            (put_selector ''dc'' (co_SelectorDatacenter c)
            (put_selector ''env'' (co_SelectorEnvironment c) [])))),
           s_cached = []\<rparr>)"

definition ToOptSelectors :: "ClientOptions \<Rightarrow> selectors" where
  "ToOptSelectors c =
     (case co_OverrideOptionalSelectors c of
        Some s \<Rightarrow> s
      | None \<Rightarrow>
          \<lparr>s_Data =
             put_selector ''beta'' (co_SelectorBeta c)
            (put_selector ''host'' (co_SelectorHostName c) []),
           s_cached = []\<rparr>)"

section \<open>The client\<close>

text \<open>A callback may change the application, panic or block; \<open>None\<close> is the nil callback.\<close>

type_synonym 'a callback = "configuration \<Rightarrow> 'a \<Rightarrow> 'a run"

record 'a RequiredConfig =
  rc_Required :: RequestedConfigurationKey
  rc_Callback :: "'a callback option"

text \<open>\<open>cl_closed\<close> and \<open>cl_loaded\<close>: the channels \<open>closeCh\<close> and \<open>startupLoadCh\<close> are closed.\<close>

record 'a Client =
  cl_serverLists :: "string list"
  cl_opt :: ClientOptions
  cl_lockRequests :: bool
  cl_requests :: AcquireConfigurationReq
  cl_reqCallbacks :: "(string, 'a callback option) gomap"
  cl_closed :: bool
  cl_loaded :: bool

definition NewClient :: "string list \<Rightarrow> ClientOptions \<Rightarrow> 'a Client" where
  "NewClient serverList opt =
     \<lparr>cl_serverLists = serverList, cl_opt = opt, cl_lockRequests = False,
      cl_requests = \<lparr>aq_Requested = [], aq_Selectors = ToSelectors opt, aq_OptionalSelectors = ToOptSelectors opt\<rparr>,
      cl_reqCallbacks = [], cl_closed = False, cl_loaded = False\<rparr>"

definition GetConfigurationKey :: "RequestedConfigurationKey \<Rightarrow> string" where
  "GetConfigurationKey r = rk_Group r @ ''||'' @ rk_Key r"

definition GetConfigurationKeyFromCfg :: "configuration \<Rightarrow> string" where
  "GetConfigurationKeyFromCfg c = cfg_Group c @ ''||'' @ cfg_Key c"

text \<open>The map of callbacks is never nil: clients are made by \<open>NewClient\<close> only.\<close>

definition AddConfigurationRequirement :: "'a RequiredConfig \<Rightarrow> 'a Client \<Rightarrow> 'a Client run" where
  "AddConfigurationRequirement req c =
     (if cl_lockRequests c then Panic
      else
        let ckey = GetConfigurationKey (rc_Required req) in
        if map_of (cl_reqCallbacks c) ckey \<noteq> None then Panic
        else
          Done (c\<lparr>cl_requests := (cl_requests c)\<lparr>aq_Requested := aq_Requested (cl_requests c) @
                    [\<lparr>rk_Group = rk_Group (rc_Required req), rk_Key = rk_Key (rc_Required req), rk_Version = rk_Version (rc_Required req)\<rparr>]\<rparr>,
                  cl_reqCallbacks := AList.update ckey (rc_Callback req) (cl_reqCallbacks c)\<rparr>))"

definition StartClient :: "'a Client \<Rightarrow> unit res \<times> 'a Client" where
  "StartClient c = (Inr (), c\<lparr>cl_lockRequests := True\<rparr>)"

text \<open>A second \<open>StopClient\<close> closes a closed channel.\<close>

definition StopClient :: "'a Client \<Rightarrow> (unit res \<times> 'a Client) run" where
  "StopClient c = (if cl_closed c then Panic else Done (Inr (), c\<lparr>cl_lockRequests := False, cl_closed := True\<rparr>))"

definition suspend :: "'a Client \<Rightarrow> 'a Client" where
  "suspend c = c\<lparr>cl_lockRequests := False\<rparr>"

definition resume :: "'a Client \<Rightarrow> 'a Client" where
  "resume c = c\<lparr>cl_lockRequests := True\<rparr>"

definition isStartupConfigureLoaded :: "'a Client \<Rightarrow> bool" where
  "isStartupConfigureLoaded c = cl_loaded c"

definition markStartupConfigureLoaded :: "'a Client \<Rightarrow> 'a Client" where
  "markStartupConfigureLoaded c = (if \<not> isStartupConfigureLoaded c then c\<lparr>cl_loaded := True\<rparr> else c)"

definition ErrWaitStartupLoadedTimeout :: go_error where
  "ErrWaitStartupLoadedTimeout = Sentinel ''ErrWaitStartupLoadedTimeout''"

text \<open>
  The select of \<open>WaitStartupConfigureLoaded\<close>: it waits while neither channel is ready, and takes
  either case when both are (\<open>first\<close> says which).
\<close>

definition WaitStartupConfigureLoaded :: "bool \<Rightarrow> bool \<Rightarrow> 'a Client \<Rightarrow> unit res run" where
  "WaitStartupConfigureLoaded ctxDone first c =
     (if cl_loaded c \<and> (first \<or> \<not> ctxDone) then Done (Inr ())
      else if ctxDone then Done (Inl ErrWaitStartupLoadedTimeout)
      else Block)"

section \<open>A request\<close>

text \<open>What the client sees of a response.\<close>

record client_response =
  cp_status :: nat
  cp_header :: "string \<Rightarrow> string"
  cp_body :: "bytes res"

text \<open>
  The parts a request depends on: the CBOR codec, the choice of a server (\<open>rand.Intn\<close>, below its
  argument), the URLs \<open>http.NewRequest\<close> refuses, and the exchange itself (\<open>http.Client.Do\<close>).
\<close>

record 'n client_env =
  ce_marshal :: "AcquireConfigurationReq \<Rightarrow> bytes res"
  ce_unmarshal :: "bytes \<Rightarrow> configuration list res"
  ce_pick :: "nat \<Rightarrow> nat"
  ce_bad_url :: "string \<Rightarrow> go_error option"
  ce_do :: "string \<Rightarrow> http_request \<Rightarrow> 'n \<Rightarrow> (client_response res \<times> 'n) run"

definition retrieve_request :: "bytes \<Rightarrow> http_request" where
  "retrieve_request data =
     \<lparr>rq_method = ''POST'', rq_header = (\<lambda>h. if h = ''Accept'' then ''application/cbor'' else []), rq_body = Inr data,
      rq_param = (\<lambda>_. []), rq_query = (\<lambda>_. [])\<rparr>"

text \<open>How a response is read: \<open>None\<close> means nothing has changed.\<close>

definition read_response :: "(bytes \<Rightarrow> configuration list res) \<Rightarrow> client_response \<Rightarrow> configuration list option res" where
  "read_response unmarshal res =
     (if cp_status res = StatusNotModified then Inr None
      else if cp_status res \<noteq> StatusOK then Inl (Errorf ''unexpected status code'')
      else if cp_header res ''Content-Type'' \<noteq> ''application/cbor'' then Inl (Errorf ''invalid content-type'')
      else res_bind (cp_body res) (\<lambda>resBody. res_bind (unmarshal resBody) (\<lambda>result. Inr (Some result))))"

text \<open>\<open>rand.Intn(0)\<close> panics.\<close>

definition sendRetrieveRequest :: "'n client_env \<Rightarrow> 'a Client \<Rightarrow> 'n \<Rightarrow> (configuration list option res \<times> 'n) run" where
  "sendRetrieveRequest e c n =
     (case ce_marshal e (cl_requests c) of
        Inl er \<Rightarrow> Done (Inl er, n)
      | Inr data \<Rightarrow>
          if cl_serverLists c = [] then Panic
          else
            let url = cl_serverLists c ! ce_pick e (length (cl_serverLists c)) @ ''/retrieving'' in
            (case ce_bad_url e url of
               Some er \<Rightarrow> Done (Inl er, n)
             | None \<Rightarrow>
                 run_bind (ce_do e url (retrieve_request data) n) (\<lambda>(res, n).
                   Done (res_bind res (read_response (ce_unmarshal e)), n))))"

section \<open>The loop\<close>

text \<open>The new version is entered for every requirement of the configuration's group and key.\<close>

definition update_version :: "configuration \<Rightarrow> RequestedConfigurationKey \<Rightarrow> RequestedConfigurationKey" where
  "update_version v vv =
     (if rk_Group vv = cfg_Group v \<and> rk_Key vv = cfg_Key v then vv\<lparr>rk_Version := cfg_Version v\<rparr> else vv)"

definition update_versions :: "configuration \<Rightarrow> AcquireConfigurationReq \<Rightarrow> AcquireConfigurationReq" where
  "update_versions v req = req\<lparr>aq_Requested := map (update_version v) (aq_Requested req)\<rparr>"

definition call_back :: "(string, 'a callback option) gomap \<Rightarrow> configuration \<Rightarrow> 'a \<Rightarrow> 'a run" where
  "call_back cbs v a =
     (case map_of cbs (GetConfigurationKeyFromCfg v) of
        Some (Some callback) \<Rightarrow> callback v a
      | _ \<Rightarrow> Done a)"

definition trigger_update :: "configuration \<Rightarrow> 'a Client \<times> 'a \<Rightarrow> ('a Client \<times> 'a) run" where
  "trigger_update v = (\<lambda>(c, a).
     run_bind (call_back (cl_reqCallbacks c) v a) (\<lambda>a.
       Done (c\<lparr>cl_requests := update_versions v (cl_requests c)\<rparr>, a)))"

text \<open>The body of a turn, with the lock held: whether it was successful.\<close>

definition process_request :: "'n client_env \<Rightarrow> 'a Client \<Rightarrow> 'a \<Rightarrow> 'n \<Rightarrow> (bool \<times> 'a Client \<times> 'a \<times> 'n) run" where
  "process_request e c a n =
     (if \<not> cl_lockRequests c then Done (False, c, a, n)
      else if aq_Requested (cl_requests c) = [] then Done (False, c, a, n)
      else run_bind (sendRetrieveRequest e c n) (\<lambda>(res, n). case res of
          Inl er \<Rightarrow> Done (False, c, a, n)
        | Inr None \<Rightarrow> Done (True, c, a, n)
        | Inr (Some cfgs) \<Rightarrow>
            run_bind (run_fold trigger_update cfgs (c, a)) (\<lambda>(c, a). Done (True, c, a, n))))"

text \<open>One turn of \<open>processLoop\<close>; after \<open>Pause\<close> it sleeps for ten seconds.\<close>

datatype turn = Ended | Pause | Ready

definition process_turn :: "'n client_env \<Rightarrow> 'a Client \<Rightarrow> 'a \<Rightarrow> 'n \<Rightarrow> (turn \<times> 'a Client \<times> 'a \<times> 'n) run" where
  "process_turn e c a n =
     (if cl_closed c then Done (Ended, c, a, n)
      else run_bind (process_request e c a n) (\<lambda>(ready, c, a, n).
        if \<not> ready then Done (Pause, c, a, n)
        else Done (Ready, markStartupConfigureLoaded c, a, n)))"

section \<open>Containers\<close>

text \<open>What reflection sees of a type parameter; \<open>TNil\<close> is an interface, whose zero value has no type.\<close>

datatype go_type = TStruct string | TPtr go_type | TOther string | TNil

fun getStructType :: "go_type \<Rightarrow> go_type option" where
  "getStructType (TPtr t) = Some t"
| "getStructType _ = None"

definition checkStructPtr :: "go_type \<Rightarrow> bool run" where
  "checkStructPtr t =
     (case t of
        TNil \<Rightarrow> Panic
      | TPtr (TStruct _) \<Rightarrow> Done True
      | _ \<Rightarrow> Done False)"

text \<open>
  A container: the value that \<open>Get\<close> loads, whether \<open>OnChange\<close> is set, and the calls made to it so
  far. The application's state is the list of its containers, a container its index.
\<close>

record 'v ConfigContainer =
  cc_val :: 'v
  cc_OnChange :: bool
  cc_calls :: "(configuration \<times> 'v) list"

definition container_Get :: "nat \<Rightarrow> 'v ConfigContainer list \<Rightarrow> 'v" where
  "container_Get i a = cc_val (a ! i)"

text \<open>
  The callback of a container. The unmarshaler fills the new value and may fail after having
  filled a part of it; \<open>OnChange\<close> is called in either case.
\<close>

definition container_callback ::
  "(bytes \<Rightarrow> 'v \<Rightarrow> unit res \<times> 'v) \<Rightarrow> 'v \<Rightarrow> nat \<Rightarrow> 'v ConfigContainer list callback" where
  "container_callback unmarshaler newStructPtr i cfg a =
     (let (r, newInst) = unmarshaler (cfg_Value cfg) newStructPtr;
          cc = a ! i;
          cc = (if is_ok r then cc\<lparr>cc_val := newInst\<rparr> else cc);
          cc = (if cc_OnChange cc then cc\<lparr>cc_calls := cc_calls cc @ [(cfg, newInst)]\<rparr> else cc)
      in Done (a[i := cc]))"

text \<open>
  \<open>Register\<close> with the client's \<open>OnChange\<close>; the deferred \<open>resume\<close> also starts a client that
  has not been started. If the requirement is refused it panics.
\<close>

definition Register ::
  "go_type \<Rightarrow> 'v \<Rightarrow> bool \<Rightarrow> string \<Rightarrow> string \<Rightarrow> (bytes \<Rightarrow> 'v \<Rightarrow> unit res \<times> 'v) \<Rightarrow>
   'v ConfigContainer list Client \<Rightarrow> 'v ConfigContainer list \<Rightarrow>
   (nat res \<times> 'v ConfigContainer list Client \<times> 'v ConfigContainer list) run" where
  "Register dummy newStructPtr onChange grp key unmarshaler c a =
     run_bind (checkStructPtr dummy) (\<lambda>ok.
     if \<not> ok then Done (Inl (Errorf ''container parameter should be *struct type''), c, a)
     else
       let a' = a @ [\<lparr>cc_val = newStructPtr, cc_OnChange = onChange, cc_calls = []\<rparr>] in
       run_bind (AddConfigurationRequirement
           \<lparr>rc_Required = \<lparr>rk_Group = grp, rk_Key = key, rk_Version = []\<rparr>,
            rc_Callback = Some (container_callback unmarshaler newStructPtr (length a))\<rparr> (suspend c)) (\<lambda>c.
         Done (Inr (length a), resume c, a')))"

definition RegisterJsonContainer ::
  "(bytes \<Rightarrow> 'v \<Rightarrow> unit res \<times> 'v) \<Rightarrow> go_type \<Rightarrow> 'v \<Rightarrow> bool \<Rightarrow> string \<Rightarrow> string \<Rightarrow>
   'v ConfigContainer list Client \<Rightarrow> 'v ConfigContainer list \<Rightarrow>
   (nat res \<times> 'v ConfigContainer list Client \<times> 'v ConfigContainer list) run" where
  "RegisterJsonContainer json_unmarshal dummy newStructPtr onChange grp key =
     Register dummy newStructPtr onChange grp key json_unmarshal"

end
