(* ===== verification/ClientProps.thy ===== *)
theory ClientProps
  imports ConfigClient ConfigSync
begin

text \<open>
  Properties of the configuration client: its registry of requirements in every state it can
  reach, and its loop against the configuration server's own \<open>/retrieving\<close> handler.
\<close>

section \<open>The registry\<close>

definition req_ids :: "'a Client \<Rightarrow> string list" where
  "req_ids c = map GetConfigurationKey (aq_Requested (cl_requests c))"

definition client_ok :: "'a Client \<Rightarrow> bool" where
  "client_ok c \<longleftrightarrow> gomap_ok (cl_reqCallbacks c) \<and> distinct (req_ids c) \<and>
     set (req_ids c) = set (gokeys (cl_reqCallbacks c))"

text \<open>The steps of a client: its operations, and turns of its loop with any response (one turn makes at most one
  exchange, so a network without a state can give every response).\<close>

inductive client_step :: "'a Client \<Rightarrow> 'a Client \<Rightarrow> bool" where
  add: "AddConfigurationRequirement req c = Done c' \<Longrightarrow> client_step c c'"
| start: "StartClient c = (r, c') \<Longrightarrow> client_step c c'"
| stop: "StopClient c = Done (r, c') \<Longrightarrow> client_step c c'"
| suspend: "client_step c (suspend c)"
| resume: "client_step c (resume c)"
| turn: "process_turn (e :: unit client_env) c a n = Done (t, c', a', n') \<Longrightarrow> client_step c c'"

inductive client_reach :: "'a Client \<Rightarrow> bool" where
  new: "client_reach (NewClient serverList opt)"
| step: "client_reach c \<Longrightarrow> client_step c c' \<Longrightarrow> client_reach c'"

lemma update_version_ids [simp]:
  "rk_Group (update_version v r) = rk_Group r" "rk_Key (update_version v r) = rk_Key r"
  by (simp_all add: update_version_def)

lemma update_versions_parts [simp]:
  "map GetConfigurationKey (aq_Requested (update_versions v q)) = map GetConfigurationKey (aq_Requested q)"
  "aq_Selectors (update_versions v q) = aq_Selectors q"
  "aq_OptionalSelectors (update_versions v q) = aq_OptionalSelectors q"
  by (simp_all add: update_versions_def GetConfigurationKey_def)

lemma trigger_updates:
  "run_fold trigger_update cfgs (c, a) =
     run_bind (run_fold (call_back (cl_reqCallbacks c)) cfgs a) (\<lambda>a.
       Done (c\<lparr>cl_requests := fold update_versions cfgs (cl_requests c)\<rparr>, a))"
proof (induction cfgs arbitrary: c a)
  case Nil
  show ?case by simp
next
  case (Cons v cfgs)
  have t: "trigger_update v (c, a) = run_bind (call_back (cl_reqCallbacks c) v a) (\<lambda>a.
      Done (c\<lparr>cl_requests := update_versions v (cl_requests c)\<rparr>, a))" by (simp add: trigger_update_def)
  show ?case
    by (cases "call_back (cl_reqCallbacks c) v a") (simp_all add: t Cons.IH)
qed

lemma fold_update_versions [simp]:
  "map GetConfigurationKey (aq_Requested (fold update_versions vs q)) = map GetConfigurationKey (aq_Requested q)"
  "aq_Selectors (fold update_versions vs q) = aq_Selectors q"
  "aq_OptionalSelectors (fold update_versions vs q) = aq_OptionalSelectors q"
  by (induction vs arbitrary: q) simp_all

text \<open>What a turn can do to the client: versions, and the mark of the first success.\<close>

lemma process_turn_client:
  assumes "process_turn e c a n = Done (t, c', a', n')"
  shows "\<exists>vs l. c' = c\<lparr>cl_requests := fold update_versions vs (cl_requests c), cl_loaded := l\<rparr>"
proof -
  have same: "\<exists>vs l. c = c\<lparr>cl_requests := fold update_versions vs (cl_requests c), cl_loaded := l\<rparr>"
    by (intro exI [of _ "[]"] exI [of _ "cl_loaded c"]) simp
  have req: "\<exists>vs. c1 = c\<lparr>cl_requests := fold update_versions vs (cl_requests c)\<rparr>"
    if p: "process_request e c a n = Done (r, c1, a1, n1)" for r c1 a1 n1
  proof -
    have same: "c1 = c \<Longrightarrow> ?thesis" by (rule exI [of _ "[]"]) simp
    show ?thesis
    proof (cases "\<not> cl_lockRequests c \<or> aq_Requested (cl_requests c) = []")
      case True
      then show ?thesis using p same by (auto simp: process_request_def split: if_splits)
    next
      case False
      then obtain res n2 where send: "sendRetrieveRequest e c n = Done (res, n2)"
        using p by (auto simp: process_request_def)
      consider (no) "res = Inr None \<or> (\<exists>e. res = Inl e)" | (some) cfgs where "res = Inr (Some cfgs)"
        by (metis option.exhaust sum.exhaust)
      then show ?thesis
      proof cases
        case no
        then have "c1 = c" using p False send
          by (auto simp: process_request_def)
        then show ?thesis by (rule same)
      next
        case some
        then show ?thesis using p False send
          by (auto simp: process_request_def trigger_updates)
      qed
    qed
  qed
  show ?thesis
  proof (cases "cl_closed c")
    case True
    then show ?thesis using assms same by (simp add: process_turn_def)
  next
    case False
    then obtain r c1 a1 n1 where p: "process_request e c a n = Done (r, c1, a1, n1)"
      using assms by (auto simp: process_turn_def)
    have r: "c' = (if r then markStartupConfigureLoaded c1 else c1)"
      using assms False by (simp add: process_turn_def p split: if_splits)
    from req [OF p] obtain vs where vs: "c1 = c\<lparr>cl_requests := fold update_versions vs (cl_requests c)\<rparr>" by blast
    show ?thesis
      by (intro exI [of _ vs] exI [of _ "r \<or> cl_loaded c"])
        (simp add: r vs markStartupConfigureLoaded_def isStartupConfigureLoaded_def)
  qed
qed

lemma client_step_ok: "client_step c c' \<Longrightarrow> client_ok c \<Longrightarrow> client_ok c'"
proof (induction rule: client_step.induct)
  case (add req c c')
  let ?k = "GetConfigurationKey (rc_Required req)"
  from add(1) have c': "c' = c\<lparr>cl_requests := (cl_requests c)\<lparr>aq_Requested := aq_Requested (cl_requests c) @
        [\<lparr>rk_Group = rk_Group (rc_Required req), rk_Key = rk_Key (rc_Required req), rk_Version = rk_Version (rc_Required req)\<rparr>]\<rparr>,
      cl_reqCallbacks := AList.update ?k (rc_Callback req) (cl_reqCallbacks c)\<rparr>"
    and "map_of (cl_reqCallbacks c) ?k = None"
    by (simp_all add: AddConfigurationRequirement_def Let_def split: if_splits)
  moreover have ids: "req_ids c' = req_ids c @ [?k]" by (simp add: req_ids_def c' GetConfigurationKey_def)
  ultimately have "?k \<notin> set (req_ids c)" using add(2) by (auto simp: client_ok_def map_of_eq_None_iff)
  then show ?case using add(2)
    by (simp add: client_ok_def ids) (simp add: c' dom_update)
next
  case (turn e c a n t c' a' n')
  from process_turn_client [OF turn(1)] obtain vs l where
    "c' = c\<lparr>cl_requests := fold update_versions vs (cl_requests c), cl_loaded := l\<rparr>" by blast
  then have "req_ids c' = req_ids c" "cl_reqCallbacks c' = cl_reqCallbacks c" by (simp_all add: req_ids_def)
  then show ?case using turn(2) by (simp add: client_ok_def)
qed (auto simp: client_ok_def req_ids_def StartClient_def StopClient_def suspend_def resume_def split: if_splits)

lemma client_reach_ok: "client_reach c \<Longrightarrow> client_ok c"
  by (induction rule: client_reach.induct)
    (simp_all add: client_step_ok, simp add: client_ok_def req_ids_def NewClient_def)

section \<open>Against the server\<close>

text \<open>A \<open>/retrieving\<close> request served with nothing in between: if it has to wait, the timer ends it.\<close>

definition serve_retrieving ::
  "(bytes \<Rightarrow> AcquireConfigurationReq res) \<Rightarrow> (string \<Rightarrow> string \<Rightarrow> bool) \<Rightarrow> (configuration list \<Rightarrow> bytes res) \<Rightarrow>
   http_request \<Rightarrow> server \<Rightarrow> (http_response \<times> server) run" where
  "serve_retrieving unmarshal hu marshal r s =
     run_bind (handleRetrieveAndListen unmarshal hu r s) (\<lambda>(h, s). case h of
       Answered resp \<Rightarrow> Done (resp, s)
     | Listening ch cancelFn \<Rightarrow>
         (case listen_channel marshal ch cancelFn s of
            Some (resp, s) \<Rightarrow> Done (resp, s)
          | None \<Rightarrow> Done (listen_timeout cancelFn s)))"

definition received :: "http_response \<Rightarrow> client_response" where
  "received resp =
     \<lparr>cp_status = rs_status resp,
      cp_header = (\<lambda>h. case map_of (rs_headers resp) h of None \<Rightarrow> [] | Some v \<Rightarrow> v),
      cp_body = Inr (rs_body resp)\<rparr>"

definition server_env ::
  "(AcquireConfigurationReq \<Rightarrow> bytes res) \<Rightarrow> (bytes \<Rightarrow> AcquireConfigurationReq res) \<Rightarrow> (string \<Rightarrow> string \<Rightarrow> bool) \<Rightarrow>
   (configuration list \<Rightarrow> bytes res) \<Rightarrow> (bytes \<Rightarrow> configuration list res) \<Rightarrow> server client_env" where
  "server_env mreq ureq hu mres ures =
     \<lparr>ce_marshal = mreq, ce_unmarshal = ures, ce_pick = (\<lambda>_. 0), ce_bad_url = (\<lambda>_. None),
      ce_do = (\<lambda>url r s. run_bind (serve_retrieving ureq hu mres r s) (\<lambda>(resp, s). Done (Inr (received resp), s)))\<rparr>"

definition wire_req :: "AcquireConfigurationReq \<Rightarrow> AcquireConfigurationReq" where
  "wire_req q = q\<lparr>aq_Selectors := wire_sel (aq_Selectors q), aq_OptionalSelectors := wire_sel (aq_OptionalSelectors q)\<rparr>"

text \<open>Every configuration the server holds for a requested key has that group and key.\<close>

definition own_names :: "AcquireConfigurationReq \<Rightarrow> server \<Rightarrow> bool" where
  "own_names q s \<longleftrightarrow> (\<forall>v \<in> set (aq_Requested q). \<forall>cfg.
     GetConfigurationViaPlainRequest (rk_Group v) (rk_Key v) (sel_key (aq_Selectors q)) (sel_key (aq_OptionalSelectors q)) s = Inr cfg \<longrightarrow>
     cfg_Group cfg = rk_Group v \<and> cfg_Key cfg = rk_Key v)"

abbreviation looked :: "AcquireConfigurationReq \<Rightarrow> server \<Rightarrow> RequestedConfigurationKey \<Rightarrow> configuration res" where
  "looked q s v \<equiv> GetConfigurationViaPlainRequest (rk_Group v) (rk_Key v) (sel_key (aq_Selectors q)) (sel_key (aq_OptionalSelectors q)) s"

lemma wanted_Some:
  assumes "wanted hu q s = Some cs"
  shows "GetSelectorsGeneral (sv_map s) (sel_key (aq_Selectors q)) (sel_key (aq_OptionalSelectors q)) \<noteq> None"
    "v \<in> set (aq_Requested q) \<Longrightarrow> \<exists>c. looked q s v = Inr c"
    "c \<in> set cs \<longleftrightarrow> (\<exists>v \<in> set (aq_Requested q). looked q s v = Inr c \<and> hu (rk_Version v) (cfg_Version c))"
proof -
  from assms have w: "GetSelectorsGeneral (sv_map s) (sel_key (aq_Selectors q)) (sel_key (aq_OptionalSelectors q)) \<noteq> None"
    "\<forall>v \<in> set (aq_Requested q). is_ok (looked q s v)"
    "cs = concat (map (\<lambda>v. case looked q s v of
             Inr c \<Rightarrow> if hu (rk_Version v) (cfg_Version c) then [c] else [] | Inl _ \<Rightarrow> []) (aq_Requested q))"
    by (simp_all add: wanted_def Let_def split: if_splits)
  show "GetSelectorsGeneral (sv_map s) (sel_key (aq_Selectors q)) (sel_key (aq_OptionalSelectors q)) \<noteq> None" by (rule w(1))
  show "v \<in> set (aq_Requested q) \<Longrightarrow> \<exists>c. looked q s v = Inr c" using w(2) by (metis is_ok.elims(2))
  show "c \<in> set cs \<longleftrightarrow> (\<exists>v \<in> set (aq_Requested q). looked q s v = Inr c \<and> hu (rk_Version v) (cfg_Version c))"
    unfolding w(3) by (force split: sum.splits if_splits)
qed

lemma not_behind:
  assumes sel: "GetSelectorsGeneral (sv_map s) (sel_key (aq_Selectors q)) (sel_key (aq_OptionalSelectors q)) \<noteq> None"
    and look: "\<And>v. v \<in> set (aq_Requested q) \<Longrightarrow> \<exists>c. looked q s v = Inr c \<and> \<not> hu (rk_Version v) (cfg_Version c)"
  shows "wanted hu q s = Some []"
proof -
  have ok: "is_ok (looked q s v)" if "v \<in> set (aq_Requested q)" for v
    using look [OF that] by (elim exE conjE) simp
  have nil: "(case looked q s v of
      Inr c \<Rightarrow> if hu (rk_Version v) (cfg_Version c) then [c] else [] | Inl _ \<Rightarrow> []) = []" if "v \<in> set (aq_Requested q)" for v
    using look [OF that] by (elim exE conjE) simp
  have "concat (map (\<lambda>v. case looked q s v of
      Inr c \<Rightarrow> if hu (rk_Version v) (cfg_Version c) then [c] else [] | Inl _ \<Rightarrow> []) (aq_Requested q)) = []"
    using nil by simp
  moreover have "\<not> (GetSelectorsGeneral (sv_map s) (sel_key (aq_Selectors q)) (sel_key (aq_OptionalSelectors q)) = None \<or>
      (\<exists>v \<in> set (aq_Requested q). \<not> is_ok (looked q s v)))"
    using sel ok by blast
  ultimately show ?thesis unfolding wanted_def Let_def by (simp only: if_False)
qed

lemma fold_update_requested:
  "aq_Requested (fold update_versions vs q) = map (fold update_version vs) (aq_Requested q)"
  by (induction vs arbitrary: q) (simp_all add: update_versions_def)

lemma fold_update_version:
  assumes "\<forall>c \<in> set vs. cfg_Group c = rk_Group v \<and> cfg_Key c = rk_Key v \<longrightarrow> cfg_Version c = w"
  shows "fold update_version vs v =
    (if \<exists>c \<in> set vs. cfg_Group c = rk_Group v \<and> cfg_Key c = rk_Key v then v\<lparr>rk_Version := w\<rparr> else v)"
  using assms
proof (induction vs arbitrary: v)
  case Nil
  show ?case by simp
next
  case (Cons c vs)
  then show ?case by (cases "rk_Group v = cfg_Group c \<and> rk_Key v = cfg_Key c") (auto simp: update_version_def)
qed

lemma wire_parts [simp]:
  "cfg_Group (wire c) = cfg_Group c" "cfg_Key (wire c) = cfg_Key c" "cfg_Version (wire c) = cfg_Version c"
  by (simp_all add: wire_def)

text \<open>A client that enters the versions it was sent is no longer behind.\<close>

lemma updated_not_behind:
  assumes "\<forall>v. \<not> hu v v" "wanted hu q s = Some cs" "own_names q s" "q' = fold update_versions (map wire cs) q" "sv_map s' = sv_map s"
  shows "wanted hu q' s' = Some []"
proof -
  have sel: "sel_key (aq_Selectors q') = sel_key (aq_Selectors q)" "sel_key (aq_OptionalSelectors q') = sel_key (aq_OptionalSelectors q)"
    by (simp_all add: assms(4))
  have look: "looked q' s' v = looked q s v" for v by (simp add: sel plain_cong [OF assms(5)])
  have new: "\<exists>c. looked q' s' v' = Inr c \<and> \<not> hu (rk_Version v') (cfg_Version c)" if v': "v' \<in> set (aq_Requested q')" for v'
  proof -
    obtain v where v: "v \<in> set (aq_Requested q)" "v' = fold update_version (map wire cs) v"
      using v' unfolding assms(4) fold_update_requested set_map by blast
    obtain c where c: "looked q s v = Inr c" using wanted_Some(2) [OF assms(2) v(1)] by blast
    have own: "cfg_Group d = rk_Group u \<and> cfg_Key d = rk_Key u" if "u \<in> set (aq_Requested q)" "looked q s u = Inr d" for u d
      using assms(3) that by (simp add: own_names_def)
    have same: "d = c" if d: "d \<in> set cs" "cfg_Group d = rk_Group v" "cfg_Key d = rk_Key v" for d
    proof -
      obtain u where u: "u \<in> set (aq_Requested q)" "looked q s u = Inr d" using d(1) wanted_Some(3) [OF assms(2)] by blast
      with own [OF u] d(2,3) c show ?thesis by simp
    qed
    have "(\<exists>d \<in> set (map wire cs). cfg_Group d = rk_Group v \<and> cfg_Key d = rk_Key v) \<longleftrightarrow> c \<in> set cs"
    proof
      assume "c \<in> set cs"
      then have "wire c \<in> set (map wire cs)" by simp
      moreover have "cfg_Group (wire c) = rk_Group v \<and> cfg_Key (wire c) = rk_Key v" using own [OF v(1) c] by simp
      ultimately show "\<exists>d \<in> set (map wire cs). cfg_Group d = rk_Group v \<and> cfg_Key d = rk_Key v" by blast
    next
      assume "\<exists>d \<in> set (map wire cs). cfg_Group d = rk_Group v \<and> cfg_Key d = rk_Key v"
      then obtain d where "d \<in> set cs" "cfg_Group d = rk_Group v" "cfg_Key d = rk_Key v" by auto
      with same show "c \<in> set cs" by blast
    qed
    moreover have "\<forall>d \<in> set (map wire cs). cfg_Group d = rk_Group v \<and> cfg_Key d = rk_Key v \<longrightarrow> cfg_Version d = cfg_Version c"
      using same by auto
    ultimately have eq: "v' = (if c \<in> set cs then v\<lparr>rk_Version := cfg_Version c\<rparr> else v)"
      using fold_update_version [of "map wire cs" v "cfg_Version c"] v(2) by simp
    have "looked q' s' v' = Inr c" by (simp add: look eq c)
    moreover have "\<not> hu (rk_Version v') (cfg_Version c)"
    proof (cases "c \<in> set cs")
      case False
      then show ?thesis using wanted_Some(3) [OF assms(2), of c] c v(1) by (auto simp: eq)
    qed (simp add: eq assms(1))
    ultimately show ?thesis by blast
  qed
  show ?thesis
  proof (rule not_behind)
    show "GetSelectorsGeneral (sv_map s') (sel_key (aq_Selectors q')) (sel_key (aq_OptionalSelectors q')) \<noteq> None"
      unfolding sel assms(5) by (rule wanted_Some(1) [OF assms(2)])
  qed (rule new)
qed

lemma fold_wire_req: "wire_req (fold update_versions vs q) = fold update_versions vs (wire_req q)"
proof (induction vs arbitrary: q)
  case (Cons v vs)
  have "wire_req (update_versions v q) = update_versions v (wire_req q)" by (simp add: wire_req_def update_versions_def)
  then show ?case by (simp add: Cons.IH)
qed simp

section \<open>Properties\<close>

text \<open>C26. The registry of a client is well formed in every state it reaches, through registrations,
  starts, stops, suspensions and turns of the loop: the requested keys are distinct, and each
  has exactly one callback entry; so a requirement that is in the registry is refused.\<close>

theorem client_registry:
  assumes "client_reach c"
  shows "distinct (map GetConfigurationKey (aq_Requested (cl_requests c))) \<and>
    (r \<in> set (aq_Requested (cl_requests c)) \<longrightarrow>
       map_of (cl_reqCallbacks c) (GetConfigurationKey r) \<noteq> None \<and>
       AddConfigurationRequirement \<lparr>rc_Required = r, rc_Callback = cb\<rparr> c = Panic)"
proof -
  have ok: "client_ok c" by (rule client_reach_ok [OF assms])
  have "map_of (cl_reqCallbacks c) (GetConfigurationKey r) \<noteq> None" if "r \<in> set (aq_Requested (cl_requests c))"
    using that ok by (auto simp: client_ok_def req_ids_def map_of_eq_None_iff)
  then show ?thesis using ok by (auto simp: client_ok_def req_ids_def AddConfigurationRequirement_def Let_def)
qed

text \<open>C16. A client that is behind catches up in one turn: if every key it requires is known to the
  server and some are newer there, a turn of its loop against the server's handler hands each
  newer configuration, in the order of the request, to the callback registered for it, marks the
  start-up as loaded, and leaves versions with which the server has nothing more to send. (The
  codecs give back what they encoded, the callbacks return, and the server holds configurations
  under their own names.)\<close>

theorem client_catches_up:
  assumes "client_reach c" "cl_lockRequests c" "\<not> cl_closed c" "cl_serverLists c \<noteq> []"
    and "\<forall>k cb cfg a. map_of (cl_reqCallbacks c) k = Some (Some cb) \<longrightarrow> (\<exists>a'. cb cfg a = Done a')"
    and "chan_inv (sv_map s) (sv_chans s)" "\<forall>v. \<not> hu v v" "own_names (wire_req (cl_requests c)) s"
    and "wanted hu (wire_req (cl_requests c)) s = Some cs" "cs \<noteq> []"
    and "mreq (cl_requests c) = Inr body" "ureq body = Inr (wire_req (cl_requests c))"
    and "mres cs = Inr out" "ures out = Inr (map wire cs)"
  shows "\<exists>c' a' s'. process_turn (server_env mreq ureq hu mres ures) c a s = Done (Ready, c', a', s') \<and>
    run_fold (call_back (cl_reqCallbacks c)) (map wire cs) a = Done a' \<and>
    (\<forall>cfg \<in> set cs. map_of (cl_reqCallbacks c) (GetConfigurationKeyFromCfg cfg) \<noteq> None) \<and>
    isStartupConfigureLoaded c' \<and> wanted hu (wire_req (cl_requests c')) s' = Some []"
proof -
  let ?q = "wire_req (cl_requests c)"
  let ?e = "server_env mreq ureq hu mres ures"
  have ne: "aq_Requested (cl_requests c) \<noteq> []"
    using assms(9,10) by (auto simp: wanted_def wire_req_def Let_def split: if_splits)
  obtain ch s1 s2 where h: "handleRetrieveAndListen ureq hu (retrieve_request body) s = Done (Listening ch CancelNothing, s1)"
    "listen_channel mres ch CancelNothing s1 =
      Some (\<lparr>rs_status = 200, rs_headers = [(''Content-Type'', ''application/cbor'')], rs_body = out\<rparr>, s2)"
    "sv_map s2 = sv_map s"
    using retrieving_answers [where hu = hu and s = s and r = "retrieve_request body" and body = body and unmarshal = ureq and
        req = ?q and cs = cs and marshal = mres and out = out] assms(6,9,10,12,13)
    by (auto simp: retrieve_request_def)
  have send: "sendRetrieveRequest ?e c s = Done (Inr (Some (map wire cs)), s2)"
    using assms(4,11,14)
    by (simp add: sendRetrieveRequest_def server_env_def serve_retrieving_def h received_def read_response_def http_status)
  have reg: "map_of (cl_reqCallbacks c) (GetConfigurationKeyFromCfg cfg) \<noteq> None" if c: "cfg \<in> set cs" for cfg
  proof -
    obtain v where v: "v \<in> set (aq_Requested ?q)" "looked ?q s v = Inr cfg"
      using wanted_Some(3) [OF assms(9)] c by blast
    then have "GetConfigurationKeyFromCfg cfg = GetConfigurationKey v"
      using assms(8) by (auto simp: own_names_def GetConfigurationKeyFromCfg_def GetConfigurationKey_def)
    moreover have "GetConfigurationKey v \<in> set (req_ids c)" using v(1) by (auto simp: req_ids_def wire_req_def)
    ultimately show ?thesis using client_reach_ok [OF assms(1)] by (simp add: client_ok_def map_of_eq_None_iff)
  qed
  have cb: "\<exists>a'. call_back (cl_reqCallbacks c) cfg a = Done a'" for cfg a
    by (cases "map_of (cl_reqCallbacks c) (GetConfigurationKeyFromCfg cfg)") (auto simp: call_back_def assms(5) split: option.split)
  obtain a' where a': "run_fold (call_back (cl_reqCallbacks c)) (map wire cs) a = Done a'"
    using run_fold_Done [of "map wire cs" "\<lambda>_. True" "call_back (cl_reqCallbacks c)" a] cb by auto
  let ?c = "c\<lparr>cl_requests := fold update_versions (map wire cs) (cl_requests c)\<rparr>"
  have "process_turn ?e c a s = Done (Ready, markStartupConfigureLoaded ?c, a', s2)"
    using assms(2,3) ne by (simp add: process_turn_def process_request_def send trigger_updates a' del: fold_map)
  moreover have "wire_req (fold update_versions (map wire cs) (cl_requests c)) = fold update_versions (map wire cs) ?q"
    by (rule fold_wire_req)
  ultimately show ?thesis
    using updated_not_behind [OF assms(7,9,8) refl h(3)] a' reg
    by (auto simp: markStartupConfigureLoaded_def isStartupConfigureLoaded_def simp del: fold_map)
qed

section \<open>Examples\<close>

definition demo_options :: ClientOptions where
  "demo_options = \<lparr>co_SelectorEnvironment = [], co_SelectorDatacenter = [], co_SelectorNamespace = [], co_SelectorApp = [],
     co_SelectorCluster = [], co_SelectorHostName = [], co_SelectorBeta = [], co_OverrideSelectors = None,
     co_OverrideOptionalSelectors = None, co_Auth = [], co_LocalFallbackDataPath = [], co_AllowedLocalFallbackDataTTL = 0,
     co_AcquireFullConfigurationsInterval = 0\<rparr>"

definition demo_required :: "configuration list RequiredConfig" where
  "demo_required = \<lparr>rc_Required = \<lparr>rk_Group = ''g'', rk_Key = ''a'', rk_Version = ''0''\<rparr>, rc_Callback = Some (\<lambda>cfg a. Done (a @ [cfg]))\<rparr>"

definition demo_client :: "configuration list Client" where
  "demo_client = \<lparr>cl_serverLists = [''http://s''], cl_opt = demo_options, cl_lockRequests = True,
     cl_requests = \<lparr>aq_Requested = [rc_Required demo_required], aq_Selectors = selectors_zero, aq_OptionalSelectors = selectors_zero\<rparr>,
     cl_reqCallbacks = [(''g||a'', rc_Callback demo_required)], cl_closed = False, cl_loaded = False\<rparr>"

lemma demo_client_reach: "client_reach demo_client" "client_reach (suspend demo_client)"
proof -
  let ?c = "demo_client\<lparr>cl_lockRequests := False\<rparr>"
  have new: "NewClient [''http://s''] demo_options = ?c\<lparr>cl_requests := (cl_requests ?c)\<lparr>aq_Requested := []\<rparr>, cl_reqCallbacks := []\<rparr>"
    by (simp add: NewClient_def demo_client_def ToSelectors_def ToOptSelectors_def demo_options_def put_selector_def selectors_zero_def)
  have "AddConfigurationRequirement demo_required (NewClient [''http://s''] demo_options) = Done ?c"
    by (simp add: new AddConfigurationRequirement_def GetConfigurationKey_def demo_client_def demo_required_def)
  from client_reach.step [OF client_reach.new client_step.add [OF this]] have "client_reach ?c" .
  from client_reach.step [OF this client_step.start [OF StartClient_def]]
  show reach: "client_reach demo_client" by (simp add: demo_client_def)
  show "client_reach (suspend demo_client)" by (rule client_reach.step [OF reach client_step.suspend])
qed

theorem client_registry_witness:
  "distinct (map GetConfigurationKey (aq_Requested (cl_requests (suspend demo_client)))) \<and>
   AddConfigurationRequirement \<lparr>rc_Required = rc_Required demo_required, rc_Callback = None\<rparr> (suspend demo_client) = Panic"
proof -
  have "rc_Required demo_required \<in> set (aq_Requested (cl_requests (suspend demo_client)))"
    by (simp add: suspend_def demo_client_def)
  with client_registry [OF demo_client_reach(2)] show ?thesis by blast
qed

lemma demo_client_req: "wire_req (cl_requests demo_client) =
    (demo_req [''a''])\<lparr>aq_Requested := [\<lparr>rk_Group = ''g'', rk_Key = ''a'', rk_Version = ''0''\<rparr>]\<rparr>"
  by (simp add: wire_req_def demo_client_def demo_required_def demo_req_def wire_sel_def selectors_zero_def)

theorem client_catches_up_witness:
  "\<exists>c' s'. process_turn (server_env (\<lambda>_. Inr []) (\<lambda>_. Inr (wire_req (cl_requests demo_client))) DefaultHasUpdate (\<lambda>_. Inr [1])
      (\<lambda>_. Inr [wire (demo_cfg ''a'' ''1'')])) demo_client [] (sy_srv demo_start) =
     Done (Ready, c', [wire (demo_cfg ''a'' ''1'')], s') \<and>
   wanted DefaultHasUpdate (wire_req (cl_requests c')) s' = Some []"
proof -
  have w: "wanted DefaultHasUpdate (wire_req (cl_requests demo_client)) (sy_srv demo_start) = Some [demo_cfg ''a'' ''1'']"
    unfolding demo_client_req by (rule demo_wanted)
  have own: "own_names (wire_req (cl_requests demo_client)) (sy_srv demo_start)"
    unfolding demo_client_req by (simp add: own_names_def demo_req_def demo_lookup demo_cfg_fields)
  have key: "GetConfigurationKeyFromCfg (wire (demo_cfg ''a'' ''1'')) = ''g||a''"
    by (simp add: GetConfigurationKeyFromCfg_def demo_cfg_fields)
  have cb: "\<forall>k cb cfg a. map_of (cl_reqCallbacks demo_client) k = Some (Some cb) \<longrightarrow> (\<exists>a'. cb cfg a = Done a')"
    by (simp add: demo_client_def demo_required_def)
  have irr: "\<forall>v. \<not> DefaultHasUpdate v v" by (simp add: DefaultHasUpdate_def)
  have live: "cl_lockRequests demo_client" "\<not> cl_closed demo_client" "cl_serverLists demo_client \<noteq> []"
    by (simp_all add: demo_client_def)
  have run: "run_fold (call_back (cl_reqCallbacks demo_client)) (map wire [demo_cfg ''a'' ''1'']) [] = Done [wire (demo_cfg ''a'' ''1'')]"
    using key by (simp add: call_back_def demo_client_def demo_required_def)
  from client_catches_up [OF demo_client_reach(1) live cb demo_start_inv irr own w, of "\<lambda>_. Inr []" "[]" "\<lambda>_. Inr (wire_req (cl_requests demo_client))"
      "\<lambda>_. Inr [1]" "[1]" "\<lambda>_. Inr [wire (demo_cfg ''a'' ''1'')]" "[]"]
  obtain c' a' s' where "process_turn (server_env (\<lambda>_. Inr []) (\<lambda>_. Inr (wire_req (cl_requests demo_client))) DefaultHasUpdate (\<lambda>_. Inr [1])
      (\<lambda>_. Inr [wire (demo_cfg ''a'' ''1'')])) demo_client [] (sy_srv demo_start) = Done (Ready, c', a', s')"
    "run_fold (call_back (cl_reqCallbacks demo_client)) (map wire [demo_cfg ''a'' ''1'']) [] = Done a'"
    "wanted DefaultHasUpdate (wire_req (cl_requests c')) s' = Some []" by auto
  with run show ?thesis by auto
qed

end
