(* ===== verification/EnvClient.thy ===== *)
theory EnvClient
  imports ConfigApi GoScan
begin

text \<open>
  The client of the environment (\<open>configclient/client.special.go\<close>): the variables as a map, the
  typed reads, the defaults, and the client that ignores the case of names.
\<close>

definition ErrNoSuchEnvironmentVariable :: go_error where
  "ErrNoSuchEnvironmentVariable = Sentinel ''ErrNoSuchEnvironmentVariable''"

definition ErrHasDuplicatedKeysWithDifferentCaseFormat :: go_error where
  "ErrHasDuplicatedKeysWithDifferentCaseFormat = Sentinel ''ErrHasDuplicatedKeysWithDifferentCaseFormat''"

record EnvClient =
  ec_envs :: "(string, string) gomap"
  ec_inputKeyTransform :: "string \<Rightarrow> string"
  ec_parserWarning :: "go_error option"

text \<open>The entries of \<open>os.Environ\<close>; one without an equals sign panics.\<close>

definition add_env :: "string \<Rightarrow> (string, string) gomap \<Rightarrow> (string, string) gomap run" where
  "add_env v envs =
     (case Index (CHR ''='') v of
        None \<Rightarrow> Panic
      | Some i \<Rightarrow> Done (AList.update (take i v) (drop (i + 1) v) envs))"

definition NewEnvClient :: "string list \<Rightarrow> EnvClient run" where
  "NewEnvClient environ =
     run_bind (run_fold add_env environ []) (\<lambda>envs.
       Done \<lparr>ec_envs = envs, ec_inputKeyTransform = (\<lambda>key. key), ec_parserWarning = None\<rparr>)"

definition ParserWarning :: "EnvClient \<Rightarrow> go_error option" where
  "ParserWarning e = ec_parserWarning e"

definition GetString :: "string \<Rightarrow> EnvClient \<Rightarrow> string res" where
  "GetString key c =
     (case map_of (ec_envs c) (ec_inputKeyTransform c key) of
        None \<Rightarrow> Inl ErrNoSuchEnvironmentVariable
      | Some value \<Rightarrow> Inr value)"

text \<open>\<open>int\<close> has 64 bits, so \<open>strconv.Atoi\<close> accepts what \<open>ParseInt\<close> to base 10 does.\<close>

definition GetInt :: "string \<Rightarrow> EnvClient \<Rightarrow> int res" where
  "GetInt key c =
     (case map_of (ec_envs c) (ec_inputKeyTransform c key) of
        None \<Rightarrow> Inl ErrNoSuchEnvironmentVariable
      | Some value \<Rightarrow> ParseInt value)"

text \<open>\<open>strconv.ParseBool\<close>.\<close>

definition ParseBool :: "string \<Rightarrow> bool res" where
  "ParseBool s =
     (if s \<in> set [''1'', ''t'', ''T'', ''TRUE'', ''true'', ''True''] then Inr True
      else if s \<in> set [''0'', ''f'', ''F'', ''FALSE'', ''false'', ''False''] then Inr False
      else Inl ErrSyntax)"

definition GetBool :: "string \<Rightarrow> EnvClient \<Rightarrow> bool res" where
  "GetBool key c =
     (case map_of (ec_envs c) (ec_inputKeyTransform c key) of
        None \<Rightarrow> Inl ErrNoSuchEnvironmentVariable
      | Some value \<Rightarrow> ParseBool value)"

text \<open>\<open>strconv.ParseFloat\<close> is a parameter.\<close>

definition GetFloat :: "(string \<Rightarrow> 'f res) \<Rightarrow> string \<Rightarrow> EnvClient \<Rightarrow> 'f res" where
  "GetFloat parseFloat key c =
     (case map_of (ec_envs c) (ec_inputKeyTransform c key) of
        None \<Rightarrow> Inl ErrNoSuchEnvironmentVariable
      | Some value \<Rightarrow> parseFloat value)"

definition GetInt64 :: "string \<Rightarrow> EnvClient \<Rightarrow> int res" where
  "GetInt64 key c =
     (case map_of (ec_envs c) (ec_inputKeyTransform c key) of
        None \<Rightarrow> Inl ErrNoSuchEnvironmentVariable
      | Some value \<Rightarrow> ParseInt value)"

definition Must :: "'v res \<Rightarrow> 'v run" where
  "Must r = (case r of Inl e \<Rightarrow> Panic | Inr val \<Rightarrow> Done val)"

text \<open>\<open>MustDefault(dv).On\<close>: the default for a missing variable only.\<close>

definition On :: "'v \<Rightarrow> 'v res \<Rightarrow> 'v run" where
  "On dv r =
     (case r of
        Inl e \<Rightarrow> if e = ErrNoSuchEnvironmentVariable then Done dv else Panic
      | Inr val \<Rightarrow> Done val)"

text \<open>The map is ranged over in some order, that of the list; the last of the equal names stays.\<close>

definition CaseInsensitive :: "EnvClient \<Rightarrow> EnvClient" where
  "CaseInsensitive c =
     (let envs = fold (\<lambda>(k, v). AList.update (ToLower k) v) (ec_envs c) []
      in \<lparr>ec_envs = envs, ec_inputKeyTransform = ToLower,
          ec_parserWarning = (if length (ec_envs c) \<noteq> length envs then Some ErrHasDuplicatedKeysWithDifferentCaseFormat else None)\<rparr>)"

section \<open>Lemmas\<close>

lemma length_gomap: "gomap_ok m \<Longrightarrow> length m = card (set (gokeys m))"
  by (metis distinct_card gomap_ok_def length_map)

lemma keys_lowered: "set (gokeys (fold (\<lambda>(k, v). AList.update (ToLower k) v) kvs m)) = set (gokeys m) \<union> ToLower ` set (gokeys kvs)"
proof (induction kvs arbitrary: m)
  case (Cons p kvs)
  obtain k v where p: "p = (k, v)" by (cases p)
  have "set (gokeys (AList.update (ToLower k) v m)) = {ToLower k} \<union> set (gokeys m)" by (simp add: dom_update)
  then show ?case by (simp only: p fold_simps prod.case Cons.IH list.map fst_conv list.set image_insert Un_insert_left Un_insert_right) simp
qed simp

lemma ok_lowered: "gomap_ok m \<Longrightarrow> gomap_ok (fold (\<lambda>(k, v). AList.update (ToLower k) v) kvs m)"
  by (induction kvs arbitrary: m) auto

lemma map_lowered:
  "ToLower k \<notin> ToLower ` set (gokeys kvs) \<Longrightarrow>
   map_of (fold (\<lambda>(k, v). AList.update (ToLower k) v) kvs m) (ToLower k) = map_of m (ToLower k)"
  by (induction kvs arbitrary: m) (auto simp: update_conv')

lemma map_lowered_in:
  assumes "gomap_ok kvs" "inj_on ToLower (set (gokeys kvs))" "map_of kvs k = Some v"
  shows "map_of (fold (\<lambda>(k, v). AList.update (ToLower k) v) kvs m) (ToLower k) = Some v"
  using assms
proof (induction kvs arbitrary: m)
  case Nil
  then show ?case by simp
next
  case (Cons p kvs)
  obtain k' v' where p: "p = (k', v')" by (cases p)
  show ?case
  proof (cases "k = k'")
    case True
    then have "v' = v" using Cons.prems(3) p by simp
    have "k \<notin> set (gokeys kvs)" using Cons.prems(1) p True by (simp add: gomap_ok_def)
    then have "ToLower k \<notin> ToLower ` set (gokeys kvs)"
      using Cons.prems(2) p True by (auto simp: inj_on_def image_iff)
    from map_lowered [OF this] show ?thesis by (simp add: p True \<open>v' = v\<close> update_conv')
  next
    case False
    have "gomap_ok kvs" "inj_on ToLower (set (gokeys kvs))" "map_of kvs k = Some v"
      using Cons.prems p False by (auto simp: gomap_ok_def inj_on_insert)
    from Cons.IH [OF this] show ?thesis by (simp add: p)
  qed
qed

lemma NewEnvClient_ok: "NewEnvClient environ = Done c \<Longrightarrow> gomap_ok (ec_envs c)"
proof -
  have "run_fold add_env environ m = Done m' \<Longrightarrow> gomap_ok m \<Longrightarrow> gomap_ok m'" for m m'
    by (erule run_fold_inv [where I = gomap_ok, rotated 2]) (auto simp: add_env_def split: option.splits)
  then show "NewEnvClient environ = Done c \<Longrightarrow> gomap_ok (ec_envs c)"
    by (auto simp: NewEnvClient_def)
qed

section \<open>Properties\<close>

text \<open>The client that ignores the case warns exactly if two variables differ in the case of
  their names only; without the warning, every spelling of a variable's name reads its value,
  and a name that is no spelling of any gives the error for a missing variable.\<close>

theorem case_insensitive_reads:
  assumes "NewEnvClient environ = Done c"
  shows "(ParserWarning (CaseInsensitive c) = None \<longleftrightarrow> inj_on ToLower (set (gokeys (ec_envs c)))) \<and>
    (ParserWarning (CaseInsensitive c) = None \<longrightarrow> GetString k c = Inr v \<longrightarrow> ToLower k' = ToLower k \<longrightarrow>
       GetString k' (CaseInsensitive c) = Inr v) \<and>
    (ToLower k' \<notin> ToLower ` set (gokeys (ec_envs c)) \<longrightarrow>
       GetString k' (CaseInsensitive c) = Inl ErrNoSuchEnvironmentVariable)"
proof (intro conjI impI)
  let ?low = "fold (\<lambda>(k, v). AList.update (ToLower k) v) (ec_envs c) []"
  have ok: "gomap_ok (ec_envs c)" by (rule NewEnvClient_ok [OF assms])
  have "length ?low = card (ToLower ` set (gokeys (ec_envs c)))"
    unfolding length_gomap [OF ok_lowered [OF gomap_ok_Nil]] keys_lowered by simp
  then show warn: "ParserWarning (CaseInsensitive c) = None \<longleftrightarrow> inj_on ToLower (set (gokeys (ec_envs c)))"
    using inj_on_iff_eq_card [of "set (gokeys (ec_envs c))" ToLower]
    by (auto simp: ParserWarning_def CaseInsensitive_def Let_def length_gomap [OF ok])
  have id: "ec_inputKeyTransform c = (\<lambda>k. k)" using assms by (auto simp: NewEnvClient_def)
  { assume "ParserWarning (CaseInsensitive c) = None" "GetString k c = Inr v" "ToLower k' = ToLower k"
    then show "GetString k' (CaseInsensitive c) = Inr v"
      using map_lowered_in [OF ok, of k v "[]"] warn
      by (auto simp: GetString_def CaseInsensitive_def Let_def id split: option.splits) }
  assume "ToLower k' \<notin> ToLower ` set (gokeys (ec_envs c))"
  from map_lowered [OF this, of "[]"] show "GetString k' (CaseInsensitive c) = Inl ErrNoSuchEnvironmentVariable"
    by (simp add: GetString_def CaseInsensitive_def Let_def)
qed

definition demo_environ :: "string list" where
  "demo_environ = [''PATH=/bin'', ''Home=/root'']"

theorem case_insensitive_reads_witness:
  "\<exists>c. NewEnvClient demo_environ = Done c \<and> ParserWarning (CaseInsensitive c) = None \<and>
    GetString ''Path'' (CaseInsensitive c) = Inr ''/bin'' \<and>
    GetString ''HOM'' (CaseInsensitive c) = Inl ErrNoSuchEnvironmentVariable"
proof -
  let ?c = "\<lparr>ec_envs = [(''PATH'', ''/bin''), (''Home'', ''/root'')], ec_inputKeyTransform = (\<lambda>key. key), ec_parserWarning = None\<rparr>"
  have new: "NewEnvClient demo_environ = Done ?c" by (simp add: NewEnvClient_def demo_environ_def add_env_def)
  have low: "ToLower ''PATH'' = ''path''" "ToLower ''Path'' = ''path''" "ToLower ''Home'' = ''home''" "ToLower ''HOM'' = ''hom''"
    by code_simp+
  have "GetString ''PATH'' ?c = Inr ''/bin''" by (simp add: GetString_def)
  with case_insensitive_reads [OF new, of "''PATH''" "''/bin''" "''Path''"] case_insensitive_reads [OF new, of k v "''HOM''" for k v] new
  show ?thesis by (auto simp: low inj_on_def)
qed

end
