(* ===== verification/BoltStore.thy ===== *)
theory BoltStore
  imports KvTable
begin

text \<open>
  The simple store (\<open>component/compdb/simple.go\<close>) on bbolt (\<open>db/simple/bbolt/bbolt.go\<close>): tables of
  objects by id, each a bucket. The database engine is a parameter: \<open>'db\<close> is a committed state,
  a transaction works on a copy of it that \<open>Commit\<close> makes the new state and \<open>Rollback\<close> drops.
\<close>

definition ErrUnsupportedOperation :: go_error where "ErrUnsupportedOperation = Sentinel ''ErrUnsupportedOperation''"
definition ErrDuplicatedObjectById :: go_error where "ErrDuplicatedObjectById = Sentinel ''ErrDuplicatedObjectById''"

section \<open>Parameters\<close>

text \<open>An object of \<open>SimpleStoreObject\<close>; \<open>Unmarshal\<close> fills the empty object it is called on.\<close>

record 'o SimpleStoreObject =
  ob_Id :: "'o \<Rightarrow> bytes"
  ob_Marshal :: "'o \<Rightarrow> bytes res"
  ob_Unmarshal :: "bytes \<Rightarrow> 'o \<Rightarrow> 'o res"

text \<open>The operations of a transaction on its copy: the bucket of a name, and the bucket's own.\<close>

record 'db bolt =
  bl_Bucket :: "bytes \<Rightarrow> 'db \<Rightarrow> bool"
  bl_CreateBucketIfNotExists :: "bytes \<Rightarrow> 'db \<Rightarrow> unit res \<times> 'db"
  bl_Get :: "bytes \<Rightarrow> bytes \<Rightarrow> 'db \<Rightarrow> bytes option"
  bl_Put :: "bytes \<Rightarrow> bytes \<Rightarrow> bytes \<Rightarrow> 'db \<Rightarrow> unit res \<times> 'db"
  bl_Delete :: "bytes \<Rightarrow> bytes \<Rightarrow> 'db \<Rightarrow> unit res \<times> 'db"

text \<open>The failures of the transactions begun in one call, by their number in it.\<close>

record bolt_env =
  be_Begin :: "nat \<Rightarrow> go_error option"
  be_Commit :: "nat \<Rightarrow> go_error option"

section \<open>The store\<close>

text \<open>
  \<open>ensureBucketInNewTxn\<close>: the number of the transaction it leaves open and the committed state,
  from which that transaction starts; the bucket's creation is a transaction of its own.
\<close>

definition ensureBucketInNewTxn :: "'db bolt \<Rightarrow> bolt_env \<Rightarrow> bytes \<Rightarrow> 'db \<Rightarrow> nat res \<times> 'db" where
  "ensureBucketInNewTxn bl en tableName db =
     (case be_Begin en 0 of
        Some e \<Rightarrow> (Inl e, db)
      | None \<Rightarrow>
          if bl_Bucket bl tableName db then (Inr 0, db)
          else
            (case be_Begin en 1 of
               Some e \<Rightarrow> (Inl e, db)
             | None \<Rightarrow>
                 (case bl_CreateBucketIfNotExists bl tableName db of
                    (Inl e, _) \<Rightarrow> (Inl e, db)
                  | (Inr _, tx) \<Rightarrow>
                      (case be_Commit en 1 of
                         Some e \<Rightarrow> (Inl e, db)
                       | None \<Rightarrow>
                           (case be_Begin en 2 of
                              Some e \<Rightarrow> (Inl e, tx)
                            | None \<Rightarrow>
                                if bl_Bucket bl tableName tx then (Inr 2, tx)
                                else (Inl (Errorf ''bucket does not exist and should not reach here''), tx))))))"

text \<open>The end of a writing operation: a write in the transaction and its commit.\<close>

definition commit_write :: "bolt_env \<Rightarrow> nat \<Rightarrow> unit res \<times> 'db \<Rightarrow> 'db \<Rightarrow> unit res \<times> 'db" where
  "commit_write en n w db =
     (case w of
        (Inl e, _) \<Rightarrow> (Inl e, db)
      | (Inr _, tx) \<Rightarrow> (case be_Commit en n of Some e \<Rightarrow> (Inl e, db) | None \<Rightarrow> (Inr (), tx)))"

definition QueryById ::
  "'db bolt \<Rightarrow> 'o SimpleStoreObject \<Rightarrow> bolt_env \<Rightarrow> bytes \<Rightarrow> bytes \<Rightarrow> 'o \<Rightarrow> 'db \<Rightarrow> 'o option res \<times> 'db" where
  "QueryById bl ob en tableName oid blank db =
     (case ensureBucketInNewTxn bl en tableName db of
        (Inl e, db) \<Rightarrow> (Inl e, db)
      | (Inr _, db) \<Rightarrow>
          (case bl_Get bl tableName oid db of
             None \<Rightarrow> (Inr None, db)
           | Some val \<Rightarrow> (res_bind (ob_Unmarshal ob val blank) (\<lambda>obj. Inr (Some obj)), db)))"

definition Insert :: "'db bolt \<Rightarrow> 'o SimpleStoreObject \<Rightarrow> bolt_env \<Rightarrow> bytes \<Rightarrow> 'o \<Rightarrow> 'db \<Rightarrow> unit res \<times> 'db" where
  "Insert bl ob en tableName obj db =
     (case ob_Marshal ob obj of
        Inl e \<Rightarrow> (Inl e, db)
      | Inr data \<Rightarrow>
          (case ensureBucketInNewTxn bl en tableName db of
             (Inl e, db) \<Rightarrow> (Inl e, db)
           | (Inr n, db) \<Rightarrow>
               (case bl_Get bl tableName (ob_Id ob obj) db of
                  Some _ \<Rightarrow> (Inl ErrDuplicatedObjectById, db)
                | None \<Rightarrow> commit_write en n (bl_Put bl tableName (ob_Id ob obj) data db) db)))"

definition Delete :: "'db bolt \<Rightarrow> bolt_env \<Rightarrow> bytes \<Rightarrow> bytes \<Rightarrow> 'db \<Rightarrow> unit res \<times> 'db" where
  "Delete bl en tableName oid db =
     (case ensureBucketInNewTxn bl en tableName db of
        (Inl e, db) \<Rightarrow> (Inl e, db)
      | (Inr n, db) \<Rightarrow> commit_write en n (bl_Delete bl tableName oid db) db)"

text \<open>An update of an object that is not there does nothing and is no error.\<close>

definition Update :: "'db bolt \<Rightarrow> 'o SimpleStoreObject \<Rightarrow> bolt_env \<Rightarrow> bytes \<Rightarrow> 'o \<Rightarrow> 'db \<Rightarrow> unit res \<times> 'db" where
  "Update bl ob en tableName obj db =
     (case ob_Marshal ob obj of
        Inl e \<Rightarrow> (Inl e, db)
      | Inr data \<Rightarrow>
          (case ensureBucketInNewTxn bl en tableName db of
             (Inl e, db) \<Rightarrow> (Inl e, db)
           | (Inr n, db) \<Rightarrow>
               (case bl_Get bl tableName (ob_Id ob obj) db of
                  None \<Rightarrow> (Inr (), db)
                | Some _ \<Rightarrow> commit_write en n (bl_Put bl tableName (ob_Id ob obj) data db) db)))"

datatype 'o store_op = OpInsert bytes 'o | OpUpdate bytes 'o | OpDelete bytes bytes

fun store_exec :: "'db bolt \<Rightarrow> 'o SimpleStoreObject \<Rightarrow> bolt_env \<Rightarrow> 'o store_op \<Rightarrow> 'db \<Rightarrow> unit res \<times> 'db" where
  "store_exec bl ob en (OpInsert t obj) db = Insert bl ob en t obj db"
| "store_exec bl ob en (OpUpdate t obj) db = Update bl ob en t obj db"
| "store_exec bl ob en (OpDelete t oid) db = Delete bl en t oid db"

section \<open>The abstract store\<close>

text \<open>What the store promises: a map from tables and ids to data, changed by successful calls only.\<close>

type_synonym store_map = "bytes \<times> bytes \<Rightarrow> bytes option"

fun store_write :: "'o SimpleStoreObject \<Rightarrow> 'o store_op \<Rightarrow> store_map \<Rightarrow> (bytes \<times> bytes, bytes) kv_op list" where
  "store_write ob (OpInsert t obj) m =
     (case ob_Marshal ob obj of Inr data \<Rightarrow> [KvPut (t, ob_Id ob obj) data] | Inl e \<Rightarrow> [])"
| "store_write ob (OpUpdate t obj) m =
     (case ob_Marshal ob obj of Inr data \<Rightarrow> (if m (t, ob_Id ob obj) = None then [] else [KvPut (t, ob_Id ob obj) data]) | Inl e \<Rightarrow> [])"
| "store_write ob (OpDelete t oid) m = [KvDel (t, oid)]"

definition map_put :: "'k \<Rightarrow> 'v \<Rightarrow> ('k \<Rightarrow> 'v option) \<Rightarrow> ('k \<Rightarrow> 'v option)" where "map_put k v m = m(k \<mapsto> v)"
definition map_del :: "'k \<Rightarrow> ('k \<Rightarrow> 'v option) \<Rightarrow> ('k \<Rightarrow> 'v option)" where "map_del k m = m(k := None)"

text \<open>The maps of the abstract store are a keyed table.\<close>

interpretation abs: kv_table "\<lambda>m k. m k" map_put map_del "\<lambda>_. True"
  by unfold_locales (simp_all add: map_put_def map_del_def)

definition rows_of :: "'db bolt \<Rightarrow> 'db \<Rightarrow> store_map" where
  "rows_of bl db = (\<lambda>(t, oid). if bl_Bucket bl t db then bl_Get bl t oid db else None)"

text \<open>
  What bbolt documents: a created bucket exists and is empty, the other buckets stay; \<open>Put\<close> and
  \<open>Delete\<close> change the value of their key only, and no bucket comes or goes with them.
\<close>

definition bolt_ok :: "'db bolt \<Rightarrow> bool" where
  "bolt_ok bl \<longleftrightarrow>
     (\<forall>t db db'. bl_CreateBucketIfNotExists bl t db = (Inr (), db') \<longrightarrow> \<not> bl_Bucket bl t db \<longrightarrow>
        bl_Bucket bl t db' \<and> rows_of bl db' = rows_of bl db) \<and>
     (\<forall>t oid v db db'. bl_Put bl t oid v db = (Inr (), db') \<longrightarrow> bl_Bucket bl t db \<longrightarrow> rows_of bl db' = map_put (t, oid) v (rows_of bl db)) \<and>
     (\<forall>t oid db db'. bl_Delete bl t oid db = (Inr (), db') \<longrightarrow> bl_Bucket bl t db \<longrightarrow> rows_of bl db' = map_del (t, oid) (rows_of bl db))"

section \<open>Lemmas\<close>

lemma bolt_okD:
  assumes "bolt_ok bl"
  shows "bl_CreateBucketIfNotExists bl t db = (Inr (), db') \<Longrightarrow> \<not> bl_Bucket bl t db \<Longrightarrow> bl_Bucket bl t db' \<and> rows_of bl db' = rows_of bl db"
    "bl_Put bl t oid v db = (Inr (), db') \<Longrightarrow> bl_Bucket bl t db \<Longrightarrow> rows_of bl db' = map_put (t, oid) v (rows_of bl db)"
    "bl_Delete bl t oid db = (Inr (), db') \<Longrightarrow> bl_Bucket bl t db \<Longrightarrow> rows_of bl db' = map_del (t, oid) (rows_of bl db)"
  using assms unfolding bolt_ok_def by blast+

lemma ensureBucket_rows:
  assumes "bolt_ok bl" "ensureBucketInNewTxn bl en t db = (r, db')"
  shows "rows_of bl db' = rows_of bl db" "r = Inr n \<Longrightarrow> bl_Bucket bl t db'"
  using assms(2) bolt_okD(1) [OF assms(1)]
  by (auto simp: ensureBucketInNewTxn_def split: option.splits if_splits prod.splits sum.splits)

lemma get_row: "bl_Bucket bl t db \<Longrightarrow> bl_Get bl t oid db = rows_of bl db (t, oid)"
  by (simp add: rows_of_def)

lemma commit_write_cases:
  assumes "commit_write en n w db = (r, db')"
  obtains (kept) e where "r = Inl e" "db' = db" | (wrote) "r = Inr ()" "w = (Inr (), db')"
  using assms by (auto simp: commit_write_def split: prod.splits sum.splits option.splits)

lemma Insert_rows:
  assumes "bolt_ok bl" "Insert bl ob en t obj db = (r, db')"
  shows "rows_of bl db' = (case r of Inl e \<Rightarrow> rows_of bl db | Inr _ \<Rightarrow>
      fold abs.apply_op (store_write ob (OpInsert t obj) (rows_of bl db)) (rows_of bl db))"
    "rows_of bl db (t, ob_Id ob obj) \<noteq> None \<Longrightarrow> \<exists>e. r = Inl e"
proof -
  have "rows_of bl db' = (case r of Inl e \<Rightarrow> rows_of bl db | Inr _ \<Rightarrow>
      fold abs.apply_op (store_write ob (OpInsert t obj) (rows_of bl db)) (rows_of bl db)) \<and>
    (rows_of bl db (t, ob_Id ob obj) \<noteq> None \<longrightarrow> (\<exists>e. r = Inl e))" (is "?P")
  proof (cases "ob_Marshal ob obj")
    case (Inl e)
    then show ?P using assms(2) by (auto simp: Insert_def)
  next
    case data: (Inr data)
    obtain q db1 where q: "ensureBucketInNewTxn bl en t db = (q, db1)" by (cases "ensureBucketInNewTxn bl en t db")
    note rows = ensureBucket_rows [OF assms(1) q]
    show ?P
    proof (cases q)
      case (Inl e)
      then show ?P using assms(2) rows(1) by (auto simp: Insert_def data q)
    next
      case (Inr n)
      note b = rows(2) [OF Inr]
      show ?P
      proof (cases "bl_Get bl t (ob_Id ob obj) db1")
        case None
        then have w: "commit_write en n (bl_Put bl t (ob_Id ob obj) data db1) db1 = (r, db')"
          using assms(2) by (simp add: Insert_def data q Inr)
        then show ?P
          using None get_row [OF b] by (cases rule: commit_write_cases) (simp_all add: rows(1) data bolt_okD(2) [OF assms(1) _ b])
      next
        case (Some v)
        then show ?P using assms(2) rows(1) by (auto simp: Insert_def data q Inr)
      qed
    qed
  qed
  then show "rows_of bl db' = (case r of Inl e \<Rightarrow> rows_of bl db | Inr _ \<Rightarrow>
      fold abs.apply_op (store_write ob (OpInsert t obj) (rows_of bl db)) (rows_of bl db))"
    "rows_of bl db (t, ob_Id ob obj) \<noteq> None \<Longrightarrow> \<exists>e. r = Inl e" by blast+
qed

lemma Update_rows:
  assumes "bolt_ok bl" "Update bl ob en t obj db = (r, db')"
  shows "rows_of bl db' = (case r of Inl e \<Rightarrow> rows_of bl db | Inr _ \<Rightarrow>
      fold abs.apply_op (store_write ob (OpUpdate t obj) (rows_of bl db)) (rows_of bl db))"
proof (cases "ob_Marshal ob obj")
  case (Inl e)
  then show ?thesis using assms(2) by (auto simp: Update_def)
next
  case data: (Inr data)
  obtain q db1 where q: "ensureBucketInNewTxn bl en t db = (q, db1)" by (cases "ensureBucketInNewTxn bl en t db")
  note rows = ensureBucket_rows [OF assms(1) q]
  show ?thesis
  proof (cases q)
    case (Inl e)
    then show ?thesis using assms(2) rows(1) by (auto simp: Update_def data q)
  next
    case (Inr n)
    note b = rows(2) [OF Inr]
    show ?thesis
    proof (cases "bl_Get bl t (ob_Id ob obj) db1")
      case None
      then show ?thesis using assms(2) rows(1) get_row [OF b] by (auto simp: Update_def data q Inr)
    next
      case (Some v)
      then have w: "commit_write en n (bl_Put bl t (ob_Id ob obj) data db1) db1 = (r, db')"
        using assms(2) by (simp add: Update_def data q Inr)
      then show ?thesis
        using Some get_row [OF b]
        by (cases rule: commit_write_cases) (simp_all add: rows(1) data bolt_okD(2) [OF assms(1) _ b])
    qed
  qed
qed

lemma Delete_rows:
  assumes "bolt_ok bl" "Delete bl en t oid db = (r, db')"
  shows "rows_of bl db' = (case r of Inl e \<Rightarrow> rows_of bl db | Inr _ \<Rightarrow> map_del (t, oid) (rows_of bl db))"
proof -
  obtain q db1 where q: "ensureBucketInNewTxn bl en t db = (q, db1)" by (cases "ensureBucketInNewTxn bl en t db")
  note rows = ensureBucket_rows [OF assms(1) q]
  show ?thesis
  proof (cases q)
    case (Inl e)
    then show ?thesis using assms(2) rows(1) by (auto simp: Delete_def q)
  next
    case (Inr n)
    note b = rows(2) [OF Inr]
    have "commit_write en n (bl_Delete bl t oid db1) db1 = (r, db')" using assms(2) by (simp add: Delete_def q Inr)
    then show ?thesis
      by (cases rule: commit_write_cases) (simp_all add: rows(1) bolt_okD(3) [OF assms(1) _ b])
  qed
qed

lemma store_exec_rows:
  assumes "bolt_ok bl" "store_exec bl ob en op db = (r, db')"
  shows "rows_of bl db' = (case r of Inl e \<Rightarrow> rows_of bl db | Inr _ \<Rightarrow> fold abs.apply_op (store_write ob op (rows_of bl db)) (rows_of bl db))"
proof (cases op)
  case (OpInsert t obj)
  then have "Insert bl ob en t obj db = (r, db')" using assms(2) by simp
  from Insert_rows(1) [OF assms(1) this] show ?thesis unfolding OpInsert .
next
  case (OpUpdate t obj)
  then have "Update bl ob en t obj db = (r, db')" using assms(2) by simp
  from Update_rows [OF assms(1) this] show ?thesis unfolding OpUpdate .
next
  case (OpDelete t oid)
  then have "Delete bl en t oid db = (r, db')" using assms(2) by simp
  from Delete_rows [OF assms(1) this] show ?thesis unfolding OpDelete by (cases r) simp_all
qed

text \<open>A sequence of calls, each with its own failures: the writes of those that succeed.\<close>

fun store_run :: "'db bolt \<Rightarrow> 'o SimpleStoreObject \<Rightarrow> (bolt_env \<times> 'o store_op) list \<Rightarrow> 'db \<Rightarrow> (bytes \<times> bytes, bytes) kv_op list \<times> 'db" where
  "store_run bl ob [] db = ([], db)"
| "store_run bl ob ((en, op) # ops) db =
     (let (r, db1) = store_exec bl ob en op db;
          (ws, db2) = store_run bl ob ops db1
      in ((if is_ok r then store_write ob op (rows_of bl db) else []) @ ws, db2))"

lemma store_run_rows:
  assumes "bolt_ok bl"
  shows "store_run bl ob ops db = (ws, db') \<Longrightarrow> rows_of bl db' = fold abs.apply_op ws (rows_of bl db)"
proof (induction ops arbitrary: db ws)
  case Nil
  then show ?case by simp
next
  case (Cons p ops)
  obtain en op where p: "p = (en, op)" by (cases p)
  obtain r db1 where r: "store_exec bl ob en op db = (r, db1)" by (cases "store_exec bl ob en op db")
  obtain ws1 where ws: "store_run bl ob ops db1 = (ws1, db')" "ws = (if is_ok r then store_write ob op (rows_of bl db) else []) @ ws1"
    using Cons.prems by (auto simp: p r split: prod.splits)
  show ?case using Cons.IH [OF ws(1)] store_exec_rows [OF assms r] by (cases r) (simp_all add: ws(2))
qed

section \<open>Properties\<close>

text \<open>C19. The store is the map it promises, whatever fails: after any sequence of calls a query finds
  the data of the last successful write of that table and id, or nothing if there was none or it
  was a deletion; a failed call changes nothing, an insertion never replaces an object, and an
  update never creates one.\<close>

theorem bolt_store_refines:
  assumes "bolt_ok bl" "store_run bl ob ops db = (ws, db')" "QueryById bl ob en t oid blank db' = (Inr found, db2)"
  shows "rows_of bl db2 = rows_of bl db' \<and>
    (case kv_last ws (t, oid) (rows_of bl db (t, oid)) of
       None \<Rightarrow> found = None
     | Some data \<Rightarrow> \<exists>obj. ob_Unmarshal ob data blank = Inr obj \<and> found = Some obj) \<and>
    (rows_of bl db' (t, ob_Id ob new) \<noteq> None \<longrightarrow> (\<exists>e. fst (Insert bl ob en' t new db') = Inl e)) \<and>
    (rows_of bl db' (t, ob_Id ob new) = None \<longrightarrow> rows_of bl (snd (Update bl ob en' t new db')) = rows_of bl db')"
proof (intro conjI impI)
  obtain n db1 where q: "ensureBucketInNewTxn bl en t db' = (Inr n, db1)" "db2 = db1"
    using assms(3) by (auto simp: QueryById_def split: prod.splits sum.splits option.splits)
  note rows = ensureBucket_rows [OF assms(1) q(1)]
  show "rows_of bl db2 = rows_of bl db'" using rows(1) q(2) by simp
  have get: "bl_Get bl t oid db1 = kv_last ws (t, oid) (rows_of bl db (t, oid))"
    using get_row [OF rows(2) [OF refl]] rows(1) store_run_rows [OF assms(1,2)] abs.get_fold by simp
  show "case kv_last ws (t, oid) (rows_of bl db (t, oid)) of None \<Rightarrow> found = None
     | Some data \<Rightarrow> \<exists>obj. ob_Unmarshal ob data blank = Inr obj \<and> found = Some obj"
    using assms(3) by (auto simp: QueryById_def q get split: option.splits)
next
  assume "rows_of bl db' (t, ob_Id ob new) \<noteq> None"
  then show "\<exists>e. fst (Insert bl ob en' t new db') = Inl e"
    using Insert_rows(2) [OF assms(1), of ob en' t new db'] by (cases "Insert bl ob en' t new db'") auto
next
  assume "rows_of bl db' (t, ob_Id ob new) = None"
  then show "rows_of bl (snd (Update bl ob en' t new db')) = rows_of bl db'"
    using Update_rows [OF assms(1), of ob en' t new db'] by (cases "Update bl ob en' t new db'") (auto split: sum.splits)
qed

section \<open>Examples\<close>

text \<open>Buckets as maps, and objects that are pairs of bytes.\<close>

definition demo_bolt :: "(bytes \<Rightarrow> (bytes \<Rightarrow> bytes option) option) bolt" where
  "demo_bolt = \<lparr>bl_Bucket = (\<lambda>t db. db t \<noteq> None),
     bl_CreateBucketIfNotExists = (\<lambda>t db. (Inr (), if db t = None then db(t \<mapsto> \<lambda>_. None) else db)),
     bl_Get = (\<lambda>t k db. the (db t) k),
     bl_Put = (\<lambda>t k v db. (Inr (), db(t \<mapsto> (the (db t))(k \<mapsto> v)))),
     bl_Delete = (\<lambda>t k db. (Inr (), db(t \<mapsto> (the (db t))(k := None))))\<rparr>"

definition demo_object :: "(bytes \<times> bytes) SimpleStoreObject" where
  "demo_object = \<lparr>ob_Id = fst, ob_Marshal = (\<lambda>obj. Inr (snd obj)), ob_Unmarshal = (\<lambda>data obj. Inr (fst obj, data))\<rparr>"

definition demo_bolt_env :: bolt_env where
  "demo_bolt_env = \<lparr>be_Begin = (\<lambda>_. None), be_Commit = (\<lambda>_. None)\<rparr>"

lemma demo_bolt_ok: "bolt_ok demo_bolt"
proof -
  have rows: "rows_of demo_bolt db = (\<lambda>(t, oid). case db t of None \<Rightarrow> None | Some b \<Rightarrow> b oid)" for db
    by (auto simp: rows_of_def demo_bolt_def fun_eq_iff split: option.splits)
  have create: "rows_of demo_bolt (db(t \<mapsto> \<lambda>_. None)) = rows_of demo_bolt db" if "db t = None" for t db
    using that by (auto simp: rows fun_eq_iff)
  have put: "rows_of demo_bolt (db(t \<mapsto> (the (db t))(k \<mapsto> v))) = map_put (t, k) v (rows_of demo_bolt db)"
    if "db t \<noteq> None" for t k v db
    using that by (auto simp: rows fun_eq_iff map_put_def)
  have del: "rows_of demo_bolt (db(t \<mapsto> (the (db t))(k := None))) = map_del (t, k) (rows_of demo_bolt db)"
    if "db t \<noteq> None" for t k db
    using that by (auto simp: rows fun_eq_iff map_del_def)
  have b: "bl_Bucket demo_bolt t db \<longleftrightarrow> db t \<noteq> None"
    "bl_CreateBucketIfNotExists demo_bolt t db = (Inr (), db') \<longleftrightarrow> db' = (if db t = None then db(t \<mapsto> \<lambda>_. None) else db)"
    "bl_Put demo_bolt t k v db = (Inr (), db') \<longleftrightarrow> db' = db(t \<mapsto> (the (db t))(k \<mapsto> v))"
    "bl_Delete demo_bolt t k db = (Inr (), db') \<longleftrightarrow> db' = db(t \<mapsto> (the (db t))(k := None))" for t k v db db'
    by (auto simp: demo_bolt_def)
  show ?thesis unfolding bolt_ok_def b by (intro conjI allI impI; simp add: create put del)
qed

theorem bolt_store_refines_witness:
  "\<exists>db' db2 obj. store_run demo_bolt demo_object [(demo_bolt_env, OpInsert [1] ([2], [3])), (demo_bolt_env, OpUpdate [1] ([2], [4]))] (\<lambda>_. None) =
       ([KvPut ([1], [2]) [3], KvPut ([1], [2]) [4]], db') \<and>
     QueryById demo_bolt demo_object demo_bolt_env [1] [2] ([2], []) db' = (Inr (Some obj), db2) \<and> obj = ([2], [4])"
proof -
  let ?ops = "[(demo_bolt_env, OpInsert [1] ([2], [3])), (demo_bolt_env, OpUpdate [1] ([2], [4]))]"
  let ?db1 = "[[1] \<mapsto> [[2] \<mapsto> [3]]]" and ?db2 = "[[1] \<mapsto> [[2] \<mapsto> [4]]]"
  note d = ensureBucketInNewTxn_def commit_write_def demo_bolt_def demo_object_def demo_bolt_env_def
  have ins: "Insert demo_bolt demo_object demo_bolt_env [1] ([2], [3]) (\<lambda>_. None) = (Inr (), ?db1)"
    by (simp add: Insert_def d)
  have upd: "Update demo_bolt demo_object demo_bolt_env [1] ([2], [4]) ?db1 = (Inr (), ?db2)"
    by (simp add: Update_def d)
  have row: "rows_of demo_bolt ?db1 ([1], [2]) \<noteq> None" by (simp add: rows_of_def demo_bolt_def)
  have run: "store_run demo_bolt demo_object ?ops (\<lambda>_. None) = ([KvPut ([1], [2]) [3], KvPut ([1], [2]) [4]], ?db2)"
    using row by (simp add: ins upd) (simp add: demo_object_def)
  have q: "QueryById demo_bolt demo_object demo_bolt_env [1] [2] ([2], []) ?db2 = (Inr (Some ([2], [4])), ?db2)"
    by (simp add: QueryById_def d)
  from bolt_store_refines [OF demo_bolt_ok run q] run q show ?thesis by blast
qed

end
