(* ===== verification/EtcdStore.thy ===== *)
theory EtcdStore
  imports Prelude "HOL-Library.Sublist"
begin

text \<open>
  The consistent store (\<open>component/compdb/consistent.go\<close>) on etcd (\<open>db/consistent/etcd/etcd.go\<close>): cells,
  the election of a leader by a leased key, and the watch of a folder. The etcd service is a
  parameter; every request is one atomic step on its state \<open>'s\<close>, and \<open>other i\<close> is what the rest of
  the world does to the state before the \<open>i\<close>-th request of a call.
\<close>

section \<open>Parameters\<close>

type_synonym lease = int

text \<open>A failed write may or may not have taken place: its state is that of the service.\<close>

record 's etcd =
  ed_Get :: "string \<Rightarrow> 's \<Rightarrow> string option res"            \<comment> \<open>the value of the first entry, if any\<close>
  ed_Put :: "string \<Rightarrow> string \<Rightarrow> 's \<Rightarrow> unit res \<times> 's"
  ed_Delete :: "string \<Rightarrow> 's \<Rightarrow> unit res \<times> 's"
  ed_Grant :: "int \<Rightarrow> 's \<Rightarrow> lease res \<times> 's"
  ed_TxnPutIfNew :: "string \<Rightarrow> string \<Rightarrow> lease option \<Rightarrow> 's \<Rightarrow> unit res \<times> 's" \<comment> \<open>put if the create revision is 0\<close>
  ed_KeepAlive :: "lease \<Rightarrow> 's \<Rightarrow> unit res \<times> 's"
  ed_GetPrefix :: "string \<Rightarrow> 's \<Rightarrow> (string \<times> string) list res"

section \<open>Cells\<close>

definition LeaseTTL :: int where "LeaseTTL = 3"

definition WatchBufferSize :: nat where "WatchBufferSize = 64"

text \<open>An absent key reads as the empty string.\<close>

definition etcd_Get :: "'s etcd \<Rightarrow> string \<Rightarrow> 's \<Rightarrow> string res" where
  "etcd_Get ed key s =
     (case ed_Get ed key s of
        Inl e \<Rightarrow> Inl e
      | Inr None \<Rightarrow> Inr []
      | Inr (Some v) \<Rightarrow> Inr v)"

definition etcd_Set :: "'s etcd \<Rightarrow> string \<Rightarrow> string \<Rightarrow> 's \<Rightarrow> unit res \<times> 's" where
  "etcd_Set ed key val s = ed_Put ed key val s"

definition etcd_Del :: "'s etcd \<Rightarrow> string \<Rightarrow> 's \<Rightarrow> unit res \<times> 's" where
  "etcd_Del ed key s = ed_Delete ed key s"

definition etcd_SetIfNotExists :: "'s etcd \<Rightarrow> string \<Rightarrow> string \<Rightarrow> 's \<Rightarrow> unit res \<times> 's" where
  "etcd_SetIfNotExists ed key val s = ed_TxnPutIfNew ed key val None s"

section \<open>The leader\<close>

definition Leader :: "'s etcd \<Rightarrow> string \<Rightarrow> 's \<Rightarrow> string res" where
  "Leader ed key s =
     (case ed_Get ed key s of
        Inl e \<Rightarrow> Inl e
      | Inr None \<Rightarrow> Inr []
      | Inr (Some v) \<Rightarrow> Inr v)"

text \<open>The last two requests of \<open>Acquire\<close>: the value is read, and the lease kept alive if it is ours.\<close>

definition confirm :: "'s etcd \<Rightarrow> (nat \<Rightarrow> 's \<Rightarrow> 's) \<Rightarrow> string \<Rightarrow> string \<Rightarrow> lease \<Rightarrow> 's \<Rightarrow> string res \<times> 's" where
  "confirm ed other key node l s =
     (let s = other 3 s in
      case ed_Get ed key s of
        Inl e \<Rightarrow> (Inl e, s)
      | Inr None \<Rightarrow> (Inr [], s)
      | Inr (Some remoteNodeId) \<Rightarrow>
          if remoteNodeId = node then
            (case ed_KeepAlive ed l (other 4 s) of
               (Inl e, s) \<Rightarrow> (Inl e, s)
             | (Inr _, s) \<Rightarrow> (Inr remoteNodeId, s))
          else (Inr remoteNodeId, s))"

text \<open>Steps 1 to 4: a lease, the transaction, and the confirmation.\<close>

definition compete :: "'s etcd \<Rightarrow> (nat \<Rightarrow> 's \<Rightarrow> 's) \<Rightarrow> string \<Rightarrow> string \<Rightarrow> 's \<Rightarrow> string res \<times> 's" where
  "compete ed other key node s =
     (case ed_Grant ed LeaseTTL (other 1 s) of
        (Inl e, s) \<Rightarrow> (Inl e, s)
      | (Inr l, s) \<Rightarrow>
          (case ed_TxnPutIfNew ed key node (Some l) (other 2 s) of
             (Inl e, s) \<Rightarrow> (Inl e, s)
           | (Inr _, s) \<Rightarrow> confirm ed other key node l s))"

definition Acquire :: "'s etcd \<Rightarrow> (nat \<Rightarrow> 's \<Rightarrow> 's) \<Rightarrow> string \<Rightarrow> string \<Rightarrow> 's \<Rightarrow> string res \<times> 's" where
  "Acquire ed other key node s =
     (let s = other 0 s in
      case ed_Get ed key s of
        Inl e \<Rightarrow> (Inl e, s)
      | Inr (Some remoteNodeId) \<Rightarrow> if remoteNodeId \<noteq> node then (Inr remoteNodeId, s) else compete ed other key node s
      | Inr None \<Rightarrow> compete ed other key node s)"

definition TryAcquire :: "'s etcd \<Rightarrow> (nat \<Rightarrow> 's \<Rightarrow> 's) \<Rightarrow> string \<Rightarrow> string \<Rightarrow> 's \<Rightarrow> string res \<times> 's" where
  "TryAcquire ed other key node s = Acquire ed other key node s"

section \<open>Watching\<close>

datatype WatchEventType = WatchEventUnknown | WatchEventFresh | WatchEventCreated | WatchEventModified | WatchEventDelete

record WatchEvent =
  we_Path :: string
  we_Ev :: "(string \<times> WatchEventType) list"

text \<open>An event of etcd, with what \<open>Type\<close>, \<open>IsCreate\<close> and \<open>IsModify\<close> say of it.\<close>

record etcd_event =
  ee_Key :: string
  ee_Delete :: bool
  ee_IsCreate :: bool
  ee_IsModify :: bool

definition watch_folder :: "string \<Rightarrow> string" where
  "watch_folder folder = (if \<not> suffix ''/'' folder then folder @ ''/'' else folder)"

definition fresh_event :: "string \<Rightarrow> (string \<times> string) list \<Rightarrow> WatchEvent" where
  "fresh_event folder kvs = \<lparr>we_Path = folder, we_Ev = map (\<lambda>(k, v). (k, WatchEventFresh)) kvs\<rparr>"

definition event_type :: "etcd_event \<Rightarrow> WatchEventType" where
  "event_type ev =
     (if ee_Delete ev then WatchEventDelete
      else if ee_IsCreate ev then WatchEventCreated
      else if ee_IsModify ev then WatchEventModified
      else WatchEventUnknown)"

definition watch_event :: "string \<Rightarrow> etcd_event list \<Rightarrow> WatchEvent" where
  "watch_event folder evs = \<lparr>we_Path = folder, we_Ev = map (\<lambda>ev. (ee_Key ev, event_type ev)) evs\<rparr>"

text \<open>
  What the select of a turn finds: the context is done, a response, or the end of the watch
  channel. \<open>break\<close> leaves the select only, so every turn is followed by the next one: after the
  cancellation the goroutine goes round for ever.
\<close>

datatype watch_input = CtxDone | Response "etcd_event list" | WatchClosed

definition watch_turn :: "string \<Rightarrow> watch_input \<Rightarrow> WatchEvent option" where
  "watch_turn folder inp =
     (case inp of
        CtxDone \<Rightarrow> None
      | Response evs \<Rightarrow> Some (watch_event folder evs)
      | WatchClosed \<Rightarrow> None)"

text \<open>The channel returned, and the values its goroutine sends for the inputs it meets.\<close>

definition WatchFolder :: "'s etcd \<Rightarrow> string \<Rightarrow> watch_input list \<Rightarrow> 's \<Rightarrow> WatchEvent list res" where
  "WatchFolder ed folder inputs s =
     (let folder = watch_folder folder in
      case ed_GetPrefix ed folder s of
        Inl e \<Rightarrow> Inl e
      | Inr kvs \<Rightarrow> Inr (fresh_event folder kvs # List.map_filter (watch_turn folder) inputs))"

section \<open>What etcd documents\<close>

text \<open>
  A view of the service: the value and the lease of a key, and the leases that are kept alive.
  Reads return the value; a granted lease is new; the transaction puts if there is no value; a
  failed request has had its effect or none.
\<close>

record 's etcd_view =
  ev_cell :: "'s \<Rightarrow> string \<Rightarrow> (string \<times> lease option) option"
  ev_kept :: "'s \<Rightarrow> lease set"

definition etcd_ok :: "'s etcd \<Rightarrow> 's etcd_view \<Rightarrow> bool" where
  "etcd_ok ed vw \<longleftrightarrow>
     (\<forall>k s x. ed_Get ed k s = Inr x \<longrightarrow> x = map_option fst (ev_cell vw s k)) \<and>
     (\<forall>n s r s'. ed_Grant ed n s = (r, s') \<longrightarrow> ev_cell vw s' = ev_cell vw s \<and> ev_kept vw s' = ev_kept vw s \<and>
        (\<forall>l. r = Inr l \<longrightarrow> l \<notin> ev_kept vw s \<and> (\<forall>k v. ev_cell vw s k \<noteq> Some (v, Some l)))) \<and>
     (\<forall>k v l s r s'. ed_TxnPutIfNew ed k v l s = (r, s') \<longrightarrow> ev_kept vw s' = ev_kept vw s \<and>
        (ev_cell vw s k \<noteq> None \<longrightarrow> ev_cell vw s' = ev_cell vw s) \<and>
        (ev_cell vw s k = None \<longrightarrow> ev_cell vw s' = (ev_cell vw s)(k \<mapsto> (v, l)) \<or> \<not> is_ok r \<and> ev_cell vw s' = ev_cell vw s)) \<and>
     (\<forall>l s r s'. ed_KeepAlive ed l s = (r, s') \<longrightarrow> ev_cell vw s' = ev_cell vw s \<and>
        (ev_kept vw s' = insert l (ev_kept vw s) \<or> \<not> is_ok r \<and> ev_kept vw s' = ev_kept vw s))"

text \<open>The leader holds the key under a lease that is kept alive.\<close>

definition holds :: "'s etcd_view \<Rightarrow> string \<Rightarrow> string \<Rightarrow> lease \<Rightarrow> 's \<Rightarrow> bool" where
  "holds vw key node l s \<longleftrightarrow> ev_cell vw s key = Some (node, Some l) \<and> l \<in> ev_kept vw s"

lemma etcd_okD:
  assumes "etcd_ok ed vw"
  shows "ed_Get ed k s = Inr x \<Longrightarrow> x = map_option fst (ev_cell vw s k)"
    "ed_Grant ed n s = (r, s') \<Longrightarrow> ev_cell vw s' = ev_cell vw s \<and> ev_kept vw s' = ev_kept vw s"
    "ed_Grant ed n s = (Inr l, s') \<Longrightarrow> l \<notin> ev_kept vw s \<and> ev_cell vw s k \<noteq> Some (v, Some l)"
    "ed_TxnPutIfNew ed k v lo s = (p, s') \<Longrightarrow> ev_kept vw s' = ev_kept vw s"
    "ed_TxnPutIfNew ed k v lo s = (p, s') \<Longrightarrow> ev_cell vw s k \<noteq> None \<Longrightarrow> ev_cell vw s' = ev_cell vw s"
    "ed_TxnPutIfNew ed k v lo s = (Inr u, s') \<Longrightarrow> ev_cell vw s k = None \<Longrightarrow> ev_cell vw s' = (ev_cell vw s)(k \<mapsto> (v, lo))"
    "ed_KeepAlive ed l s = (a, s') \<Longrightarrow> ev_cell vw s' = ev_cell vw s \<and> ev_kept vw s \<subseteq> ev_kept vw s' \<and> ev_kept vw s' \<subseteq> insert l (ev_kept vw s)"
    "ed_KeepAlive ed l s = (Inr u, s') \<Longrightarrow> l \<in> ev_kept vw s'"
proof -
  note ok = assms [unfolded etcd_ok_def]
  note get = ok [THEN conjunct1, rule_format]
  note grant = ok [THEN conjunct2, THEN conjunct1, rule_format]
  note put = ok [THEN conjunct2, THEN conjunct2, THEN conjunct1, rule_format]
  note alive = ok [THEN conjunct2, THEN conjunct2, THEN conjunct2, rule_format]
  show "ed_Get ed k s = Inr x \<Longrightarrow> x = map_option fst (ev_cell vw s k)" by (rule get)
  show "ed_Grant ed n s = (r, s') \<Longrightarrow> ev_cell vw s' = ev_cell vw s \<and> ev_kept vw s' = ev_kept vw s" using grant by blast
  show "ed_Grant ed n s = (Inr l, s') \<Longrightarrow> l \<notin> ev_kept vw s \<and> ev_cell vw s k \<noteq> Some (v, Some l)" using grant by blast
  show "ed_TxnPutIfNew ed k v lo s = (p, s') \<Longrightarrow> ev_kept vw s' = ev_kept vw s" using put by blast
  show "ed_TxnPutIfNew ed k v lo s = (p, s') \<Longrightarrow> ev_cell vw s k \<noteq> None \<Longrightarrow> ev_cell vw s' = ev_cell vw s"
    using put [of k v lo s p s'] by blast
  show "ed_TxnPutIfNew ed k v lo s = (Inr u, s') \<Longrightarrow> ev_cell vw s k = None \<Longrightarrow> ev_cell vw s' = (ev_cell vw s)(k \<mapsto> (v, lo))"
    using put [of k v lo s "Inr u" s'] by simp
  show "ed_KeepAlive ed l s = (a, s') \<Longrightarrow> ev_cell vw s' = ev_cell vw s \<and> ev_kept vw s \<subseteq> ev_kept vw s' \<and> ev_kept vw s' \<subseteq> insert l (ev_kept vw s)"
    using alive [of l s a s'] by blast
  show "ed_KeepAlive ed l s = (Inr u, s') \<Longrightarrow> l \<in> ev_kept vw s'" using alive [of l s "Inr u" s'] by simp
qed

text \<open>The rest of the world keeps a property.\<close>

definition others_keep :: "('s \<Rightarrow> bool) \<Rightarrow> (nat \<Rightarrow> 's \<Rightarrow> 's) \<Rightarrow> bool" where
  "others_keep P other \<longleftrightarrow> (\<forall>i s. P s \<longrightarrow> P (other i s))"

lemma holds_stays:
  assumes "etcd_ok ed vw" "holds vw key n l s"
  shows "ed_Grant ed t s = (r, s') \<Longrightarrow> holds vw key n l s'"
    "ed_TxnPutIfNew ed key v lo s = (u, s') \<Longrightarrow> holds vw key n l s'"
    "ed_KeepAlive ed l' s = (a, s') \<Longrightarrow> holds vw key n l s'"
  using assms(2) etcd_okD [OF assms(1)] unfolding holds_def by (metis option.distinct(1) subsetD)+

lemma holds_read:
  assumes "etcd_ok ed vw" "holds vw key n l s" "ed_Get ed key s = Inr x"
  shows "x = Some n"
  using etcd_okD(1) [OF assms(1,3)] assms(2) by (simp add: holds_def)

lemma confirm_holds:
  assumes "etcd_ok ed vw" "holds vw key n l s" "others_keep (holds vw key n l) other" "confirm ed other key m l' s = (r, s')"
  shows "holds vw key n l s' \<and> (\<forall>w. r = Inr w \<longrightarrow> w = n)"
proof -
  have h3: "holds vw key n l (other 3 s)" and h4: "holds vw key n l (other 4 (other 3 s))"
    using assms(2,3) by (simp_all add: others_keep_def)
  show ?thesis
  proof (cases "ed_Get ed key (other 3 s)")
    case (Inl e)
    then show ?thesis using assms(4) h3 by (auto simp: confirm_def)
  next
    case (Inr x)
    from holds_read [OF assms(1) h3 Inr] have "x = Some n" .
    with Inr assms(4) h3 holds_stays(3) [OF assms(1) h4] show ?thesis
      by (auto simp: confirm_def Let_def split: if_splits prod.splits sum.splits)
  qed
qed

lemma compete_holds:
  assumes "etcd_ok ed vw" "holds vw key n l s" "others_keep (holds vw key n l) other" "compete ed other key m s = (r, s')"
  shows "holds vw key n l s' \<and> (\<forall>w. r = Inr w \<longrightarrow> w = n)"
proof -
  obtain g s1 where g: "ed_Grant ed LeaseTTL (other 1 s) = (g, s1)" by (cases "ed_Grant ed LeaseTTL (other 1 s)")
  have h1: "holds vw key n l s1" using holds_stays(1) [OF assms(1) _ g] assms(2,3) by (simp add: others_keep_def)
  show ?thesis
  proof (cases g)
    case (Inl e)
    then show ?thesis using assms(4) g h1 by (auto simp: compete_def)
  next
    case (Inr l')
    obtain u s2 where u: "ed_TxnPutIfNew ed key m (Some l') (other 2 s1) = (u, s2)" by (cases "ed_TxnPutIfNew ed key m (Some l') (other 2 s1)")
    have h2: "holds vw key n l s2" using holds_stays(2) [OF assms(1) _ u] h1 assms(3) by (simp add: others_keep_def)
    show ?thesis
      using assms(4) g u Inr h2 confirm_holds [OF assms(1) h2 assms(3)] by (cases u) (auto simp: compete_def)
  qed
qed

lemma acquire_holds:
  assumes "etcd_ok ed vw" "holds vw key n l s" "others_keep (holds vw key n l) other" "Acquire ed other key m s = (r, s')"
  shows "holds vw key n l s' \<and> (\<forall>w. r = Inr w \<longrightarrow> w = n)"
proof -
  have h0: "holds vw key n l (other 0 s)" using assms(2,3) by (simp add: others_keep_def)
  show ?thesis
  proof (cases "ed_Get ed key (other 0 s)")
    case (Inl e)
    then show ?thesis using assms(4) h0 by (auto simp: Acquire_def)
  next
    case (Inr x)
    from holds_read [OF assms(1) h0 Inr] have "x = Some n" .
    with Inr assms(4) h0 compete_holds [OF assms(1) h0 assms(3)] show ?thesis
      by (auto simp: Acquire_def Let_def split: if_splits)
  qed
qed


section \<open>Taking the lead\<close>

definition ours :: "'s etcd_view \<Rightarrow> string \<Rightarrow> string \<Rightarrow> 's \<Rightarrow> bool" where
  "ours vw key n s \<longleftrightarrow> (\<exists>lo. ev_cell vw s key = Some (n, lo))"

definition ours_under :: "'s etcd_view \<Rightarrow> string \<Rightarrow> string \<Rightarrow> lease \<Rightarrow> 's \<Rightarrow> bool" where
  "ours_under vw key n l s \<longleftrightarrow> ev_cell vw s key = Some (n, Some l)"

lemma read_ours: "etcd_ok ed vw \<Longrightarrow> ed_Get ed key s = Inr (Some n) \<Longrightarrow> ours vw key n s"
  by (drule (1) etcd_okD(1)) (cases "ev_cell vw s key"; auto simp: ours_def)

text \<open>
  During a call nobody else writes the node's name, and the key the node has put is neither
  deleted nor lost with its lease.
\<close>

definition calm :: "'s etcd_view \<Rightarrow> string \<Rightarrow> string \<Rightarrow> (nat \<Rightarrow> 's \<Rightarrow> 's) \<Rightarrow> bool" where
  "calm vw key n other \<longleftrightarrow> others_keep (\<lambda>s. \<not> ours vw key n s) other \<and> (\<forall>l. others_keep (ours_under vw key n l) other)"

lemma confirm_takes:
  assumes "etcd_ok ed vw" "calm vw key n other" "ours_under vw key n l s \<or> \<not> ours vw key n s"
    and "confirm ed other key n l s = (Inr n, s')" "n \<noteq> []"
  shows "holds vw key n l s'"
proof -
  let ?s = "other 3 s"
  have k: "ours_under vw key n l ?s \<or> \<not> ours vw key n ?s" using assms(2,3) by (auto simp: calm_def others_keep_def)
  obtain s3 where g: "ed_Get ed key ?s = Inr (Some n)" "ed_KeepAlive ed l (other 4 ?s) = (Inr (), s3)" "s' = s3"
    using assms(4,5) by (auto simp: confirm_def Let_def split: sum.splits option.splits if_splits prod.splits)
  have "ours vw key n ?s" by (rule read_ours [OF assms(1) g(1)])
  then have "ours_under vw key n l (other 4 ?s)" using k assms(2) by (auto simp: calm_def others_keep_def)
  then show ?thesis
    using etcd_okD(7) [OF assms(1) g(2)] etcd_okD(8) [OF assms(1) g(2)] g(3) by (simp add: holds_def ours_under_def)
qed

lemma compete_takes:
  assumes "etcd_ok ed vw" "calm vw key n other" "\<not> ours vw key n s" "compete ed other key n s = (Inr n, s')" "n \<noteq> []"
  shows "\<exists>l. holds vw key n l s'"
proof -
  obtain l s1 s2 where r: "ed_Grant ed LeaseTTL (other 1 s) = (Inr l, s1)" "ed_TxnPutIfNew ed key n (Some l) (other 2 s1) = (Inr (), s2)"
    "confirm ed other key n l s2 = (Inr n, s')"
    using assms(4) by (auto simp: compete_def split: prod.splits sum.splits)
  have "\<not> ours vw key n (other 1 s)" using assms(2,3) by (simp add: calm_def others_keep_def)
  then have "\<not> ours vw key n s1" using etcd_okD(2) [OF assms(1) r(1)] by (simp add: ours_def)
  then have n: "\<not> ours vw key n (other 2 s1)" using assms(2) by (simp add: calm_def others_keep_def)
  have "ours_under vw key n l s2 \<or> \<not> ours vw key n s2"
  proof (cases "ev_cell vw (other 2 s1) key = None")
    case True
    then show ?thesis using etcd_okD(6) [OF assms(1) r(2)] by (simp add: ours_under_def)
  next
    case False
    then show ?thesis using etcd_okD(5) [OF assms(1) r(2)] n by (simp add: ours_def)
  qed
  from confirm_takes [OF assms(1,2) this r(3) assms(5)] show ?thesis by blast
qed

lemma acquire_takes:
  assumes "etcd_ok ed vw" "calm vw key n other" "\<not> ours vw key n s" "Acquire ed other key n s = (Inr n, s')" "n \<noteq> []"
  shows "\<exists>l. holds vw key n l s'"
proof -
  have n: "\<not> ours vw key n (other 0 s)" using assms(2,3) by (simp add: calm_def others_keep_def)
  have "ed_Get ed key (other 0 s) \<noteq> Inr (Some n)"
    using read_ours [OF assms(1)] n by blast
  then have "compete ed other key n (other 0 s) = (Inr n, s')"
    using assms(4) by (auto simp: Acquire_def Let_def split: sum.splits option.splits if_splits)
  from compete_takes [OF assms(1,2) n this assms(5)] show ?thesis .
qed

text \<open>Attempts of other nodes, one after the other, each with its own interference.\<close>

fun rivals :: "'s etcd \<Rightarrow> string \<Rightarrow> ((nat \<Rightarrow> 's \<Rightarrow> 's) \<times> string) list \<Rightarrow> 's \<Rightarrow> string res list \<times> 's" where
  "rivals ed key [] s = ([], s)"
| "rivals ed key ((other, m) # rest) s =
     (let (r, s) = Acquire ed other key m s; (rs, s) = rivals ed key rest s in (r # rs, s))"

lemma rivals_hold:
  assumes "etcd_ok ed vw"
  shows "holds vw key n l s \<Longrightarrow> \<forall>(other, m) \<in> set ms. others_keep (holds vw key n l) other \<Longrightarrow> rivals ed key ms s = (rs, s') \<Longrightarrow>
    holds vw key n l s' \<and> (\<forall>w. Inr w \<in> set rs \<longrightarrow> w = n)"
proof (induction ms arbitrary: s rs)
  case Nil
  then show ?case by simp
next
  case (Cons p ms)
  obtain other m where p: "p = (other, m)" by (cases p)
  obtain r s1 where r: "Acquire ed other key m s = (r, s1)" by (cases "Acquire ed other key m s")
  obtain rs1 where rs: "rivals ed key ms s1 = (rs1, s')" "rs = r # rs1" using Cons.prems(3) by (auto simp: p r split: prod.splits)
  have k: "others_keep (holds vw key n l) other" using Cons.prems(2) by (simp add: p)
  have h: "holds vw key n l s1 \<and> (\<forall>w. r = Inr w \<longrightarrow> w = n)" by (rule acquire_holds [OF assms Cons.prems(1) k r])
  then show ?case using Cons.IH [OF _ _ rs(1)] Cons.prems(2) by (auto simp: rs(2))
qed

lemma confirm_again:
  assumes "etcd_ok ed vw" "ours_under vw key n l0 s" "l0 \<notin> ev_kept vw s" "l \<noteq> l0" "confirm ed other key n l s = (r, s')"
    and "others_keep (\<lambda>s. ours_under vw key n l0 s \<and> l0 \<notin> ev_kept vw s) other"
  shows "ours_under vw key n l0 s' \<and> l0 \<notin> ev_kept vw s' \<and> (\<forall>w. r = Inr w \<longrightarrow> w = n)"
proof -
  let ?P = "\<lambda>s. ours_under vw key n l0 s \<and> l0 \<notin> ev_kept vw s"
  have p: "?P (other 3 s)" "?P (other 4 (other 3 s))" using assms(2,3,6) unfolding others_keep_def by blast+
  show ?thesis
  proof (cases "ed_Get ed key (other 3 s)")
    case (Inl e)
    then show ?thesis using assms(5) p(1) by (auto simp: confirm_def)
  next
    case (Inr x)
    have x: "x = Some n" using etcd_okD(1) [OF assms(1) Inr] p(1) by (simp add: ours_under_def)
    obtain a s4 where a: "ed_KeepAlive ed l (other 4 (other 3 s)) = (a, s4)" by (cases "ed_KeepAlive ed l (other 4 (other 3 s))")
    have "?P s4" using etcd_okD(7) [OF assms(1) a] p(2) assms(4) by (auto simp: ours_under_def)
    then show ?thesis using assms(5) Inr x a by (cases a) (auto simp: confirm_def)
  qed
qed

lemma compete_again:
  assumes "etcd_ok ed vw" "ours_under vw key n l0 s" "l0 \<notin> ev_kept vw s" "compete ed other key n s = (r, s')"
    and "others_keep (\<lambda>s. ours_under vw key n l0 s \<and> l0 \<notin> ev_kept vw s) other"
  shows "ours_under vw key n l0 s' \<and> l0 \<notin> ev_kept vw s' \<and> (\<forall>w. r = Inr w \<longrightarrow> w = n)"
proof -
  let ?P = "\<lambda>s. ours_under vw key n l0 s \<and> l0 \<notin> ev_kept vw s"
  note keep = assms(5) [unfolded others_keep_def, rule_format]
  have p1: "?P (other 1 s)" using keep assms(2,3) by blast
  obtain g s1 where g: "ed_Grant ed LeaseTTL (other 1 s) = (g, s1)" by (cases "ed_Grant ed LeaseTTL (other 1 s)")
  have s1: "?P s1" using p1 etcd_okD(2) [OF assms(1) g] by (simp add: ours_under_def)
  show ?thesis
  proof (cases g)
    case (Inl e)
    then show ?thesis using assms(4) g s1 by (auto simp: compete_def)
  next
    case (Inr l)
    have l: "l \<noteq> l0" using etcd_okD(3) [OF assms(1) g [unfolded Inr], of key n] p1 by (auto simp: ours_under_def)
    obtain u s2 where u: "ed_TxnPutIfNew ed key n (Some l) (other 2 s1) = (u, s2)" by (cases "ed_TxnPutIfNew ed key n (Some l) (other 2 s1)")
    have "?P (other 2 s1)" using keep s1 by blast
    then have s2: "ours_under vw key n l0 s2" "l0 \<notin> ev_kept vw s2" using etcd_okD(4,5) [OF assms(1) u] by (simp_all add: ours_under_def)
    show ?thesis
    proof (cases u)
      case (Inl e)
      then show ?thesis using assms(4) g u \<open>g = Inr l\<close> s2 by (auto simp: compete_def)
    next
      case ok: (Inr x)
      then have "confirm ed other key n l s2 = (r, s')" using assms(4) g u Inr by (simp add: compete_def)
      from confirm_again [OF assms(1) s2 l this assms(5)] show ?thesis .
    qed
  qed
qed

section \<open>Properties\<close>


text \<open>C29. A node that restarts is told that it leads without keeping its lead alive: if the key still
  has the node's name under the lease of its former run, which nobody keeps alive, \<open>Acquire\<close> may
  answer the node's name, but the lease it keeps alive is another one, and the key goes with the
  old one.\<close>

theorem restart_unprotected:
  assumes "etcd_ok ed vw" "ours_under vw key n l0 s" "l0 \<notin> ev_kept vw s"
    and "others_keep (\<lambda>s. ours_under vw key n l0 s \<and> l0 \<notin> ev_kept vw s) other"
    and "Acquire ed other key n s = (r, s')"
  shows "\<not> (\<exists>l. holds vw key n l s') \<and> (\<forall>w. r = Inr w \<longrightarrow> w = n)"
proof -
  let ?P = "\<lambda>s. ours_under vw key n l0 s \<and> l0 \<notin> ev_kept vw s"
  have p0: "?P (other 0 s)" using assms(2-4) by (simp add: others_keep_def)
  have get: "x = Some n" if "ed_Get ed key t = Inr x" "?P t" for x t
    using etcd_okD(1) [OF assms(1) that(1)] that(2) by (simp add: ours_under_def)
  have "?P s' \<and> (\<forall>w. r = Inr w \<longrightarrow> w = n)"
  proof (cases "ed_Get ed key (other 0 s)")
    case (Inl e)
    then show ?thesis using assms(5) p0 by (auto simp: Acquire_def)
  next
    case (Inr x)
    with get [OF Inr p0] have c: "compete ed other key n (other 0 s) = (r, s')" using assms(5) by (simp add: Acquire_def)
    show ?thesis using compete_again [OF assms(1) _ _ c assms(4)] p0 by blast
  qed
  then show ?thesis by (auto simp: holds_def ours_under_def)
qed

section \<open>Examples\<close>

text \<open>A service as a list of cells and of the leases kept alive.\<close>

record demo_etcd_state =
  dm_cells :: "(string \<times> string \<times> lease option) list"
  dm_kept :: "lease list"

definition demo_leases :: "demo_etcd_state \<Rightarrow> lease list" where
  "demo_leases s = dm_kept s @ List.map_filter (\<lambda>(k, v, lo). lo) (dm_cells s)"

definition demo_etcd :: "demo_etcd_state etcd" where
  "demo_etcd = \<lparr>
     ed_Get = (\<lambda>k s. Inr (map_option fst (map_of (dm_cells s) k))),
     ed_Put = (\<lambda>k v s. (Inr (), s\<lparr>dm_cells := (k, v, None) # dm_cells s\<rparr>)),
     ed_Delete = (\<lambda>k s. (Inr (), s\<lparr>dm_cells := filter (\<lambda>c. fst c \<noteq> k) (dm_cells s)\<rparr>)),
     ed_Grant = (\<lambda>n s. (Inr (1 + sum_list (map abs (demo_leases s))), s)),
     ed_TxnPutIfNew = (\<lambda>k v l s. (Inr (), if map_of (dm_cells s) k = None then s\<lparr>dm_cells := (k, v, l) # dm_cells s\<rparr> else s)),
     ed_KeepAlive = (\<lambda>l s. (Inr (), s\<lparr>dm_kept := l # dm_kept s\<rparr>)),
     ed_GetPrefix = (\<lambda>k s. Inr (map (\<lambda>(k, v, lo). (k, v)) (filter (\<lambda>c. prefix k (fst c)) (dm_cells s))))\<rparr>"

definition demo_view :: "demo_etcd_state etcd_view" where
  "demo_view = \<lparr>ev_cell = (\<lambda>s. map_of (dm_cells s)), ev_kept = (\<lambda>s. set (dm_kept s))\<rparr>"

lemma below_sum: "x \<in> set xs \<Longrightarrow> x < 1 + sum_list (map abs xs)" for x :: int
proof (induction xs)
  case (Cons y ys)
  have "0 \<le> sum_list (map abs ys)" by (induction ys) auto
  with Cons show ?case by auto
qed simp

lemma demo_fresh:
  "1 + sum_list (map abs (demo_leases s)) \<notin> set (dm_kept s)"
  "map_of (dm_cells s) k \<noteq> Some (v, Some (1 + sum_list (map abs (demo_leases s))))"
proof -
  let ?l = "1 + sum_list (map abs (demo_leases s))"
  have "?l \<notin> set (demo_leases s)" using below_sum [of ?l "demo_leases s"] by blast
  then have l: "?l \<notin> set (dm_kept s)" "?l \<notin> set (List.map_filter (\<lambda>(k, v, lo). lo) (dm_cells s))"
    unfolding demo_leases_def by simp_all
  show "?l \<notin> set (dm_kept s)" by (rule l(1))
  have "(k, v, Some ?l) \<notin> set (dm_cells s)" using l(2) by (force simp: List.map_filter_def)
  then show "map_of (dm_cells s) k \<noteq> Some (v, Some ?l)" using map_of_SomeD [of "dm_cells s" k "(v, Some ?l)"] by blast
qed

lemma demo_etcd_ok: "etcd_ok demo_etcd demo_view"
  unfolding etcd_ok_def
proof (intro conjI allI impI)
  fix n r s s' l k v
  assume "ed_Grant demo_etcd n s = (r, s')"
  then have g: "s' = s" "r = Inr (1 + sum_list (map abs (demo_leases s)))" by (auto simp: demo_etcd_def)
  show "ev_cell demo_view s' = ev_cell demo_view s" "ev_kept demo_view s' = ev_kept demo_view s" by (simp_all add: g)
  assume "r = Inr l"
  with g(2) have l: "l = 1 + sum_list (map abs (demo_leases s))" by simp
  show "l \<notin> ev_kept demo_view s" unfolding l using demo_fresh(1) by (simp add: demo_view_def)
  show "ev_cell demo_view s k \<noteq> Some (v, Some l)" unfolding l using demo_fresh(2) by (simp add: demo_view_def)
qed (auto simp: demo_etcd_def demo_view_def split: if_splits)

lemma demo_calm: "calm demo_view key n (\<lambda>_ s. s)"
  by (simp add: calm_def others_keep_def)


theorem restart_unprotected_witness:
  "\<exists>s'. Acquire demo_etcd (\<lambda>_ s. s) ''leader'' ''a'' \<lparr>dm_cells = [(''leader'', ''a'', Some 5)], dm_kept = []\<rparr> = (Inr ''a'', s') \<and>
     \<not> (\<exists>l. holds demo_view ''leader'' ''a'' l s')"
proof -
  let ?s = "\<lparr>dm_cells = [(''leader'', ''a'', Some 5)], dm_kept = []\<rparr>"
  obtain s' where a: "Acquire demo_etcd (\<lambda>_ s. s) ''leader'' ''a'' ?s = (Inr ''a'', s')"
    by (simp add: Acquire_def compete_def confirm_def demo_etcd_def Let_def)
  have "ours_under demo_view ''leader'' ''a'' 5 ?s" "5 \<notin> ev_kept demo_view ?s" by (simp_all add: ours_under_def demo_view_def)
  from restart_unprotected [OF demo_etcd_ok this _ a] a show ?thesis by (auto simp: others_keep_def)
qed

end
