(* ===== verification/StdServer.thy ===== *)
theory StdServer
  imports Certs
begin

text \<open>
  The standard HTTP servers (\<open>http/stdserver/server.go\<close>): plain, TLS with a certificate that can be
  replaced while it runs, and the pair of both. The endpoints of the process are a list; a server
  is its place in it. Which attempts to listen fail, and what \<open>http.Server.Shutdown\<close> reports (it
  closes the listener first, and may then give up waiting for the connections), are arguments.
\<close>

section \<open>Endpoints\<close>

text \<open>\<open>'h\<close> are the handlers. \<open>ns_tries\<close> counts the calls of \<open>net.Listen\<close>.\<close>

record 'h endpoint =
  ep_Addr :: string
  ep_Tls :: bool
  ep_Handler :: 'h
  ep_open :: bool

record 'h net_state =
  ns_endpoints :: "'h endpoint list"
  ns_tries :: nat

type_synonym listen_fn = "nat \<Rightarrow> string \<Rightarrow> go_error option"
type_synonym shutdown_fn = "nat \<Rightarrow> go_error option"

definition Listen :: "listen_fn \<Rightarrow> string \<Rightarrow> bool \<Rightarrow> 'h \<Rightarrow> 'h net_state \<Rightarrow> nat res \<times> 'h net_state" where
  "Listen ln addr tls h n =
     (case ln (ns_tries n) addr of
        Some e \<Rightarrow> (Inl e, n\<lparr>ns_tries := ns_tries n + 1\<rparr>)
      | None \<Rightarrow>
          (Inr (length (ns_endpoints n)),
           n\<lparr>ns_endpoints := ns_endpoints n @ [\<lparr>ep_Addr = addr, ep_Tls = tls, ep_Handler = h, ep_open = True\<rparr>],
             ns_tries := ns_tries n + 1\<rparr>))"

definition close_endpoint :: "nat \<Rightarrow> 'h net_state \<Rightarrow> 'h net_state" where
  "close_endpoint i n = n\<lparr>ns_endpoints := (ns_endpoints n)[i := (ns_endpoints n ! i)\<lparr>ep_open := False\<rparr>]\<rparr>"

definition open_endpoints :: "'h net_state \<Rightarrow> nat set" where
  "open_endpoints n = {i. i < length (ns_endpoints n) \<and> ep_open (ns_endpoints n ! i)}"

section \<open>The plain server\<close>

record 'h StdHttpServerReq =
  sq_Addr :: string
  sq_Handler :: 'h

text \<open>The callback that announces the start writes to the log \<open>started\<close>.\<close>

definition StartStdHttpServer ::
  "listen_fn \<Rightarrow> 'h StdHttpServerReq \<Rightarrow> string option \<Rightarrow> 'h net_state \<times> string list \<Rightarrow> nat res \<times> 'h net_state \<times> string list" where
  "StartStdHttpServer ln req cb = (\<lambda>(n, started).
     case Listen ln (sq_Addr req) False (sq_Handler req) n of
       (Inl e, n) \<Rightarrow> (Inl e, n, started)
     | (Inr srv, n) \<Rightarrow> (Inr srv, n, started @ (case cb of None \<Rightarrow> [] | Some name \<Rightarrow> [name])))"

definition StdHttpServer_Shutdown :: "shutdown_fn \<Rightarrow> nat \<Rightarrow> 'h net_state \<Rightarrow> unit res \<times> 'h net_state" where
  "StdHttpServer_Shutdown sd srv n = ((case sd srv of Some e \<Rightarrow> Inl e | None \<Rightarrow> Inr ()), close_endpoint srv n)"

section \<open>The TLS server\<close>

record 'pk tls_certificate =
  tc_Certificate :: "bytes list"
  tc_Leaf :: Certificate
  tc_PrivateKey :: 'pk

record 'pk certContainer =
  kc_cert :: Certificate
  kc_key :: 'pk
  kc_tlsCert :: "'pk tls_certificate"

record ('h, 'pk) StdHttpTlsServerReq =
  tq_Addr :: string
  tq_Handler :: 'h
  tq_Cert :: Certificate
  tq_CertKey :: 'pk

record 'pk StdHttpTlsServer =
  ts_srv :: nat
  ts_certContainer :: "'pk certContainer"

definition convertCertificate :: "'pk keylib \<Rightarrow> ('pk, 'pub) x509lib \<Rightarrow> Certificate \<Rightarrow> 'pk \<Rightarrow> 'pk tls_certificate res" where
  "convertCertificate lib xl cert key =
     res_bind (EncodeCertificate lib cert) (\<lambda>certData.
     res_bind (ParseCertificate lib xl certData) (\<lambda>cert.
       Inr \<lparr>tc_Certificate = [xc_Raw cert], tc_Leaf = cert, tc_PrivateKey = key\<rparr>))"

definition UpdateCertificate ::
  "'pk keylib \<Rightarrow> ('pk, 'pub) x509lib \<Rightarrow> Certificate \<Rightarrow> 'pk \<Rightarrow> 'pk StdHttpTlsServer \<Rightarrow> unit res \<times> 'pk StdHttpTlsServer" where
  "UpdateCertificate lib xl cert key h =
     (case convertCertificate lib xl cert key of
        Inl e \<Rightarrow> (Inl e, h)
      | Inr tlsCert \<Rightarrow> (Inr (), h\<lparr>ts_certContainer := \<lparr>kc_cert = cert, kc_key = key, kc_tlsCert = tlsCert\<rparr>\<rparr>))"

text \<open>\<open>TLSConfig.GetCertificate\<close>; \<open>supports\<close> is \<open>hello.SupportsCertificate\<close>.\<close>

definition GetCertificate :: "('pk tls_certificate \<Rightarrow> go_error option) \<Rightarrow> 'pk StdHttpTlsServer \<Rightarrow> 'pk tls_certificate res" where
  "GetCertificate supports h =
     (let cc = ts_certContainer h in
      case supports (kc_tlsCert cc) of
        Some e \<Rightarrow> Inl (Errorf ''unsupported certificate'')
      | None \<Rightarrow> Inr (kc_tlsCert cc))"

definition StartStdHttpTlsServer ::
  "'pk keylib \<Rightarrow> ('pk, 'pub) x509lib \<Rightarrow> listen_fn \<Rightarrow> ('h, 'pk) StdHttpTlsServerReq \<Rightarrow> string option \<Rightarrow>
   'h net_state \<times> string list \<Rightarrow> 'pk StdHttpTlsServer res \<times> 'h net_state \<times> string list" where
  "StartStdHttpTlsServer lib xl ln req cb = (\<lambda>(n, started).
     case convertCertificate lib xl (tq_Cert req) (tq_CertKey req) of
       Inl e \<Rightarrow> (Inl e, n, started)
     | Inr cert \<Rightarrow>
         (case Listen ln (tq_Addr req) True (tq_Handler req) n of
            (Inl e, n) \<Rightarrow> (Inl e, n, started)
          | (Inr srv, n) \<Rightarrow>
              (Inr \<lparr>ts_srv = srv, ts_certContainer = \<lparr>kc_cert = tq_Cert req, kc_key = tq_CertKey req, kc_tlsCert = cert\<rparr>\<rparr>,
               n, started @ (case cb of None \<Rightarrow> [] | Some name \<Rightarrow> [name]))))"

definition StdHttpTlsServer_Shutdown :: "shutdown_fn \<Rightarrow> 'pk StdHttpTlsServer \<Rightarrow> 'h net_state \<Rightarrow> unit res \<times> 'h net_state" where
  "StdHttpTlsServer_Shutdown sd h n = ((case sd (ts_srv h) of Some e \<Rightarrow> Inl e | None \<Rightarrow> Inr ()), close_endpoint (ts_srv h) n)"

section \<open>Both\<close>

record ('h, 'pk) CombinedStdHttpServerReq =
  bq_Addr :: string
  bq_TlsAddr :: string
  bq_Cert :: "Certificate option"
  bq_CertKey :: "'pk option"
  bq_Handler :: 'h
  bq_StartedCallback :: bool

record 'pk CombinedStdHttpServer =
  bs_httpServer :: "nat option"
  bs_tlsHttpServer :: "'pk StdHttpTlsServer option"

text \<open>The named results: the server is returned beside an error too.\<close>

definition StartCombinedStdHttpServer ::
  "'pk keylib \<Rightarrow> ('pk, 'pub) x509lib \<Rightarrow> listen_fn \<Rightarrow> ('h, 'pk) CombinedStdHttpServerReq \<Rightarrow> 'h net_state \<times> string list \<Rightarrow>
   ('pk CombinedStdHttpServer \<times> go_error option) \<times> 'h net_state \<times> string list" where
  "StartCombinedStdHttpServer lib xl ln req st =
     (let result = \<lparr>bs_httpServer = None, bs_tlsHttpServer = None\<rparr>;
          cb = (\<lambda>name. if bq_StartedCallback req then Some name else None) in
      case StartStdHttpServer ln \<lparr>sq_Addr = bq_Addr req, sq_Handler = bq_Handler req\<rparr> (cb ''http'') st of
        (Inl e, st) \<Rightarrow> ((result, Some e), st)
      | (Inr httpServer, st) \<Rightarrow>
          (let result = result\<lparr>bs_httpServer := Some httpServer\<rparr> in
           case (bq_TlsAddr req \<noteq> [], bq_Cert req, bq_CertKey req) of
             (True, Some cert, Some key) \<Rightarrow>
               (case StartStdHttpTlsServer lib xl ln
                       \<lparr>tq_Addr = bq_TlsAddr req, tq_Handler = bq_Handler req, tq_Cert = cert, tq_CertKey = key\<rparr> (cb ''https'') st of
                  (Inl e, st) \<Rightarrow> ((result, Some e), st)
                | (Inr tlsHttpServer, st) \<Rightarrow> ((result\<lparr>bs_tlsHttpServer := Some tlsHttpServer\<rparr>, None), st))
           | _ \<Rightarrow> ((result, None), st)))"

text \<open>The errors joined, none for nil.\<close>

definition CombinedStdHttpServer_Shutdown ::
  "shutdown_fn \<Rightarrow> 'pk CombinedStdHttpServer \<Rightarrow> 'h net_state \<Rightarrow> go_error list \<times> 'h net_state" where
  "CombinedStdHttpServer_Shutdown sd h n =
     (let (errs, n) = (case bs_httpServer h of
            None \<Rightarrow> ([], n)
          | Some srv \<Rightarrow> (case StdHttpServer_Shutdown sd srv n of (Inl e, n) \<Rightarrow> ([e], n) | (Inr _, n) \<Rightarrow> ([], n)))
      in case bs_tlsHttpServer h of
           None \<Rightarrow> (errs, n)
         | Some t \<Rightarrow> (case StdHttpTlsServer_Shutdown sd t n of (Inl e, n) \<Rightarrow> (errs @ [e], n) | (Inr _, n) \<Rightarrow> (errs, n)))"

section \<open>Lemmas\<close>

lemma open_bound: "i \<in> open_endpoints n \<Longrightarrow> i < length (ns_endpoints n)"
  by (simp add: open_endpoints_def)

lemma open_append: "open_endpoints (n\<lparr>ns_endpoints := ns_endpoints n @ [e], ns_tries := t\<rparr>) =
    (if ep_open e then insert (length (ns_endpoints n)) (open_endpoints n) else open_endpoints n)"
proof -
  have "i \<in> open_endpoints (n\<lparr>ns_endpoints := ns_endpoints n @ [e], ns_tries := t\<rparr>) \<longleftrightarrow>
    i \<in> open_endpoints n \<or> i = length (ns_endpoints n) \<and> ep_open e" for i
    by (cases i "length (ns_endpoints n)" rule: linorder_cases) (simp_all add: open_endpoints_def nth_append)
  then show ?thesis by (cases "ep_open e") (simp_all add: set_eq_iff disj_commute)
qed

lemma Listen_cases:
  assumes "Listen ln addr tls h n = (r, n')"
  obtains (failed) e where "r = Inl e" "open_endpoints n' = open_endpoints n" "length (ns_endpoints n') = length (ns_endpoints n)"
    | (opened) "r = Inr (length (ns_endpoints n))" "length (ns_endpoints n') = Suc (length (ns_endpoints n))"
      "open_endpoints n' = insert (length (ns_endpoints n)) (open_endpoints n)"
proof (cases "ln (ns_tries n) addr")
  case None
  then have "r = Inr (length (ns_endpoints n))"
    "n' = n\<lparr>ns_endpoints := ns_endpoints n @ [\<lparr>ep_Addr = addr, ep_Tls = tls, ep_Handler = h, ep_open = True\<rparr>], ns_tries := ns_tries n + 1\<rparr>"
    using assms by (simp_all add: Listen_def)
  then show ?thesis using opened by (simp add: open_append)
next
  case (Some e)
  then have "r = Inl e" "n' = n\<lparr>ns_tries := ns_tries n + 1\<rparr>" using assms by (simp_all add: Listen_def)
  then show ?thesis using failed by (simp add: open_endpoints_def)
qed

lemma open_close: "open_endpoints (close_endpoint i n) = open_endpoints n - {i}"
proof -
  have "j \<in> open_endpoints (close_endpoint i n) \<longleftrightarrow> j \<in> open_endpoints n \<and> j \<noteq> i" for j
    by (cases "j = i") (simp_all add: open_endpoints_def close_endpoint_def)
  then show ?thesis by blast
qed

text \<open>The endpoints of a combined server.\<close>

definition srv_of :: "'pk CombinedStdHttpServer \<Rightarrow> nat set" where
  "srv_of h = set_option (bs_httpServer h) \<union> set_option (map_option ts_srv (bs_tlsHttpServer h))"

lemma open_combined_Shutdown:
  "CombinedStdHttpServer_Shutdown sd h n = (errs, n') \<Longrightarrow> open_endpoints n' = open_endpoints n - srv_of h"
  by (auto simp: CombinedStdHttpServer_Shutdown_def StdHttpServer_Shutdown_def StdHttpTlsServer_Shutdown_def srv_of_def
      open_close split: option.splits)

text \<open>What a start opens is new.\<close>

definition opens :: "nat set \<Rightarrow> 'h net_state \<Rightarrow> 'h net_state \<Rightarrow> bool" where
  "opens is n n' \<longleftrightarrow> open_endpoints n' = open_endpoints n \<union> is \<and> is \<inter> open_endpoints n = {} \<and>
     length (ns_endpoints n) \<le> length (ns_endpoints n') \<and> is \<subseteq> {length (ns_endpoints n)..}"

lemma opens_none [simp]: "opens {} n n"
  by (simp add: opens_def)

lemma opens_trans: "opens is n n1 \<Longrightarrow> opens js n1 n2 \<Longrightarrow> opens (is \<union> js) n n2"
  by (auto simp: opens_def)

lemma opens_Listen:
  assumes "Listen ln addr tls h n = (r, n')"
  shows "opens (case r of Inl e \<Rightarrow> {} | Inr i \<Rightarrow> {i}) n n'"
  using assms open_bound [of _ n] by (cases rule: Listen_cases) (auto simp: opens_def)

lemma opens_StartStd:
  assumes "StartStdHttpServer ln req cb (n, st) = (r, n', st')"
  shows "opens (case r of Inl e \<Rightarrow> {} | Inr i \<Rightarrow> {i}) n n'"
proof -
  obtain r1 n1 where l: "Listen ln (sq_Addr req) False (sq_Handler req) n = (r1, n1)" by (cases "Listen ln (sq_Addr req) False (sq_Handler req) n")
  have "r1 = r" "n1 = n'" using assms l by (cases r1; simp add: StartStdHttpServer_def)+
  with opens_Listen [OF l] show ?thesis by simp
qed

lemma opens_StartTls:
  assumes "StartStdHttpTlsServer lib xl ln req cb (n, st) = (r, n', st')"
  shows "opens (case r of Inl e \<Rightarrow> {} | Inr t \<Rightarrow> {ts_srv t}) n n'"
proof (cases "convertCertificate lib xl (tq_Cert req) (tq_CertKey req)")
  case (Inl e)
  then show ?thesis using assms by (auto simp: StartStdHttpTlsServer_def)
next
  case (Inr c)
  obtain r1 n1 where l: "Listen ln (tq_Addr req) True (tq_Handler req) n = (r1, n1)" by (cases "Listen ln (tq_Addr req) True (tq_Handler req) n")
  show ?thesis using assms opens_Listen [OF l] Inr by (cases r1) (auto simp: StartStdHttpTlsServer_def l)
qed

lemma opens_StartCombined:
  assumes "StartCombinedStdHttpServer lib xl ln req (n, st) = ((h, e), n', st')"
  shows "opens (srv_of h) n n'"
proof -
  let ?cb = "\<lambda>name. if bq_StartedCallback req then Some name else None"
  obtain r n1 st1 where r: "StartStdHttpServer ln \<lparr>sq_Addr = bq_Addr req, sq_Handler = bq_Handler req\<rparr> (?cb ''http'') (n, st) = (r, n1, st1)"
    by (cases "StartStdHttpServer ln \<lparr>sq_Addr = bq_Addr req, sq_Handler = bq_Handler req\<rparr> (?cb ''http'') (n, st)")
  note o1 = opens_StartStd [OF r]
  show ?thesis
  proof (cases r)
    case (Inl e1)
    then show ?thesis using assms r o1 by (simp add: StartCombinedStdHttpServer_def srv_of_def) (auto simp: srv_of_def)
  next
    case (Inr i)
    note o2 = o1 [unfolded Inr, simplified]
    show ?thesis
    proof (cases "bq_TlsAddr req \<noteq> [] \<and> bq_Cert req \<noteq> None \<and> bq_CertKey req \<noteq> None")
      case False
      then have "h = \<lparr>bs_httpServer = Some i, bs_tlsHttpServer = None\<rparr>" "n' = n1"
        using assms r Inr by (auto simp: StartCombinedStdHttpServer_def Let_def split: option.splits bool.splits)
      then show ?thesis using o2 by (simp add: srv_of_def)
    next
      case True
      then obtain cert key where k: "bq_Cert req = Some cert" "bq_CertKey req = Some key" by blast
      let ?tq = "\<lparr>tq_Addr = bq_TlsAddr req, tq_Handler = bq_Handler req, tq_Cert = cert, tq_CertKey = key\<rparr>"
      obtain t n2 st2 where t: "StartStdHttpTlsServer lib xl ln ?tq (?cb ''https'') (n1, st1) = (t, n2, st2)"
        by (cases "StartStdHttpTlsServer lib xl ln ?tq (?cb ''https'') (n1, st1)")
      have "h = \<lparr>bs_httpServer = Some i, bs_tlsHttpServer = (case t of Inl e \<Rightarrow> None | Inr t \<Rightarrow> Some t)\<rparr>" "n' = n2"
        using assms r Inr True k t by (cases t; simp add: StartCombinedStdHttpServer_def)+
      then show ?thesis using opens_trans [OF o2 opens_StartTls [OF t]] by (cases t) (simp_all add: srv_of_def)
    qed
  qed
qed

text \<open>What a TLS server answers after a sequence of updates: the last certificate that could be converted.\<close>

fun last_certificate :: "'pk keylib \<Rightarrow> ('pk, 'pub) x509lib \<Rightarrow> (Certificate \<times> 'pk) list \<Rightarrow> 'pk tls_certificate \<Rightarrow> 'pk tls_certificate" where
  "last_certificate lib xl [] c = c"
| "last_certificate lib xl ((cert, key) # us) c =
     last_certificate lib xl us (case convertCertificate lib xl cert key of Inl e \<Rightarrow> c | Inr c' \<Rightarrow> c')"

lemma updates_last:
  "kc_tlsCert (ts_certContainer (fold (\<lambda>(cert, key) h. snd (UpdateCertificate lib xl cert key h)) us h)) =
     last_certificate lib xl us (kc_tlsCert (ts_certContainer h))"
  by (induction us arbitrary: h) (auto simp: UpdateCertificate_def split: sum.split)

lemma convertCertificate_parsed:
  assumes "keylib_ok lib" "parsed xl cert"
  shows "convertCertificate lib xl cert key = Inr \<lparr>tc_Certificate = [xc_Raw cert], tc_Leaf = cert, tc_PrivateKey = key\<rparr>"
  using ParseCertificate_Encode [OF assms] by (auto simp: convertCertificate_def EncodeCertificate_def)

end
