(* ===== verification/SecretLifecycle.thy ===== *)
theory SecretLifecycle
  imports StdServer SecretCerts
begin

text \<open>
  Starting and stopping the secret server (\<open>secretserver/server.go\<close>): the read and the write
  endpoint, each a plain and, if it has a certificate, a TLS server.
\<close>

section \<open>The server\<close>

record 'pk service_addr =
  sa_Addr :: string
  sa_TlsAddr :: string
  sa_Cert :: "Certificate option"
  sa_CertKey :: "'pk option"

text \<open>The muxes: the read service has no routes, the write service those of the stub.\<close>

datatype 's mux = ReadMux | WriteMux "'s ChiApiStub"

record ('s, 'pk) SecretServer =
  sr_ReadService :: "'pk service_addr"
  sr_WriteService :: "'pk service_addr"
  sr_readMux :: "'s mux"
  sr_writeMux :: "'s mux"
  sr_writeserver :: "'pk CombinedStdHttpServer option"
  sr_readserver :: "'pk CombinedStdHttpServer option"

definition NewSecretServer ::
  "('s, 'pk, 'pub) SecretServerReq \<Rightarrow> 'pk service_addr \<Rightarrow> 'pk service_addr \<Rightarrow> ('s, 'pk) SecretServer res" where
  "NewSecretServer q rd wr =
     res_bind (initWriteApis q) (\<lambda>stub.
       Inr \<lparr>sr_ReadService = rd, sr_WriteService = wr, sr_readMux = ReadMux, sr_writeMux = WriteMux stub,
            sr_writeserver = None, sr_readserver = None\<rparr>)"

definition service_req :: "'pk service_addr \<Rightarrow> 's mux \<Rightarrow> ('s mux, 'pk) CombinedStdHttpServerReq" where
  "service_req a h =
     \<lparr>bq_Addr = sa_Addr a, bq_TlsAddr = sa_TlsAddr a, bq_Cert = sa_Cert a, bq_CertKey = sa_CertKey a, bq_Handler = h,
      bq_StartedCallback = True\<rparr>"

definition SecretServer_Startup ::
  "'pk keylib \<Rightarrow> ('pk, 'pub) x509lib \<Rightarrow> listen_fn \<Rightarrow> ('s, 'pk) SecretServer \<Rightarrow> 's mux net_state \<times> string list \<Rightarrow>
   (unit res \<times> ('s, 'pk) SecretServer) \<times> 's mux net_state \<times> string list" where
  "SecretServer_Startup lib xl ln s st =
     (case StartCombinedStdHttpServer lib xl ln (service_req (sr_WriteService s) (sr_writeMux s)) st of
        ((writeserver, Some e), st) \<Rightarrow> ((Inl e, s), st)
      | ((writeserver, None), st) \<Rightarrow>
          (let s = s\<lparr>sr_writeserver := Some writeserver\<rparr> in
           case StartCombinedStdHttpServer lib xl ln (service_req (sr_ReadService s) (sr_readMux s)) st of
             ((readserver, Some e), st) \<Rightarrow> ((Inl e, s), st)
           | ((readserver, None), st) \<Rightarrow> ((Inr (), s\<lparr>sr_readserver := Some readserver\<rparr>), st)))"

definition SecretServer_Shutdown ::
  "shutdown_fn \<Rightarrow> ('s, 'pk) SecretServer \<Rightarrow> 's mux net_state \<Rightarrow> go_error list \<times> 's mux net_state" where
  "SecretServer_Shutdown sd s n =
     (let (errs, n) = (case sr_readserver s of None \<Rightarrow> ([], n) | Some h \<Rightarrow> CombinedStdHttpServer_Shutdown sd h n) in
      case sr_writeserver s of
        None \<Rightarrow> (errs, n)
      | Some h \<Rightarrow> (let (errs', n) = CombinedStdHttpServer_Shutdown sd h n in (errs @ errs', n)))"

section \<open>Lemmas\<close>

definition kept_srvs :: "('s, 'pk) SecretServer \<Rightarrow> nat set" where
  "kept_srvs s = (case sr_readserver s of None \<Rightarrow> {} | Some h \<Rightarrow> srv_of h) \<union> (case sr_writeserver s of None \<Rightarrow> {} | Some h \<Rightarrow> srv_of h)"

lemma open_Shutdown:
  assumes "SecretServer_Shutdown sd s n = (errs, n')"
  shows "open_endpoints n' = open_endpoints n - kept_srvs s"
proof -
  obtain e1 n1 where r: "(case sr_readserver s of None \<Rightarrow> ([], n) | Some h \<Rightarrow> CombinedStdHttpServer_Shutdown sd h n) = (e1, n1)"
    by (cases "case sr_readserver s of None \<Rightarrow> ([], n) | Some h \<Rightarrow> CombinedStdHttpServer_Shutdown sd h n")
  have o1: "open_endpoints n1 = open_endpoints n - (case sr_readserver s of None \<Rightarrow> {} | Some h \<Rightarrow> srv_of h)"
    using r open_combined_Shutdown [of sd _ n e1 n1] by (cases "sr_readserver s") simp_all
  show ?thesis
  proof (cases "sr_writeserver s")
    case None
    then show ?thesis using assms r o1 by (simp add: SecretServer_Shutdown_def kept_srvs_def)
  next
    case (Some h)
    obtain e2 n2 where w: "CombinedStdHttpServer_Shutdown sd h n1 = (e2, n2)" by (cases "CombinedStdHttpServer_Shutdown sd h n1")
    have "n' = n2" using assms r w Some by (simp add: SecretServer_Shutdown_def)
    then show ?thesis using open_combined_Shutdown [OF w] o1 Some by (auto simp: kept_srvs_def)
  qed
qed

text \<open>A start-up opens the endpoints it keeps, and those of the combined server that failed.\<close>

lemma Startup_opens:
  assumes "sr_readserver s = None" "sr_writeserver s = None"
    and "SecretServer_Startup lib xl ln s (n, st) = ((r, s'), n', st')"
  shows "\<exists>lost. opens (kept_srvs s' \<union> lost) n n' \<and> kept_srvs s' \<inter> lost = {} \<and> (r = Inr () \<longrightarrow> lost = {})"
proof -
  obtain h1 e1 n1 st1 where w: "StartCombinedStdHttpServer lib xl ln (service_req (sr_WriteService s) (sr_writeMux s)) (n, st) = ((h1, e1), n1, st1)"
    by (metis surj_pair)
  note o1 = opens_StartCombined [OF w]
  show ?thesis
  proof (cases e1)
    case (Some e)
    then have "r = Inl e" "s' = s" "n' = n1" using assms(3) w by (simp_all add: SecretServer_Startup_def)
    then show ?thesis using o1 assms(1,2) by (intro exI [of _ "srv_of h1"]) (simp add: kept_srvs_def)
  next
    case None
    let ?s = "s\<lparr>sr_writeserver := Some h1\<rparr>"
    obtain h2 e2 n2 st2 where r: "StartCombinedStdHttpServer lib xl ln (service_req (sr_ReadService ?s) (sr_readMux ?s)) (n1, st1) = ((h2, e2), n2, st2)"
      by (metis surj_pair)
    note o2 = opens_StartCombined [OF r]
    have dis: "srv_of h1 \<inter> srv_of h2 = {}" using o1 o2 by (auto simp: opens_def)
    show ?thesis
    proof (cases e2)
      case (Some e)
      then have "r = Inl e" "s' = ?s" "n' = n2" using assms(3) w r None by (simp_all add: SecretServer_Startup_def)
      then show ?thesis using opens_trans [OF o1 o2] dis assms(1) by (intro exI [of _ "srv_of h2"]) (simp add: kept_srvs_def)
    next
      case ok: None
      then have "r = Inr ()" "s' = ?s\<lparr>sr_readserver := Some h2\<rparr>" "n' = n2"
        using assms(3) w r None by (simp_all add: SecretServer_Startup_def)
      then show ?thesis using opens_trans [OF o1 o2] by (intro exI [of _ "{}"]) (simp add: kept_srvs_def Un_commute)
    qed
  qed
qed

section \<open>Properties\<close>

text \<open>C28. After a start-up that succeeded, a single shut-down closes every endpoint that the start-up
  opened and no other, whatever errors the servers report on the way; after a start-up that
  failed, a shut-down closes no endpoint that was open before it.\<close>

theorem shutdown_closes:
  assumes "sr_readserver s = None" "sr_writeserver s = None"
    and "SecretServer_Startup lib xl ln s (n, st) = ((r, s'), n', st')" "SecretServer_Shutdown sd s' n' = (errs, n2)"
  shows "open_endpoints n \<subseteq> open_endpoints n2 \<and> (r = Inr () \<longrightarrow> open_endpoints n2 = open_endpoints n)"
  using Startup_opens [OF assms(1-3)] open_Shutdown [OF assms(4)] by (auto simp: opens_def)

text \<open>A start-up that fails at the TLS listener of the write service leaves its plain listener open,
  and no shut-down can close it: the combined server that holds it is dropped with the error.\<close>

lemma failed_startup_leaks:
  assumes "sr_readserver s = None" "sr_writeserver s = None"
    and "ln (ns_tries n) (sa_Addr (sr_WriteService s)) = None"
    and "sa_TlsAddr (sr_WriteService s) \<noteq> []" "sa_Cert (sr_WriteService s) = Some cert" "sa_CertKey (sr_WriteService s) = Some key"
    and "ln (ns_tries n + 1) (sa_TlsAddr (sr_WriteService s)) = Some e" "convertCertificate lib xl cert key = Inr tc"
  shows "\<exists>s' n' st'. SecretServer_Startup lib xl ln s (n, st) = ((Inl e, s'), n', st') \<and>
    open_endpoints (snd (SecretServer_Shutdown sd s' n')) = insert (length (ns_endpoints n)) (open_endpoints n)"
proof -
  let ?h = "\<lparr>ep_Addr = sa_Addr (sr_WriteService s), ep_Tls = False, ep_Handler = sr_writeMux s, ep_open = True\<rparr>"
  let ?n = "n\<lparr>ns_endpoints := ns_endpoints n @ [?h], ns_tries := ns_tries n + 2\<rparr>"
  have "SecretServer_Startup lib xl ln s (n, st) = ((Inl e, s), ?n, st @ [''http''])"
    using assms(3-8)
    by (simp add: SecretServer_Startup_def StartCombinedStdHttpServer_def StartStdHttpServer_def StartStdHttpTlsServer_def Listen_def service_req_def)
  moreover have "open_endpoints (snd (SecretServer_Shutdown sd s ?n)) = insert (length (ns_endpoints n)) (open_endpoints n)"
    using assms(1,2) by (simp add: SecretServer_Shutdown_def open_append)
  ultimately show ?thesis by blast
qed

section \<open>Examples\<close>

definition demo_secret_server :: "(nat, nat) SecretServer" where
  "demo_secret_server =
     (let a = \<lparr>sa_Addr = '':80'', sa_TlsAddr = [], sa_Cert = None, sa_CertKey = None\<rparr> in
      \<lparr>sr_ReadService = a, sr_WriteService = a, sr_readMux = ReadMux, sr_writeMux = ReadMux, sr_writeserver = None, sr_readserver = None\<rparr>)"

theorem shutdown_closes_witness:
  "\<forall>lib xl. \<exists>s' n' st'. SecretServer_Startup lib xl (\<lambda>_ _. None) demo_secret_server (\<lparr>ns_endpoints = [], ns_tries = 0\<rparr>, []) =
       ((Inr (), s'), n', st') \<and>
     st' = [''http'', ''http''] \<and> open_endpoints (snd (SecretServer_Shutdown (\<lambda>_. Some (Errorf ''timeout'')) s' n')) = {}"
proof (intro allI)
  fix lib :: "nat keylib" and xl :: "(nat, 'pub) x509lib"
  let ?n = "\<lparr>ns_endpoints = [], ns_tries = 0\<rparr> :: nat mux net_state"
  obtain s' n' st' where r: "SecretServer_Startup lib xl (\<lambda>_ _. None) demo_secret_server (?n, []) = ((Inr (), s'), n', st')"
      "st' = [''http'', ''http'']"
    by (simp add: SecretServer_Startup_def demo_secret_server_def StartCombinedStdHttpServer_def StartStdHttpServer_def Listen_def service_req_def Let_def)
  obtain errs n2 where d: "SecretServer_Shutdown (\<lambda>_. Some (Errorf ''timeout'')) s' n' = (errs, n2)"
    by (cases "SecretServer_Shutdown (\<lambda>_. Some (Errorf ''timeout'')) s' n'")
  have "sr_readserver demo_secret_server = None" "sr_writeserver demo_secret_server = None"
    by (simp_all add: demo_secret_server_def Let_def)
  from shutdown_closes [OF this r(1) d] have "open_endpoints n2 = open_endpoints ?n" by blast
  then have "open_endpoints n2 = {}" by (simp add: open_endpoints_def)
  with r d show "\<exists>s' n' st'. SecretServer_Startup lib xl (\<lambda>_ _. None) demo_secret_server (?n, []) = ((Inr (), s'), n', st') \<and>
     st' = [''http'', ''http''] \<and> open_endpoints (snd (SecretServer_Shutdown (\<lambda>_. Some (Errorf ''timeout'')) s' n')) = {}" by auto
qed

end
