(* ===== verification/InitLocal.thy ===== *)
theory InitLocal
  imports Unseal
begin

text \<open>
  The tool that prepares the key file of the local unseal provider
  (\<open>secretcmd/initlocal/initlocal.go\<close>): it prints a new key set, encrypted under a password, and
  decrypts what it printed into the key file. PBKDF2 and the CBOR codec are parameters, as are the
  outcomes of the files; every error is a panic.
\<close>

record EncBlock =
  eb_S :: bytes
  eb_T :: bytes

record initlib =
  il_pbkdf2 :: "bytes \<Rightarrow> bytes \<Rightarrow> nat \<Rightarrow> nat \<Rightarrow> bytes" \<comment> \<open>password, salt, rounds, length\<close>
  il_Marshal :: "EncBlock \<Rightarrow> bytes res"
  il_Unmarshal :: "bytes \<Rightarrow> EncBlock res"

text \<open>\<open>if err != nil { panic(err) }\<close>.\<close>

definition must :: "'a res \<Rightarrow> 'a run" where
  "must r = (case r of Inl e \<Rightarrow> Panic | Inr x \<Rightarrow> Done x)"

lemma must_Done [simp]: "must r = Done x \<longleftrightarrow> r = Inr x"
  by (cases r) (auto simp: must_def)

definition keyGen :: "initlib \<Rightarrow> 'pk rng \<Rightarrow> string \<Rightarrow> (bytes \<times> bytes) run" where
  "keyGen il rg password =
     run_bind (must (rg_read rg 128)) (\<lambda>salt. Done (il_pbkdf2 il (bytes_of password) salt 4096 32, salt))"

definition encryptData :: "'pk keylib \<Rightarrow> initlib \<Rightarrow> 'pk rng \<Rightarrow> bytes \<Rightarrow> string \<Rightarrow> bytes run" where
  "encryptData lib il rg data password =
     run_bind (keyGen il rg password) (\<lambda>(key, salt).
     run_bind (must (aes_NewCipher key)) (\<lambda>ci.
     let encrypted = kl_seal lib ci (take gcm_nonce_size salt) data [] in
     must (il_Marshal il \<lparr>eb_S = salt, eb_T = encrypted\<rparr>)))"

text \<open>The slice of a salt shorter than the nonce panics.\<close>

definition decryptData :: "'pk keylib \<Rightarrow> initlib \<Rightarrow> bytes \<Rightarrow> string \<Rightarrow> bytes run" where
  "decryptData lib il result password =
     run_bind (must (il_Unmarshal il result)) (\<lambda>block.
     run_bind (must (aes_NewCipher (il_pbkdf2 il (bytes_of password) (eb_S block) 4096 32))) (\<lambda>ci.
     if length (eb_S block) < gcm_nonce_size then Panic
     else run_bind (aead_Open lib ci (take gcm_nonce_size (eb_S block)) (eb_T block) []) must))"

text \<open>The first mode of \<open>main\<close>: what it prints, with the newline of \<open>Println\<close>.\<close>

definition generate_mode :: "'pk keylib \<Rightarrow> initlib \<Rightarrow> 'pk rng \<Rightarrow> string \<Rightarrow> bytes run" where
  "generate_mode lib il rg password =
     run_bind (must (GenerateVitalKeySet lib rg)) (\<lambda>ks.
     run_bind (must (SaveAsBytes lib ks)) (\<lambda>data.
     run_bind (encryptData lib il rg data password) (\<lambda>encData.
     run_bind (must (EncodeCustom lib encData ''ENCRYPTED KETSET'')) (\<lambda>result.
       Done (result @ [10])))))"

text \<open>\<open>decodeMode\<close>: the content of the output file; the outcomes of opening, writing and syncing it are \<open>out\<close>.\<close>

definition decodeMode :: "'pk keylib \<Rightarrow> initlib \<Rightarrow> bytes res \<Rightarrow> unit res list \<Rightarrow> string \<Rightarrow> bytes run" where
  "decodeMode lib il input out password =
     run_bind (must input) (\<lambda>data.
     run_bind (must (ParseCustom lib data)) (\<lambda>encData.
     run_bind (decryptData lib il encData password) (\<lambda>plaintext.
     run_bind (run_fold (\<lambda>r _. must r) out ()) (\<lambda>_. Done plaintext))))"

text \<open>The flags decide: any file name selects the second mode.\<close>

definition initlocal_main ::
  "'pk keylib \<Rightarrow> initlib \<Rightarrow> 'pk rng \<Rightarrow> (string \<Rightarrow> bytes res) \<Rightarrow> (string \<Rightarrow> unit res list) \<Rightarrow> string \<Rightarrow> string \<Rightarrow> string \<Rightarrow> bytes run" where
  "initlocal_main lib il rg read out inputFile outputFile password =
     (if inputFile \<noteq> [] \<or> outputFile \<noteq> [] then decodeMode lib il (read inputFile) (out outputFile) password
      else generate_mode lib il rg password)"

section \<open>Properties\<close>

text \<open>What the libraries document: PBKDF2 gives the length asked for, CBOR gives back what it encoded, and \<open>pem.Decode\<close> leaves aside what follows the block.\<close>

definition initlib_ok :: "'pk keylib \<Rightarrow> initlib \<Rightarrow> bool" where
  "initlib_ok lib il \<longleftrightarrow> (\<forall>p s r n. length (il_pbkdf2 il p s r n) = n) \<and>
     (\<forall>b d. il_Marshal il b = Inr d \<longrightarrow> il_Unmarshal il d = Inr b) \<and>
     (\<forall>t d r. kl_pem_decode lib (kl_pem_encode lib t d @ r) = Some d)"

lemma decrypt_encrypt:
  assumes "keylib_ok lib" "initlib_ok lib il" "encryptData lib il rg data password = Done enc"
    "\<And>bs. rg_read rg 128 = Inr bs \<Longrightarrow> length bs = 128"
  shows "decryptData lib il enc password = Done data"
proof -
  obtain salt where s: "length salt = 128"
    and m: "il_Marshal il \<lparr>eb_S = salt, eb_T = kl_seal lib (il_pbkdf2 il (bytes_of password) salt 4096 32) (take gcm_nonce_size salt) data []\<rparr> = Inr enc"
    using assms(3,4) by (auto simp: encryptData_def keyGen_def aes_NewCipher_def split: if_splits)
  have len: "length (il_pbkdf2 il (bytes_of password) salt 4096 32) = 32" using assms(2) by (simp add: initlib_ok_def)
  have u: "il_Unmarshal il enc = Inr \<lparr>eb_S = salt, eb_T = kl_seal lib (il_pbkdf2 il (bytes_of password) salt 4096 32) (take gcm_nonce_size salt) data []\<rparr>"
    using assms(2) m by (simp add: initlib_ok_def)
  show ?thesis
    using s len by (simp add: decryptData_def u aes_NewCipher_def aead_Open_def gcm_nonce_size_def keylib_okD(5) [OF assms(1)])
qed

text \<open>C25. The two modes of the tool fit together and fit the unseal provider: decoding what the first
  mode printed, with the same password, writes the generated key set to the output file, and the
  local unseal provider that is given this file loads it as its latest key, with a right checksum.\<close>

theorem init_then_unseal:
  assumes "keylib_ok lib" "initlib_ok lib il"
    and "initlocal_main lib il rg read out [] [] password = Done printed"
    and "inputFile \<noteq> []" "read inputFile = Inr printed" "set (out outputFile) \<subseteq> {Inr ()}"
    and "\<And>bs. rg_read rg 128 = Inr bs \<Longrightarrow> length bs = 128"
  shows "\<exists>ks kf. GenerateVitalKeySet lib rg = Inr ks \<and>
    initlocal_main lib il rg read out inputFile outputFile password = Done kf \<and>
    NewLocalFileUnsealProvider lib (\<lambda>_. Inr kf) [(i, path)] =
      Done (Inr \<lparr>lp_keySets = [(i, ks)], lp_latestKeyId = i, lp_latestKey = ks\<rparr>)"
proof -
  obtain ks kf enc where g: "GenerateVitalKeySet lib rg = Inr ks" "SaveAsBytes lib ks = Inr kf"
    "encryptData lib il rg kf password = Done enc" "printed = kl_pem_encode lib ''ENCRYPTED KETSET'' enc @ [10]"
    using assms(3) by (auto simp: initlocal_main_def generate_mode_def EncodeCustom_def)
  have crc: "VerifyCrc ks" using g(1) by (auto simp: GenerateVitalKeySet_def)
  have load: "LoadFromBytes lib kf = Inr ks"
    using keylib_okD(4) [OF assms(1) crc] g(2) by (simp add: LoadFromBytes_def SaveAsBytes_def)
  have "ParseCustom lib printed = Inr enc" using assms(2) by (simp add: ParseCustom_def g(4) initlib_ok_def)
  moreover have "run_fold (\<lambda>r _. must r) os () = Done ()" if "set os \<subseteq> {Inr ()}" for os
    using that by (induction os) auto
  ultimately have "initlocal_main lib il rg read out inputFile outputFile password = Done kf"
    using assms(4-6) decrypt_encrypt [OF assms(1,2) g(3) assms(7)] by (simp add: initlocal_main_def decodeMode_def must_def)
  then show ?thesis using g(1) load crc by (simp add: NewLocalFileUnsealProvider_def)
qed

text \<open>Blocks in which every byte is marked, closed by a zero.\<close>

fun demo_pem_encode :: "bytes \<Rightarrow> bytes" where
  "demo_pem_encode [] = [0]"
| "demo_pem_encode (b # bs) = 1 # b # demo_pem_encode bs"

fun demo_pem_decode :: "bytes \<Rightarrow> bytes option" where
  "demo_pem_decode (x # b # r) = (if x = 0 then Some [] else map_option (Cons b) (demo_pem_decode r))"
| "demo_pem_decode [x] = (if x = 0 then Some [] else None)"
| "demo_pem_decode [] = None"

lemma demo_pem: "demo_pem_decode (demo_pem_encode d @ r) = Some d"
proof (induction d)
  case Nil
  show ?case by (cases r) simp_all
qed simp

definition demo_pem_keyset :: KeySet where
  "demo_pem_keyset = CalculateCrc (zero_KeySet\<lparr>AES256 := replicate 32 7, RSA4096 := demo_pem_encode [1],
     ECDSA_P521 := demo_pem_encode [2], ED25519_PUB := [3], ED25519_PRI := [4]\<rparr>)"

definition demo_pemlib :: "bytes keylib" where
  "demo_pemlib = demo_keylib\<lparr>kl_pem_encode := \<lambda>t d. demo_pem_encode d, kl_pem_decode := demo_pem_decode,
     kl_json_marshal := \<lambda>ks. if ks = demo_pem_keyset then Inr [9] else Inl (Errorf []),
     kl_json_decode := \<lambda>_. Inr demo_pem_keyset\<rparr>"

text \<open>A codec of blocks with a salt of 128 bytes.\<close>

definition demo_initlib :: initlib where
  "demo_initlib = \<lparr>il_pbkdf2 = \<lambda>p s r n. replicate n 5,
     il_Marshal = \<lambda>b. if length (eb_S b) = 128 then Inr (eb_S b @ eb_T b) else Inl (Errorf []),
     il_Unmarshal = \<lambda>d. Inr \<lparr>eb_S = take 128 d, eb_T = drop 128 d\<rparr>\<rparr>"

lemma demo_pemlib_ok: "keylib_ok demo_pemlib" "initlib_ok demo_pemlib demo_initlib"
proof -
  have "keylib_ok demo_keylib" by simp
  then show "keylib_ok demo_pemlib"
    using demo_pem [of _ "[]"] by (auto simp: keylib_ok_def demo_pemlib_def demo_keylib_def split: if_splits)
  show "initlib_ok demo_pemlib demo_initlib"
    using demo_pem by (auto simp: initlib_ok_def demo_pemlib_def demo_initlib_def split: if_splits)
qed

theorem init_then_unseal_witness:
  "\<exists>printed kf. initlocal_main demo_pemlib demo_initlib demo_rng (\<lambda>_. Inr printed) (\<lambda>_. [Inr (), Inr ()]) [] [] ''pw'' = Done printed \<and>
     initlocal_main demo_pemlib demo_initlib demo_rng (\<lambda>_. Inr printed) (\<lambda>_. [Inr (), Inr ()]) ''in'' ''out'' ''pw'' = Done kf \<and>
     NewLocalFileUnsealProvider demo_pemlib (\<lambda>_. Inr kf) [(1, ''out'')] =
       Done (Inr \<lparr>lp_keySets = [(1, demo_pem_keyset)], lp_latestKeyId = 1, lp_latestKey = demo_pem_keyset\<rparr>)"
proof -
  have gen: "GenerateVitalKeySet demo_pemlib demo_rng = Inr demo_pem_keyset"
    by (simp add: GenerateVitalKeySet_def read_random_def demo_rng_def demo_pemlib_def demo_keylib_def demo_pem_keyset_def)
  obtain printed where p: "initlocal_main demo_pemlib demo_initlib demo_rng r out [] [] ''pw'' = Done printed" for r out
    by (simp add: initlocal_main_def generate_mode_def gen SaveAsBytes_def encryptData_def keyGen_def EncodeCustom_def must_def)
      (simp add: demo_pemlib_def demo_keylib_def demo_initlib_def demo_rng_def aes_NewCipher_def)
  have len: "rg_read demo_rng 128 = Inr bs \<Longrightarrow> length bs = 128" for bs by (auto simp: demo_rng_def)
  from init_then_unseal [OF demo_pemlib_ok p [of "\<lambda>_. Inr printed" "\<lambda>_. [Inr (), Inr ()]"], of "''in''" "''out''" 1 "''out''", OF _ refl _ len]
  show ?thesis using p gen by auto
qed

end
