(* ===== verification/GeneralClient.thy ===== *)
theory GeneralClient
  imports HttpTypes KeyTypes
begin

text \<open>
  The client of the secret server (\<open>generalclient/gclient.go\<close>, \<open>gclient.cert.go\<close>, \<open>gclient.key.go\<close>): its
  options with the files they name, and a method per route. The files, \<open>url.Parse\<close>, the JSON codec
  and the exchange over the network (state \<open>'n\<close>) are parameters.
\<close>

section \<open>Options\<close>

record ClientCertOptions =
  cco_CertPath :: string
  cco_KeyPath :: string
  cco_certData :: bytes
  cco_keyData :: bytes

record CaCertOptions =
  cao_CertPath :: string
  cao_certData :: bytes

record SecretOptions =
  so_AddrList :: "string list"
  so_Token :: string
  so_EnforceTls :: bool
  so_ClientCert :: ClientCertOptions
  so_CaCert :: CaCertOptions

text \<open>The files of the options; an empty path is not read.\<close>

definition preload_files :: "(string \<Rightarrow> bytes res) \<Rightarrow> SecretOptions \<Rightarrow> SecretOptions res" where
  "preload_files readFile c =
     res_bind (if cao_CertPath (so_CaCert c) = [] then Inr c
       else res_bind (readFile (cao_CertPath (so_CaCert c))) (\<lambda>data. Inr (c\<lparr>so_CaCert := (so_CaCert c)\<lparr>cao_certData := data\<rparr>\<rparr>))) (\<lambda>c.
     res_bind (if cco_CertPath (so_ClientCert c) = [] then Inr c
       else res_bind (readFile (cco_CertPath (so_ClientCert c))) (\<lambda>data. Inr (c\<lparr>so_ClientCert := (so_ClientCert c)\<lparr>cco_certData := data\<rparr>\<rparr>))) (\<lambda>c.
     if cco_KeyPath (so_ClientCert c) = [] then Inr c
       else res_bind (readFile (cco_KeyPath (so_ClientCert c))) (\<lambda>data. Inr (c\<lparr>so_ClientCert := (so_ClientCert c)\<lparr>cco_keyData := data\<rparr>\<rparr>))))"

text \<open>\<open>scheme\<close> is the scheme \<open>url.Parse\<close> finds.\<close>

fun check_https :: "(string \<Rightarrow> string res) \<Rightarrow> string list \<Rightarrow> unit res" where
  "check_https scheme [] = Inr ()"
| "check_https scheme (addr # addrs) =
     (case scheme addr of
        Inl e \<Rightarrow> Inl (Errorf ''invalid base URL'')
      | Inr s \<Rightarrow> if s \<noteq> ''https'' then Inl (Errorf ''HTTP is not allowed; please use HTTPS'') else check_https scheme addrs)"

definition preload :: "(string \<Rightarrow> bytes res) \<Rightarrow> (string \<Rightarrow> string res) \<Rightarrow> SecretOptions \<Rightarrow> SecretOptions res" where
  "preload readFile scheme c =
     res_bind (preload_files readFile c) (\<lambda>c.
     res_bind (if so_EnforceTls c then check_https scheme (so_AddrList c) else Inr ()) (\<lambda>_. Inr c))"

text \<open>\<open>gl_RootCAs\<close>: the pool the transport trusts; \<open>None\<close> is the nil configuration, that of the system.\<close>

record GeneralClient =
  gl_opt :: SecretOptions
  gl_RootCAs :: "bytes option"

definition NewGeneralClient ::
  "(string \<Rightarrow> bytes res) \<Rightarrow> (string \<Rightarrow> string res) \<Rightarrow> (bytes \<Rightarrow> bool) \<Rightarrow> SecretOptions \<Rightarrow> GeneralClient res" where
  "NewGeneralClient readFile scheme appendCerts opt =
     res_bind (preload readFile scheme opt) (\<lambda>opt.
       let ca = cao_certData (so_CaCert opt) in
       if ca = [] then Inr \<lparr>gl_opt = opt, gl_RootCAs = None\<rparr>
       else if \<not> appendCerts ca then Inl (Errorf ''failed to append CA certificate'')
       else Inr \<lparr>gl_opt = opt, gl_RootCAs = Some ca\<rparr>)"

section \<open>Requests\<close>

text \<open>\<open>'m\<close> are the bodies; \<open>None\<close> is the nil body.\<close>

record 'm SecretRequest =
  sx_Method :: string
  sx_Path :: string
  sx_Headers :: "(string, string) gomap"
  sx_Body :: "'m option"

record SecretResponse =
  sy_StatusCode :: nat
  sy_Body :: bytes

text \<open>
  The surroundings of a request: the codec of the bodies, the server drawn, the requests
  \<open>http.NewRequest\<close> refuses, and the exchange, with the status and the outcome of reading the body.
\<close>

record ('m, 'n) secret_env =
  se_marshal :: "'m \<Rightarrow> bytes res"
  se_pick :: "nat \<Rightarrow> nat"
  se_refuse :: "string \<Rightarrow> string \<Rightarrow> go_error option"
  se_do :: "string \<Rightarrow> string \<Rightarrow> (string \<Rightarrow> string) \<Rightarrow> bytes \<Rightarrow> 'n \<Rightarrow> ((nat \<times> bytes res) res \<times> 'n) run" \<comment> \<open>method, URL, headers, body\<close>

definition DoSecretJson ::
  "('m, 'n) secret_env \<Rightarrow> string \<Rightarrow> 'm SecretRequest \<Rightarrow> 'n \<Rightarrow> (SecretResponse res \<times> 'n) run" where
  "DoSecretJson e baseUrl req n =
     (case (case sx_Body req of None \<Rightarrow> Inr [] | Some b \<Rightarrow> se_marshal e b) of
        Inl er \<Rightarrow> Done (Inl er, n)
      | Inr body \<Rightarrow>
          (case se_refuse e (sx_Method req) (baseUrl @ sx_Path req) of
             Some er \<Rightarrow> Done (Inl er, n)
           | None \<Rightarrow>
               run_bind (se_do e (sx_Method req) (baseUrl @ sx_Path req)
                   (\<lambda>h. case map_of (sx_Headers req) h of None \<Rightarrow> [] | Some v \<Rightarrow> v) body n) (\<lambda>(resp, n).
                 Done (res_bind resp (\<lambda>(status, rb). res_bind rb (\<lambda>responseBody.
                   Inr \<lparr>sy_StatusCode = status, sy_Body = responseBody\<rparr>)), n))))"

text \<open>\<open>rand.Intn(0)\<close> panics.\<close>

definition randomAddr :: "('m, 'n) secret_env \<Rightarrow> string list \<Rightarrow> string run" where
  "randomAddr e list = (if list = [] then Panic else Done (list ! se_pick e (length list)))"

text \<open>What every method does with its request: the status, then the decoding of the body.\<close>

definition secret_call ::
  "('m, 'n) secret_env \<Rightarrow> (bytes \<Rightarrow> 'r res) \<Rightarrow> GeneralClient \<Rightarrow> 'm SecretRequest \<Rightarrow> 'n \<Rightarrow> ('r res \<times> 'n) run" where
  "secret_call e unmarshal g req n =
     run_bind (randomAddr e (so_AddrList (gl_opt g))) (\<lambda>addr.
     run_bind (DoSecretJson e addr req n) (\<lambda>(res, n).
       Done (res_bind res (\<lambda>resp.
         if sy_StatusCode resp \<noteq> 200 then Inl (Errorf ''request failed'') else unmarshal (sy_Body resp)), n)))"

definition auth_headers :: "GeneralClient \<Rightarrow> (string, string) gomap" where
  "auth_headers g = [(''Accept'', ''application/json''), (''Authorization'', ''Bearer '' @ so_Token (gl_opt g))]"

definition json_headers :: "GeneralClient \<Rightarrow> (string, string) gomap" where
  "json_headers g = [(''Accept'', ''application/json''), (''Content-Type'', ''application/json''), (''Authorization'', ''Bearer '' @ so_Token (gl_opt g))]"

section \<open>Certificates\<close>

record NewCertificateRequest =
  nr_KeyName :: string
  nr_CommonName :: string
  nr_Organization :: string
  nr_Country :: string
  nr_Province :: string
  nr_Locality :: string
  nr_StreetAddress :: string
  nr_PostalCode :: string
  nr_DNSNames :: "string list"
  nr_IPAddresses :: "string list"
  nr_EmailAddresses :: "string list"

record NewCertificateRequestResult =
  rr_KeyId :: string
  rr_Request :: string

record NewCertificate =
  nc_CAName :: string
  nc_TTL :: int
  nc_CertName :: string
  nc_CertReqData :: string
  nc_CertUsage :: string
  nc_KeyId :: string

record NewCertificateResult =
  cr_Cert :: string
  cr_CaList :: "string list"

record GetCertificateResult =
  gr_Cert :: string
  gr_CaList :: "string list"
  gr_Key :: string

definition NewCertReq ::
  "(NewCertificateRequest, 'n) secret_env \<Rightarrow> (bytes \<Rightarrow> NewCertificateRequestResult res) \<Rightarrow> GeneralClient \<Rightarrow> NewCertificateRequest \<Rightarrow> 'n \<Rightarrow>
   (NewCertificateRequestResult res \<times> 'n) run" where
  "NewCertReq e unmarshal g model =
     secret_call e unmarshal g \<lparr>sx_Method = ''POST'', sx_Path = ''/api/v1/secret/cert/newreq'', sx_Headers = json_headers g, sx_Body = Some model\<rparr>"

definition NewCert ::
  "(NewCertificate, 'n) secret_env \<Rightarrow> (bytes \<Rightarrow> NewCertificateResult res) \<Rightarrow> GeneralClient \<Rightarrow> NewCertificate \<Rightarrow> 'n \<Rightarrow>
   (NewCertificateResult res \<times> 'n) run" where
  "NewCert e unmarshal g model =
     secret_call e unmarshal g \<lparr>sx_Method = ''POST'', sx_Path = ''/api/v1/secret/cert/new'', sx_Headers = json_headers g, sx_Body = Some model\<rparr>"

definition GetCert ::
  "(unit, 'n) secret_env \<Rightarrow> (bytes \<Rightarrow> GetCertificateResult res) \<Rightarrow> GeneralClient \<Rightarrow> string \<Rightarrow> 'n \<Rightarrow> (GetCertificateResult res \<times> 'n) run" where
  "GetCert e unmarshal g certName =
     secret_call e unmarshal g \<lparr>sx_Method = ''GET'', sx_Path = ''/api/v1/secret/cert/name/'' @ certName, sx_Headers = auth_headers g, sx_Body = None\<rparr>"

section \<open>Keys\<close>

record GetKeyResult =
  gk_KeyId :: string
  gk_KeyType :: string
  gk_Key :: bytes
  gk_Format :: string

definition AesCipher :: "GetKeyResult \<Rightarrow> bytes res" where
  "AesCipher g = (if gk_KeyType g \<noteq> ''aes'' then Inl (Errorf ''unsupported key type'') else aes_NewCipher (gk_Key g))"

definition GetKeyByName ::
  "(unit, 'n) secret_env \<Rightarrow> (bytes \<Rightarrow> GetKeyResult res) \<Rightarrow> GeneralClient \<Rightarrow> string \<Rightarrow> 'n \<Rightarrow> (GetKeyResult res \<times> 'n) run" where
  "GetKeyByName e unmarshal g name =
     secret_call e unmarshal g \<lparr>sx_Method = ''GET'', sx_Path = ''/api/v1/secret/key/name/'' @ name, sx_Headers = auth_headers g, sx_Body = None\<rparr>"

text \<open>The server's answer has no id here: the client enters the one it asked for.\<close>

definition GetKeyById ::
  "(unit, 'n) secret_env \<Rightarrow> (bytes \<Rightarrow> GetKeyResult res) \<Rightarrow> GeneralClient \<Rightarrow> string \<Rightarrow> 'n \<Rightarrow> (GetKeyResult res \<times> 'n) run" where
  "GetKeyById e unmarshal g keyId n =
     run_bind (secret_call e unmarshal g
       \<lparr>sx_Method = ''GET'', sx_Path = ''/api/v1/secret/key/info/'' @ keyId, sx_Headers = auth_headers g, sx_Body = None\<rparr> n) (\<lambda>(res, n).
       Done (res_bind res (\<lambda>r. Inr (r\<lparr>gk_KeyId := keyId\<rparr>)), n))"

end
