(* ===== verification/GeneralProps.thy ===== *)
theory GeneralProps
  imports GeneralClient SecretProps
begin

text \<open>
  The general client and the secret server together. The router is third-party code and a parameter: the
  route and the URL parameters it finds for a method and a path. What the client's exchange meets is the handler that the
  server mounted for that route, with the server's state as the network's.
\<close>

section \<open>The server behind the network\<close>

type_synonym path_router = "string \<Rightarrow> string \<Rightarrow> (string \<times> (string \<Rightarrow> string)) option"

definition serve_secret ::
  "path_router \<Rightarrow> (json_obj \<Rightarrow> bytes res) \<Rightarrow> 's ChiApiStub \<Rightarrow> string \<Rightarrow> string \<Rightarrow> (string \<Rightarrow> string) \<Rightarrow> bytes \<Rightarrow> 's \<Rightarrow>
   ((nat \<times> bytes res) res \<times> 's) run" where
  "serve_secret router marshal stub method path headers body s =
     (case Option.bind (router method path) (\<lambda>(pattern, params). map_option (\<lambda>item. (item, params)) (item_at method pattern stub)) of
        None \<Rightarrow> Done (Inr (404, Inr []), s)
      | Some (item, params) \<Rightarrow>
          run_bind (generalHandler marshal item
            \<lparr>rq_method = method, rq_header = headers, rq_body = Inr body, rq_param = params, rq_query = \<lambda>_. []\<rparr> s) (\<lambda>(resp, s').
            Done (Inr (rs_status resp, Inr (rs_body resp)), s')))"

definition secret_network ::
  "string \<Rightarrow> path_router \<Rightarrow> (json_obj \<Rightarrow> bytes res) \<Rightarrow> 's ChiApiStub \<Rightarrow> ('m \<Rightarrow> bytes res) \<Rightarrow> (nat \<Rightarrow> nat) \<Rightarrow> ('m, 's) secret_env" where
  "secret_network base router marshal stub encode pick =
     \<lparr>se_marshal = encode, se_pick = pick, se_refuse = \<lambda>_ _. None,
      se_do = \<lambda>method url headers body s.
        if take (length base) url = base then serve_secret router marshal stub method (drop (length base) url) headers body s
        else Done (Inl (Errorf ''dial''), s)\<rparr>"

text \<open>The documented matching of a route that ends in a parameter, on names of unreserved characters.\<close>

definition unreserved :: "string \<Rightarrow> bool" where
  "unreserved s \<longleftrightarrow> s \<noteq> [] \<and> list_all (\<lambda>c. c \<in> set ''ABCDEFGHIJKLMNOPQRSTUVWXYZabcdefghijklmnopqrstuvwxyz0123456789-_'') s"

definition matches_key_name :: "path_router \<Rightarrow> bool" where
  "matches_key_name router \<longleftrightarrow> (\<forall>name. unreserved name \<longrightarrow>
     (\<exists>params. router ''GET'' (''/api/v1/secret/key/name/'' @ name) = Some (''/api/v1/secret/key/name/{key_name}'', params) \<and>
       params ''key_name'' = name))"

text \<open>The client's decoder reads what the server's encoder writes, here the object of a key.\<close>

definition key_json :: "string \<Rightarrow> string \<Rightarrow> bytes \<Rightarrow> string \<Rightarrow> json_obj" where
  "key_json i series key format = [(''key_id'', JString i), (''key_type'', JString series), (''key'', JBytes key), (''format'', JString format)]"

definition key_codec :: "(json_obj \<Rightarrow> bytes res) \<Rightarrow> (bytes \<Rightarrow> GetKeyResult res) \<Rightarrow> bool" where
  "key_codec marshal unmarshal \<longleftrightarrow> (\<forall>i series key format. \<exists>data. marshal (key_json i series key format) = Inr data \<and>
     unmarshal data = Inr \<lparr>gk_KeyId = i, gk_KeyType = series, gk_Key = key, gk_Format = format\<rparr>)"

section \<open>Reading a key\<close>

lemma unreserved_plain: "unreserved s \<Longrightarrow> plain_text s"
proof -
  have "list_all plain_char ''ABCDEFGHIJKLMNOPQRSTUVWXYZabcdefghijklmnopqrstuvwxyz0123456789-_''" by code_simp
  then show "unreserved s \<Longrightarrow> plain_text s" unfolding unreserved_def plain_text_def list_all_iff by blast
qed

lemma bearer_of_client:
  assumes "plain_text tok" "tok \<noteq> []" "rq_header r ''Authorization'' = ''Bearer '' @ tok"
  shows "bearer_token r = Some tok"
proof -
  have b: "plain_text ''Bearer''" by code_simp
  have sp: "CHR '' '' \<notin> set tok" using assms(1) by (auto simp: plain_text_def list_all_iff plain_char_def)
  have "plain_char (hd (''Bearer '' @ tok)) \<and> plain_char (last (''Bearer '' @ tok))"
    using assms(1,2) by (simp add: plain_char_def plain_text_def list_all_iff)
  then have "TrimSpace (''Bearer '' @ tok) = ''Bearer '' @ tok" by (intro TrimSpace_plain_ends) blast
  moreover have "Split CHR '' '' (''Bearer'' @ CHR '' '' # tok) = [''Bearer'', tok]"
    by (subst Split_append) (simp_all add: Split_plain [OF sp])
  ultimately show ?thesis
    using assms(3) trim_plain_text [OF b] trim_plain_text [OF assms(1)] by (simp add: bearer_token_def)
qed

lemma secret_call_one:
  assumes "so_AddrList (gl_opt g) = [base]" "pick 1 = 0" "sx_Body req = None"
  shows "secret_call (secret_network base router marshal stub encode pick) unmarshal g req s =
    run_bind (serve_secret router marshal stub (sx_Method req) (sx_Path req)
        (\<lambda>h. case map_of (sx_Headers req) h of None \<Rightarrow> [] | Some v \<Rightarrow> v) [] s) (\<lambda>(res, s').
      Done (res_bind res (\<lambda>(status, rb). res_bind rb (\<lambda>body.
        if status \<noteq> 200 then Inl (Errorf ''request failed'') else unmarshal body)), s'))"
proof -
  let ?e = "secret_network base router marshal stub encode pick"
  let ?serve = "serve_secret router marshal stub (sx_Method req) (sx_Path req) (\<lambda>h. case map_of (sx_Headers req) h of None \<Rightarrow> [] | Some v \<Rightarrow> v) [] s"
  have "res_bind (res_bind x (\<lambda>(status, rb). res_bind rb (\<lambda>b. Inr \<lparr>sy_StatusCode = status, sy_Body = b\<rparr>)))
      (\<lambda>resp. if sy_StatusCode resp \<noteq> 200 then Inl (Errorf ''request failed'') else unmarshal (sy_Body resp)) =
    res_bind x (\<lambda>(status, rb). res_bind rb (\<lambda>body. if status \<noteq> 200 then Inl (Errorf ''request failed'') else unmarshal body))"
    for x :: "(nat \<times> bytes res) res"
  proof (cases x)
    case (Inr y)
    then show ?thesis by (cases "snd y") (simp_all add: case_prod_beta)
  qed simp
  note joined = this
  have net: "se_refuse ?e m u = None" "se_pick ?e = pick" "se_do ?e m (base @ p) h b s = serve_secret router marshal stub m p h b s" for m u p h b
    by (simp_all add: secret_network_def)
  have "DoSecretJson ?e base req s = run_bind ?serve (\<lambda>(resp, n). Done (res_bind resp (\<lambda>(status, rb). res_bind rb (\<lambda>responseBody.
      Inr \<lparr>sy_StatusCode = status, sy_Body = responseBody\<rparr>)), n))"
    unfolding DoSecretJson_def net assms(3) by simp
  then have "secret_call ?e unmarshal g req s = run_bind (run_bind ?serve (\<lambda>(resp, n). Done (res_bind resp (\<lambda>(status, rb). res_bind rb (\<lambda>responseBody.
      Inr \<lparr>sy_StatusCode = status, sy_Body = responseBody\<rparr>)), n))) (\<lambda>(res, n). Done (res_bind res (\<lambda>resp.
         if sy_StatusCode resp \<noteq> 200 then Inl (Errorf ''request failed'') else unmarshal (sy_Body resp)), n))"
    by (simp add: secret_call_def randomAddr_def assms(1) assms(2) [simplified] net(2))
  also have "\<dots> = run_bind ?serve (\<lambda>(res, s'). Done (res_bind res (\<lambda>(status, rb). res_bind rb (\<lambda>body.
        if status \<noteq> 200 then Inl (Errorf ''request failed'') else unmarshal body)), s'))"
  proof (cases ?serve)
    case (Done y)
    then show ?thesis by (cases y) (simp only: run_bind.simps split_conv joined)
  qed simp_all
  finally show ?thesis .
qed


section \<open>An example\<close>

text \<open>The network is one server; two tokens are known, of which \<open>t1\<close> has the permission.\<close>

definition put_field :: "bytes \<Rightarrow> bytes" where
  "put_field xs = replicate (length xs) 1 @ 0 # xs"

definition take_field :: "bytes \<Rightarrow> bytes \<times> bytes" where
  "take_field bs = (let n = length (takeWhile (\<lambda>b. b \<noteq> 0) bs) in (take n (drop (Suc n) bs), drop (n + Suc n) bs))"

lemma take_put [simp]: "take_field (put_field xs @ ys) = (xs, ys)"
proof -
  have "takeWhile (\<lambda>b. b \<noteq> 0) (replicate n 1 @ 0 # zs) = replicate n (1 :: byte)" for n zs by (induction n) simp_all
  then show ?thesis by (simp add: take_field_def put_field_def)
qed

definition demo_key_marshal :: "json_obj \<Rightarrow> bytes res" where
  "demo_key_marshal obj = (case obj of
     [(_, JString i), (_, JString series), (_, JBytes key), (_, JString format)] \<Rightarrow>
       Inr (put_field (bytes_of i) @ put_field (bytes_of series) @ put_field (bytes_of format) @ key)
   | _ \<Rightarrow> Inl (Errorf []))"

definition demo_key_unmarshal :: "bytes \<Rightarrow> GetKeyResult res" where
  "demo_key_unmarshal bs =
     (let (i, bs) = take_field bs; (series, bs) = take_field bs; (format, key) = take_field bs in
      Inr \<lparr>gk_KeyId = string_of i, gk_KeyType = string_of series, gk_Key = key, gk_Format = string_of format\<rparr>)"

lemma demo_key_codec: "key_codec demo_key_marshal demo_key_unmarshal"
  by (simp add: key_codec_def demo_key_marshal_def demo_key_unmarshal_def key_json_def)

text \<open>Two tokens are known, of which \<open>t1\<close> has the permission.\<close>

definition demo_verifier :: "string \<Rightarrow> 's \<Rightarrow> JwtData res run" where
  "demo_verifier tok s =
     Done (Inr [(''permissions'', Anys [Str_val (if tok = ''t1'' then ''manage:key.admin'' else ''read:jwt.verify'')])])"

definition demo_router :: path_router where
  "demo_router method path = (if method = ''GET'' \<and> take 24 path = ''/api/v1/secret/key/name/''
     then Some (''/api/v1/secret/key/name/{key_name}'', \<lambda>p. if p = ''key_name'' then drop 24 path else []) else None)"

lemma demo_router_ok: "matches_key_name demo_router"
  by (simp add: matches_key_name_def demo_router_def)

definition demo_general :: "string \<Rightarrow> GeneralClient" where
  "demo_general tok = \<lparr>gl_opt = \<lparr>so_AddrList = [''http://s''], so_Token = tok, so_EnforceTls = False,
     so_ClientCert = \<lparr>cco_CertPath = [], cco_KeyPath = [], cco_certData = [], cco_keyData = []\<rparr>,
     so_CaCert = \<lparr>cao_CertPath = [], cao_certData = []\<rparr>\<rparr>, gl_RootCAs = None\<rparr>"

abbreviation demo_get_key :: "string \<Rightarrow> bytes secret_state ChiApiStub \<Rightarrow> bytes secret_state \<Rightarrow> (GetKeyResult res \<times> bytes secret_state) run" where
  "demo_get_key tok stub \<equiv> GetKeyByName (secret_network ''http://s'' demo_router demo_key_marshal stub (\<lambda>_. Inr []) (\<lambda>_. 0)) demo_key_unmarshal
     (demo_general tok) ''k''"


end
