(* ===== verification/ChiApi.thy ===== *)
theory ChiApi
  imports Chi2 Unseal
begin

text \<open>
  The older handler layer (\<open>http/chi\<close>): its renders, which write to the response themselves, and the mounting of handlers on
  the router. The response writer is that of \<open>net/http\<close>; the router, \<open>net/url\<close>, the JSON encoder and the texts of errors are
  parameters.
\<close>

section \<open>The response writer\<close>

text \<open>\<open>w_sent\<close>: the status and the headers that were committed; later changes of the headers are not sent.\<close>

record response_writer =
  w_header :: "(string \<times> string) list"
  w_sent :: "(nat \<times> (string \<times> string) list) option"
  w_body :: bytes

definition fresh_writer :: response_writer where
  "fresh_writer = \<lparr>w_header = [], w_sent = None, w_body = []\<rparr>"

text \<open>A code of other than three digits panics; the informational codes but 101 do not commit.\<close>

definition WriteHeader :: "nat \<Rightarrow> response_writer \<Rightarrow> response_writer run" where
  "WriteHeader code w =
     (if w_sent w \<noteq> None then Done w
      else if code < 100 \<or> 999 < code then Panic
      else if code < 200 \<and> code \<noteq> 101 then Done w
      else Done (w\<lparr>w_sent := Some (code, w_header w)\<rparr>))"

definition Header_Add :: "string \<Rightarrow> string \<Rightarrow> response_writer \<Rightarrow> response_writer" where
  "Header_Add key val w = w\<lparr>w_header := w_header w @ [(key, val)]\<rparr>"

definition ErrBodyNotAllowed :: go_error where "ErrBodyNotAllowed = Sentinel ''http.ErrBodyNotAllowed''"

text \<open>The first write commits 200; no error of the connection is modelled.\<close>

definition Write_body :: "bytes \<Rightarrow> response_writer \<Rightarrow> (go_error option \<times> response_writer) run" where
  "Write_body data w =
     run_bind (WriteHeader 200 w) (\<lambda>w.
       Done (if data = [] then (None, w)
         else (case w_sent w of
             Some (code, _) \<Rightarrow>
               if code = 204 \<or> code = 304 \<or> code < 200 then (Some ErrBodyNotAllowed, w) else (None, w\<lparr>w_body := w_body w @ data\<rparr>)
           | None \<Rightarrow> (None, w))))"

text \<open>The end of the handler commits 200 if nothing else was.\<close>

definition finish_response :: "response_writer \<Rightarrow> http_response" where
  "finish_response w =
     (case w_sent w of
        Some (code, hs) \<Rightarrow> \<lparr>rs_status = code, rs_headers = hs, rs_body = w_body w\<rparr>
      | None \<Rightarrow> \<lparr>rs_status = 200, rs_headers = w_header w, rs_body = w_body w\<rparr>)"

section \<open>Renders\<close>

datatype 'j chi_render =
    chiRenderString nat string
  | chiRenderStatus nat
  | chiRenderOKString string
  | chiRenderError go_error
  | chiRenderJson nat 'j
  | chiRenderBinary nat bytes
  | defaultErrorRender go_error

definition RenderString :: "nat \<Rightarrow> string \<Rightarrow> 'j chi_render" where "RenderString status raw = chiRenderString status raw"
definition RenderStatus :: "nat \<Rightarrow> 'j chi_render" where "RenderStatus status = chiRenderStatus status"
definition RenderOKString :: "string \<Rightarrow> 'j chi_render" where "RenderOKString str = chiRenderOKString str"
definition RenderError :: "go_error \<Rightarrow> 'j chi_render" where "RenderError e = chiRenderError e"
definition RenderJson :: "nat \<Rightarrow> 'j \<Rightarrow> 'j chi_render" where "RenderJson status obj = chiRenderJson status obj"
definition RenderBinary :: "nat \<Rightarrow> bytes \<Rightarrow> 'j chi_render" where "RenderBinary status data = chiRenderBinary status data"

text \<open>The status first, then the header, then the body.\<close>

definition write_typed :: "nat \<Rightarrow> string \<Rightarrow> bytes \<Rightarrow> response_writer \<Rightarrow> (go_error option \<times> response_writer) run" where
  "write_typed status ty data w =
     run_bind (WriteHeader status w) (\<lambda>w. Write_body data (Header_Add ''Content-Type'' ty w))"

fun chi_Render ::
  "('j \<Rightarrow> bytes res) \<Rightarrow> (go_error \<Rightarrow> string) \<Rightarrow> 'j chi_render \<Rightarrow> response_writer \<Rightarrow> (go_error option \<times> response_writer) run" where
  "chi_Render marshal msg (chiRenderString status raw) w = run_bind (WriteHeader status w) (Write_body (bytes_of raw))"
| "chi_Render marshal msg (chiRenderStatus status) w = run_bind (WriteHeader status w) (\<lambda>w. Done (None, w))"
| "chi_Render marshal msg (chiRenderOKString str) w = write_typed 200 ''text/plain'' (bytes_of str) w"
| "chi_Render marshal msg (chiRenderError e) w = write_typed 500 ''text/plain'' (bytes_of (msg e)) w"
| "chi_Render marshal msg (chiRenderJson status obj) w =
     (case marshal obj of
        Inl e \<Rightarrow> Done (Some e, w)
      | Inr data \<Rightarrow> write_typed status ''application/json; charset=utf-8'' data w)"
| "chi_Render marshal msg (chiRenderBinary status data) w = write_typed status ''application/octet-stream'' data w"
| "chi_Render marshal msg (defaultErrorRender e) w = run_bind (WriteHeader 500 w) (\<lambda>w. Done (None, w))"

section \<open>Handlers\<close>

record ('s, 'j) HttpApi =
  ha_ParentUrl :: string
  ha_Url :: string
  ha_HttpMethod :: "string list"
  ha_Handle :: "http_request \<Rightarrow> 's \<Rightarrow> ('j chi_render res \<times> 's) run"

type_synonym 's chi_handler = "http_request \<Rightarrow> 's \<Rightarrow> (http_response \<times> 's) run"

text \<open>The router \<open>'r\<close>, and the handlers that were added.\<close>

record ('s, 'j, 'r) ChiHttpApiServer =
  ch_handlerList :: "('s, 'j) HttpApi list"
  ch_router :: 'r

definition DefaultErrorHandler :: "go_error \<Rightarrow> 'j chi_render" where
  "DefaultErrorHandler e = defaultErrorRender e"

text \<open>The error of rendering is dropped.\<close>

definition api_handler :: "('j \<Rightarrow> bytes res) \<Rightarrow> (go_error \<Rightarrow> string) \<Rightarrow> ('s, 'j) HttpApi \<Rightarrow> 's chi_handler" where
  "api_handler marshal msg a r s =
     run_bind (ha_Handle a r s) (\<lambda>(res, s').
       run_bind (chi_Render marshal msg (case res of Inl e \<Rightarrow> DefaultErrorHandler e | Inr rd \<Rightarrow> rd) fresh_writer) (\<lambda>(e, w).
         Done (finish_response w, s')))"

text \<open>\<open>resolve\<close>: the path of the text as a URL reference resolved against \<open>/\<close>.\<close>

definition mappingUrl :: "(string \<Rightarrow> string res) \<Rightarrow> ('s, 'j) HttpApi \<Rightarrow> string res" where
  "mappingUrl resolve a =
     (let separator = if take 1 (ha_Url a) = ''/'' then [] else ''/'' in resolve (ha_ParentUrl a @ separator @ ha_Url a))"

text \<open>\<open>mount\<close>: \<open>chi.Mux.MethodFunc\<close>.\<close>

definition AddHttpApi ::
  "('j \<Rightarrow> bytes res) \<Rightarrow> (go_error \<Rightarrow> string) \<Rightarrow> (string \<Rightarrow> string res) \<Rightarrow> (string \<Rightarrow> string \<Rightarrow> 's chi_handler \<Rightarrow> 'r \<Rightarrow> 'r run) \<Rightarrow>
   ('s, 'j) HttpApi \<Rightarrow> ('s, 'j, 'r) ChiHttpApiServer \<Rightarrow> (unit res \<times> ('s, 'j, 'r) ChiHttpApiServer) run" where
  "AddHttpApi marshal msg resolve mount a c =
     (case mappingUrl resolve a of
        Inl e \<Rightarrow> Done (Inl e, c)
      | Inr fullPath \<Rightarrow>
          run_bind (run_fold (\<lambda>method. mount method fullPath (api_handler marshal msg a)) (ha_HttpMethod a) (ch_router c)) (\<lambda>router.
            Done (Inr (), c\<lparr>ch_router := router, ch_handlerList := ch_handlerList c @ [a]\<rparr>)))"

definition NewChiHttpApiServer :: "'r \<Rightarrow> ('s, 'j, 'r) ChiHttpApiServer" where
  "NewChiHttpApiServer r = \<lparr>ch_handlerList = [], ch_router = r\<rparr>"

definition BindJson :: "http_request \<Rightarrow> (bytes \<Rightarrow> 'm res) \<Rightarrow> 'm res" where
  "BindJson r decode = res_bind (rq_body r) decode"

definition GetUrlParam :: "http_request \<Rightarrow> string \<Rightarrow> string" where
  "GetUrlParam r key = rq_param r key"

section \<open>What is answered\<close>

definition has_body :: "nat \<Rightarrow> bool" where
  "has_body status \<longleftrightarrow> 200 \<le> status \<and> status \<le> 999 \<and> status \<notin> {204, 304}"

lemma has_body_consts: "has_body 200" "has_body 500"
  by (simp_all add: has_body_def)

lemma WriteHeader_fresh: "has_body status \<Longrightarrow> WriteHeader status fresh_writer = Done (fresh_writer\<lparr>w_sent := Some (status, [])\<rparr>)"
  by (simp add: WriteHeader_def fresh_writer_def has_body_def)

lemma Write_body_sent:
  "w_sent w = Some (status, hs) \<Longrightarrow> has_body status \<Longrightarrow> Write_body data w = Done (None, w\<lparr>w_body := w_body w @ data\<rparr>)"
  by (simp add: Write_body_def WriteHeader_def has_body_def)

text \<open>The header that a render adds comes too late.\<close>

lemma write_typed_fresh:
  assumes "has_body status"
  shows "\<exists>w. write_typed status ty data fresh_writer = Done (None, w) \<and>
    finish_response w = \<lparr>rs_status = status, rs_headers = [], rs_body = data\<rparr>"
proof -
  let ?w = "Header_Add ''Content-Type'' ty (fresh_writer\<lparr>w_sent := Some (status, [])\<rparr>)"
  have sent: "w_sent ?w = Some (status, [])" by (simp add: Header_Add_def)
  have "write_typed status ty data fresh_writer = Done (None, ?w\<lparr>w_body := w_body ?w @ data\<rparr>)"
    unfolding write_typed_def WriteHeader_fresh [OF assms] using Write_body_sent [OF sent assms] by simp
  then show ?thesis by (simp add: finish_response_def Header_Add_def fresh_writer_def)
qed

lemma api_json:
  assumes "ha_Handle a r s = Done (Inr (RenderJson status obj), s')" "has_body status"
  shows "api_handler marshal msg a r s = Done (case marshal obj of Inl e \<Rightarrow> status_only 200
    | Inr data \<Rightarrow> \<lparr>rs_status = status, rs_headers = [], rs_body = data\<rparr>, s')"
proof (cases "marshal obj")
  case (Inl e)
  then show ?thesis by (simp add: api_handler_def assms(1) RenderJson_def finish_response_def fresh_writer_def status_only_def)
next
  case (Inr data)
  obtain w where "write_typed status ''application/json; charset=utf-8'' data fresh_writer = Done (None, w)"
    "finish_response w = \<lparr>rs_status = status, rs_headers = [], rs_body = data\<rparr>" using write_typed_fresh [OF assms(2)] by blast
  then show ?thesis by (simp add: api_handler_def assms(1) RenderJson_def Inr)
qed

lemma api_error:
  "ha_Handle a r s = Done (Inl e, s') \<Longrightarrow> api_handler marshal msg a r s = Done (status_only 500, s')"
  by (simp add: api_handler_def DefaultErrorHandler_def WriteHeader_def fresh_writer_def finish_response_def status_only_def)



end
