(* ===== verification/BenchData.thy ===== *)
theory BenchData
  imports GoText "HOL-Library.Multiset"
begin

text \<open>
  The generator of the benchmark's data (\<open>configure/cfgbenchdatagen/main.go\<close>): configuration keys, the clients with what they consume,
  and the statistics. The random source, the order in which a map is ranged over and the sorting of the library are
  parameters; \<open>None\<close> stands for a run that does not end, or that indexes the list of keys out of range, which panics.
\<close>

section \<open>Data\<close>

record bench_cfg =
  bg_Group :: string
  bg_Key :: string
  bg_Count :: int

record bench_use =
  bu_Group :: string
  bu_Key :: string
  bu_Idx :: nat

type_synonym bench_client = "bench_use list"

definition MaxConfigurationGenerated :: nat where "MaxConfigurationGenerated = 3000000"
definition MaxClientGenerated :: nat where "MaxClientGenerated = 1000000"
definition maxConsuming :: nat where "maxConsuming = 100"

definition letterRunes :: string where "letterRunes = ''abcdefghijklmnopqrstuvwxyzABCDEFGHIJKLMNOPQRSTUVWXYZ''"

text \<open>\<open>rand.Rand\<close>: a number below a bound, and the swaps of a shuffle.\<close>

record 'r bench_rand =
  br_IntN :: "nat \<Rightarrow> 'r \<Rightarrow> nat \<times> 'r"
  br_Shuffle :: "nat \<Rightarrow> 'r \<Rightarrow> (nat \<times> nat) list \<times> 'r"

section \<open>Keys\<close>

fun GenerateString :: "'r bench_rand \<Rightarrow> nat \<Rightarrow> 'r \<Rightarrow> string \<times> 'r" where
  "GenerateString R 0 r = ([], r)"
| "GenerateString R (Suc n) r =
     (let (i, r) = br_IntN R (length letterRunes) r; (s, r) = GenerateString R n r in (letterRunes ! i # s, r))"

text \<open>The first loop: names are drawn until the map has \<open>n\<close> of them.\<close>

partial_function (option) keys_loop :: "'r bench_rand \<Rightarrow> nat \<Rightarrow> string list \<Rightarrow> 'r \<Rightarrow> (string list \<times> 'r) option" where
  "keys_loop R n cfgkeys r =
     (case GenerateString R 20 r of (s, r) \<Rightarrow>
       (let cfgkeys = (if s \<in> set cfgkeys then cfgkeys else cfgkeys @ [s]) in
        if n \<le> length cfgkeys then Some (cfgkeys, r) else keys_loop R n cfgkeys r))"

fun with_keys :: "'r bench_rand \<Rightarrow> string list \<Rightarrow> 'r \<Rightarrow> bench_cfg list \<times> 'r" where
  "with_keys R [] r = ([], r)"
| "with_keys R (k # ks) r =
     (let (key, r) = GenerateString R 20 r; (cs, r) = with_keys R ks r in (\<lparr>bg_Group = k, bg_Key = key, bg_Count = 0\<rparr> # cs, r))"

definition swap_at :: "nat \<times> nat \<Rightarrow> 'a list \<Rightarrow> 'a list" where
  "swap_at ij xs = (case ij of (i, j) \<Rightarrow> xs[i := xs ! j, j := xs ! i])"

definition DataGenerateConfigureKeys ::
  "'r bench_rand \<Rightarrow> (string list \<Rightarrow> string list) \<Rightarrow> nat \<Rightarrow> 'r \<Rightarrow> (bench_cfg list \<times> 'r) option" where
  "DataGenerateConfigureKeys R order n r =
     Option.bind (keys_loop R n [] r) (\<lambda>(cfgkeys, r).
       let (cfgList, r) = with_keys R (order cfgkeys) r;
           (swaps, r) = br_Shuffle R (length cfgList) r
       in Some (fold swap_at swaps cfgList, r))"

section \<open>Clients\<close>

definition IndexAsKey :: "bench_cfg list \<Rightarrow> nat \<Rightarrow> string" where
  "IndexAsKey cfgList idx = bg_Key (cfgList ! idx) @ bg_Group (cfgList ! idx)"

definition use_at :: "bench_cfg list \<Rightarrow> nat \<Rightarrow> bench_use" where
  "use_at cfgList idx = \<lparr>bu_Group = bg_Group (cfgList ! idx), bu_Key = bg_Key (cfgList ! idx), bu_Idx = idx\<rparr>"

type_synonym client_map = "(string, bench_use) gomap"

definition consume_at :: "bench_cfg list \<Rightarrow> nat \<Rightarrow> client_map \<Rightarrow> client_map option" where
  "consume_at cfgList idx m =
     (if idx < length cfgList then Some (AList.update (IndexAsKey cfgList idx) (use_at cfgList idx) m) else None)"

text \<open>With a chance of one in \<open>k\<close>, one of the \<open>n\<close> places from \<open>base\<close> on.\<close>

definition draw_one ::
  "'r bench_rand \<Rightarrow> bench_cfg list \<Rightarrow> nat \<Rightarrow> nat \<Rightarrow> nat \<Rightarrow> client_map \<times> 'r \<Rightarrow> (client_map \<times> 'r) option" where
  "draw_one R cfgList k n base mr =
     (case mr of (m, r) \<Rightarrow>
       (case br_IntN R k r of (c, r) \<Rightarrow>
         if c \<noteq> 0 then Some (m, r)
         else (case br_IntN R n r of (i, r) \<Rightarrow> map_option (\<lambda>m. (m, r)) (consume_at cfgList (i + base) m))))"

definition draw_first :: "'r bench_rand \<Rightarrow> bench_cfg list \<Rightarrow> client_map \<times> 'r \<Rightarrow> (client_map \<times> 'r) option" where
  "draw_first R cfgList mr =
     (case mr of (m, r) \<Rightarrow> (case br_IntN R 4 r of (c, r) \<Rightarrow>
       if c = 0 then map_option (\<lambda>m. (m, r)) (consume_at cfgList 0 m) else Some (m, r)))"

text \<open>The rest is drawn from all places, until there are enough.\<close>

partial_function (option) fill_rest :: "'r bench_rand \<Rightarrow> bench_cfg list \<Rightarrow> client_map \<Rightarrow> 'r \<Rightarrow> (client_map \<times> 'r) option" where
  "fill_rest R cfgList m r =
     (if maxConsuming \<le> length m then Some (m, r)
      else (case br_IntN R (length cfgList) r of (idx, r) \<Rightarrow>
        if \<not> idx < length cfgList then None
        else if map_of m (IndexAsKey cfgList idx) \<noteq> None then fill_rest R cfgList m r
        else fill_rest R cfgList (the (consume_at cfgList idx m)) r))"

definition generate_client ::
  "'r bench_rand \<Rightarrow> (client_map \<Rightarrow> client_map) \<Rightarrow> bench_cfg list \<Rightarrow> 'r \<Rightarrow> (bench_client \<times> 'r) option" where
  "generate_client R order cfgList r =
     Option.bind (draw_first R cfgList ([], r)) (\<lambda>mr.
     Option.bind (draw_one R cfgList (20 div 10) 10 1 mr) (\<lambda>mr.
     Option.bind (draw_one R cfgList (100 div 90) 90 11 mr) (\<lambda>mr.
     Option.bind (draw_one R cfgList (1000 div 900) 900 101 mr) (\<lambda>(m, r).
     Option.bind (fill_rest R cfgList m r) (\<lambda>(m, r). Some (map snd (order m), r))))))"

fun clients_loop ::
  "'r bench_rand \<Rightarrow> (client_map \<Rightarrow> client_map) \<Rightarrow> bench_cfg list \<Rightarrow> nat \<Rightarrow> 'r \<Rightarrow> (bench_client list \<times> 'r) option" where
  "clients_loop R order cfgList 0 r = Some ([], r)"
| "clients_loop R order cfgList (Suc n) r =
     Option.bind (generate_client R order cfgList r) (\<lambda>(c, r).
     Option.bind (clients_loop R order cfgList n r) (\<lambda>(cs, r). Some (c # cs, r)))"

definition DataGenerateClients ::
  "'r bench_rand \<Rightarrow> (client_map \<Rightarrow> client_map) \<Rightarrow> bench_cfg list \<Rightarrow> 'r \<Rightarrow> (bench_client list \<times> 'r) option" where
  "DataGenerateClients R order cfgList r = clients_loop R order cfgList MaxClientGenerated r"

section \<open>Statistics\<close>

definition count_use :: "bench_use \<Rightarrow> bench_cfg list \<Rightarrow> bench_cfg list" where
  "count_use c xs = xs[bu_Idx c := (xs ! bu_Idx c)\<lparr>bg_Count := bg_Count (xs ! bu_Idx c) + 1\<rparr>]"

text \<open>\<open>sortFunc\<close>: \<open>slices.SortFunc\<close> with the comparison's sign.\<close>

definition GenerateStatistics ::
  "((bench_cfg \<Rightarrow> bench_cfg \<Rightarrow> int) \<Rightarrow> bench_cfg list \<Rightarrow> bench_cfg list) \<Rightarrow> bench_cfg list \<Rightarrow> bench_client list \<Rightarrow> bench_cfg list" where
  "GenerateStatistics sortFunc xs clients =
     sortFunc (\<lambda>a b. bg_Count b - bg_Count a) (fold (\<lambda>client. fold count_use client) clients xs)"

text \<open>What the log of the statistics is computed from; the first 1100 and the last item are read.\<close>

definition totalConsuming :: "bench_cfg list \<Rightarrow> int" where
  "totalConsuming xs = sum_list (map bg_Count xs)"

definition hasZeroCount :: "bench_cfg list \<Rightarrow> bool" where
  "hasZeroCount xs \<longleftrightarrow> list_ex (\<lambda>c. bg_Count c = 0) xs"

section \<open>The file\<close>

record ConfigurationList =
  cl_List :: "(string \<times> string) list"
  cl_Clients :: "(string \<times> string) list list"

definition dump_content :: "bench_cfg list \<Rightarrow> bench_client list \<Rightarrow> ConfigurationList" where
  "dump_content xs clients =
     \<lparr>cl_List = map (\<lambda>v. (bg_Group v, bg_Key v)) xs, cl_Clients = map (map (\<lambda>vv. (bu_Group vv, bu_Key vv))) clients\<rparr>"

section \<open>What a client consumes\<close>

definition client_inv :: "bench_cfg list \<Rightarrow> client_map \<Rightarrow> bool" where
  "client_inv xs m \<longleftrightarrow> gomap_ok m \<and>
     (\<forall>k u. map_of m k = Some u \<longrightarrow> bu_Idx u < length xs \<and> u = use_at xs (bu_Idx u) \<and> k = IndexAsKey xs (bu_Idx u))"

lemma length_AList_update:
  "length (AList.update k v m) = (if map_of m k = None then Suc (length m) else length m)"
  by (induction m) auto

lemma client_inv_Nil: "client_inv xs []"
  by (simp add: client_inv_def)

lemma client_inv_consume:
  assumes "client_inv xs m" "consume_at xs idx m = Some m'"
  shows "client_inv xs m' \<and> length m' \<le> Suc (length m)"
proof -
  have m': "idx < length xs" "m' = AList.update (IndexAsKey xs idx) (use_at xs idx) m"
    using assms(2) by (simp_all add: consume_at_def split: if_splits)
  have u: "bu_Idx (use_at xs idx) = idx" by (simp add: use_at_def)
  have "map_of m' = (map_of m)(IndexAsKey xs idx \<mapsto> use_at xs idx)" by (simp add: m'(2) update_conv')
  then have "client_inv xs m'" using assms(1) m' u unfolding client_inv_def by (auto split: if_splits)
  then show ?thesis by (simp add: m'(2) length_AList_update)
qed

lemma client_inv_draw:
  assumes "client_inv xs (fst mr)" "draw_one R xs k n base mr = Some mr'"
  shows "client_inv xs (fst mr') \<and> length (fst mr') \<le> Suc (length (fst mr))"
  using assms client_inv_consume [of xs "fst mr"] by (auto simp: draw_one_def split: prod.splits if_splits)

lemma client_inv_first:
  assumes "client_inv xs (fst mr)" "draw_first R xs mr = Some mr'"
  shows "client_inv xs (fst mr') \<and> length (fst mr') \<le> Suc (length (fst mr))"
  using assms client_inv_consume [of xs "fst mr"] by (auto simp: draw_first_def split: prod.splits if_splits)

lemma client_inv_fill:
  "fill_rest R xs m r = Some y \<Longrightarrow> client_inv xs m \<Longrightarrow> length m \<le> maxConsuming \<Longrightarrow>
   client_inv xs (fst y) \<and> length (fst y) = maxConsuming"
proof (induction arbitrary: rule: fill_rest.raw_induct [rotated, consumes 1])
  case (1 fill R xs m r y)
  obtain idx r1 where i: "br_IntN R (length xs) r = (idx, r1)" by (rule prod.exhaust)
  show ?case
  proof (cases "maxConsuming \<le> length m")
    case True
    then show ?thesis using 1 by auto
  next
    case False
    then have lt: "idx < length xs" using 1(2) i by (auto split: if_splits)
    show ?thesis
    proof (cases "map_of m (IndexAsKey xs idx)")
      case (Some u)
      then have "fill R xs m r1 = Some y" using 1(2) i lt False by simp
      then show ?thesis using 1(1,3,4) by blast
    next
      case None
      obtain m' where m': "consume_at xs idx m = Some m'" using lt by (simp add: consume_at_def)
      then have "fill R xs m' r1 = Some y" using 1(2) i lt False None by simp
      moreover have "client_inv xs m' \<and> length m' \<le> Suc (length m)" by (rule client_inv_consume [OF 1(3) m'])
      ultimately show ?thesis using False by (intro 1(1)) auto
    qed
  qed
qed

definition bench_client_ok :: "bench_cfg list \<Rightarrow> bench_client \<Rightarrow> bool" where
  "bench_client_ok xs c \<longleftrightarrow> length c = maxConsuming \<and> distinct (map bu_Idx c) \<and> (\<forall>u \<in> set c. bu_Idx u < length xs \<and> u = use_at xs (bu_Idx u))"

lemma generated_client_ok:
  assumes "generate_client R order xs r = Some (c, r')" "\<forall>m. mset (order m) = mset m"
  shows "bench_client_ok xs c"
proof -
  obtain a1 a2 a3 m r1 m' where s: "draw_first R xs ([], r) = Some a1" "draw_one R xs (20 div 10) 10 1 a1 = Some a2"
    "draw_one R xs (100 div 90) 90 11 a2 = Some a3" "draw_one R xs (1000 div 900) 900 101 a3 = Some (m, r1)"
    "fill_rest R xs m r1 = Some (m', r')" "c = map snd (order m')"
    using assms(1) unfolding generate_client_def by (auto split: bind_splits)
  have i1: "client_inv xs (fst a1) \<and> length (fst a1) \<le> 1" using client_inv_first [OF _ s(1)] client_inv_Nil by fastforce
  have i2: "client_inv xs (fst a2) \<and> length (fst a2) \<le> 2" using client_inv_draw [OF _ s(2)] i1 by fastforce
  have i3: "client_inv xs (fst a3) \<and> length (fst a3) \<le> 3" using client_inv_draw [OF _ s(3)] i2 by fastforce
  have "client_inv xs m \<and> length m \<le> 4" using client_inv_draw [OF _ s(4)] i3 by fastforce
  then have f: "client_inv xs m'" "length m' = maxConsuming"
    using client_inv_fill [OF s(5)] by (simp_all add: maxConsuming_def)
  have ms: "mset (order m') = mset m'" using assms(2) by blast
  have k: "k = IndexAsKey xs (bu_Idx u) \<and> bu_Idx u < length xs \<and> u = use_at xs (bu_Idx u)" if "(k, u) \<in> set m'" for k u
    using f(1) that unfolding client_inv_def by (meson gomap_ok_in)
  have "distinct (map fst m')" using f(1) by (simp add: client_inv_def gomap_ok_def)
  moreover have "map fst m' = map (IndexAsKey xs) (map (bu_Idx \<circ> snd) m')" using k by auto
  ultimately have "distinct (map (IndexAsKey xs) (map (bu_Idx \<circ> snd) m'))" by (simp only:)
  then have "distinct (map (bu_Idx \<circ> snd) m')" unfolding distinct_map [of "IndexAsKey xs"] by blast
  moreover have "mset (map (bu_Idx \<circ> snd) (order m')) = mset (map (bu_Idx \<circ> snd) m')" using ms by simp
  ultimately have "distinct (map (bu_Idx \<circ> snd) (order m'))" by (metis mset_eq_imp_distinct_iff)
  moreover have "length (order m') = length m'" "set (order m') = set m'" using ms by (metis size_mset, metis mset_eq_setD)
  ultimately show ?thesis using f(2) k unfolding bench_client_ok_def s(6) by auto
qed

lemma clients_loop_ok:
  "clients_loop R order xs n r = Some (cs, r') \<Longrightarrow> \<forall>m. mset (order m) = mset m \<Longrightarrow> length cs = n \<and> (\<forall>c \<in> set cs. bench_client_ok xs c)"
proof (induction n arbitrary: r cs r')
  case (Suc n)
  then obtain c r1 cs1 where "generate_client R order xs r = Some (c, r1)" "clients_loop R order xs n r1 = Some (cs1, r')" "cs = c # cs1"
    by (auto split: bind_splits)
  then show ?case using Suc.IH Suc.prems(2) generated_client_ok by auto
qed simp

section \<open>What the statistics count\<close>

lemma sum_list_bump: "i < length ns \<Longrightarrow> sum_list (ns[i := ns ! i + 1]) = sum_list ns + (1 :: int)"
  by (induction ns arbitrary: i) (auto split: nat.splits)

lemma count_use_props:
  assumes "bu_Idx u < length xs"
  shows "length (count_use u xs) = length xs"
    and "totalConsuming (count_use u xs) = totalConsuming xs + 1"
    and "i < length xs \<Longrightarrow> bg_Count (count_use u xs ! i) = bg_Count (xs ! i) + (if i = bu_Idx u then 1 else 0)"
    and "map (\<lambda>c. (bg_Group c, bg_Key c)) (count_use u xs) = map (\<lambda>c. (bg_Group c, bg_Key c)) xs"
proof -
  have "sum_list (map bg_Count (count_use u xs)) = sum_list (map bg_Count xs) + 1"
    using sum_list_bump [of "bu_Idx u" "map bg_Count xs"] assms by (simp add: count_use_def map_update)
  then show "totalConsuming (count_use u xs) = totalConsuming xs + 1" by (simp add: totalConsuming_def)
  show "map (\<lambda>c. (bg_Group c, bg_Key c)) (count_use u xs) = map (\<lambda>c. (bg_Group c, bg_Key c)) xs"
    using assms by (simp add: count_use_def map_update list_update_same_conv)
qed (simp_all add: count_use_def nth_list_update)

lemma count_client:
  assumes "\<forall>u \<in> set c. bu_Idx u < length xs" "distinct (map bu_Idx c)"
  shows "length (fold count_use c xs) = length xs \<and> totalConsuming (fold count_use c xs) = totalConsuming xs + int (length c) \<and>
    (\<forall>i < length xs. bg_Count (fold count_use c xs ! i) = bg_Count (xs ! i) + (if i \<in> bu_Idx ` set c then 1 else 0)) \<and>
    map (\<lambda>c. (bg_Group c, bg_Key c)) (fold count_use c xs) = map (\<lambda>c. (bg_Group c, bg_Key c)) xs"
  using assms
proof (induction c arbitrary: xs)
  case (Cons u c)
  have u: "bu_Idx u < length xs" using Cons.prems(1) by simp
  note p = count_use_props [OF u]
  have "length (fold count_use c (count_use u xs)) = length xs \<and>
    totalConsuming (fold count_use c (count_use u xs)) = totalConsuming (count_use u xs) + int (length c) \<and>
    (\<forall>i < length xs. bg_Count (fold count_use c (count_use u xs) ! i) = bg_Count (count_use u xs ! i) + (if i \<in> bu_Idx ` set c then 1 else 0)) \<and>
    map (\<lambda>c. (bg_Group c, bg_Key c)) (fold count_use c (count_use u xs)) = map (\<lambda>c. (bg_Group c, bg_Key c)) (count_use u xs)"
    using Cons.IH [of "count_use u xs"] Cons.prems p(1) by simp
  then show ?case using Cons.prems(2) p(2-4) by auto
qed simp

definition consumers :: "bench_client list \<Rightarrow> nat \<Rightarrow> nat" where
  "consumers cs i = length (filter (\<lambda>c. i \<in> bu_Idx ` set c) cs)"

lemma count_clients:
  assumes "\<forall>c \<in> set cs. bench_client_ok ys c" "length ys = length xs"
  shows "length (fold (\<lambda>client. fold count_use client) cs xs) = length xs \<and>
    totalConsuming (fold (\<lambda>client. fold count_use client) cs xs) = totalConsuming xs + int (maxConsuming * length cs) \<and>
    (\<forall>i < length xs. bg_Count (fold (\<lambda>client. fold count_use client) cs xs ! i) = bg_Count (xs ! i) + int (consumers cs i)) \<and>
    map (\<lambda>c. (bg_Group c, bg_Key c)) (fold (\<lambda>client. fold count_use client) cs xs) = map (\<lambda>c. (bg_Group c, bg_Key c)) xs"
  using assms
proof (induction cs arbitrary: xs)
  case (Cons c cs)
  have c: "\<forall>u \<in> set c. bu_Idx u < length xs" "distinct (map bu_Idx c)" "length c = maxConsuming"
    using Cons.prems by (auto simp: bench_client_ok_def)
  note p = count_client [OF c(1,2)]
  from Cons.IH [of "fold count_use c xs"] Cons.prems p show ?case
    by (simp add: consumers_def c(3))
qed (simp add: consumers_def)

text \<open>What the documentation of \<open>slices.SortFunc\<close> says, for the comparison of the counts.\<close>

definition sorts_desc :: "((bench_cfg \<Rightarrow> bench_cfg \<Rightarrow> int) \<Rightarrow> bench_cfg list \<Rightarrow> bench_cfg list) \<Rightarrow> bool" where
  "sorts_desc sortFunc \<longleftrightarrow> (\<forall>xs. mset (sortFunc (\<lambda>a b. bg_Count b - bg_Count a) xs) = mset xs \<and>
     sorted_wrt (\<lambda>a b. bg_Count b \<le> bg_Count a) (sortFunc (\<lambda>a b. bg_Count b - bg_Count a) xs))"

text \<open>C31. The benchmark's data is what its statistics say: every client that is generated consumes exactly 100 different
  configurations of the list, the counts are those of the clients that consume each configuration, they add up to
  100 for each client, and the list ends up in descending order of them, with the configurations it had.\<close>

theorem statistics_exact:
  assumes "clients_loop R order xs n r = Some (cs, r')" "\<forall>m. mset (order m) = mset m" "sorts_desc sortFunc" "\<forall>x \<in> set xs. bg_Count x = 0"
  shows "length cs = n \<and> (\<forall>c \<in> set cs. bench_client_ok xs c) \<and>
    mset (GenerateStatistics sortFunc xs cs) =
      mset (map (\<lambda>i. (xs ! i)\<lparr>bg_Count := int (consumers cs i)\<rparr>) [0..<length xs]) \<and>
    totalConsuming (GenerateStatistics sortFunc xs cs) = int (maxConsuming * n) \<and>
    sorted_wrt (\<lambda>a b. bg_Count b \<le> bg_Count a) (GenerateStatistics sortFunc xs cs)"
proof -
  let ?ys = "fold (\<lambda>client. fold count_use client) cs xs"
  let ?out = "GenerateStatistics sortFunc xs cs"
  have cs: "length cs = n" "\<forall>c \<in> set cs. bench_client_ok xs c" using clients_loop_ok [OF assms(1,2)] by simp_all
  have p: "length ?ys = length xs" "totalConsuming ?ys = totalConsuming xs + int (maxConsuming * length cs)"
    "\<And>i. i < length xs \<Longrightarrow> bg_Count (?ys ! i) = bg_Count (xs ! i) + int (consumers cs i)"
    "map (\<lambda>c. (bg_Group c, bg_Key c)) ?ys = map (\<lambda>c. (bg_Group c, bg_Key c)) xs"
    using count_clients [OF cs(2) refl] by auto
  have z: "totalConsuming xs = 0" using assms(4) by (induction xs) (simp_all add: totalConsuming_def)
  have "?ys = map (\<lambda>i. (xs ! i)\<lparr>bg_Count := int (consumers cs i)\<rparr>) [0..<length xs]"
  proof (rule nth_equalityI)
    fix i assume "i < length ?ys"
    then have i: "i < length xs" using p(1) by simp
    have "(bg_Group (?ys ! i), bg_Key (?ys ! i)) = (bg_Group (xs ! i), bg_Key (xs ! i))"
      using arg_cong [OF p(4), of "\<lambda>l. l ! i"] i p(1) by simp
    moreover have "bg_Count (?ys ! i) = int (consumers cs i)" using p(3) [OF i] assms(4) i by simp
    ultimately show "?ys ! i = map (\<lambda>i. (xs ! i)\<lparr>bg_Count := int (consumers cs i)\<rparr>) [0..<length xs] ! i"
      using i by (cases "?ys ! i"; cases "xs ! i") simp
  qed (simp add: p(1))
  moreover have out: "mset ?out = mset ?ys" "sorted_wrt (\<lambda>a b. bg_Count b \<le> bg_Count a) ?out"
    using assms(3) unfolding sorts_desc_def GenerateStatistics_def by blast+
  moreover have "totalConsuming ?out = totalConsuming ?ys"
    unfolding totalConsuming_def using out(1) by (metis mset_map sum_mset_sum_list)
  ultimately show ?thesis using cs p(2) z by simp
qed

section \<open>An example\<close>

text \<open>A source that plays back a list of numbers.\<close>

definition script :: "nat list bench_rand" where
  "script = \<lparr>br_IntN = \<lambda>n r. (case r of [] \<Rightarrow> (0, []) | x # r \<Rightarrow> (x, r)), br_Shuffle = \<lambda>n r. ([], r)\<rparr>"

definition demo_cfgs :: "bench_cfg list" where
  "demo_cfgs = map (\<lambda>i. \<lparr>bg_Group = [], bg_Key = replicate i CHR ''a'', bg_Count = 0\<rparr>) [0..<200]"

definition demo_sort :: "(bench_cfg \<Rightarrow> bench_cfg \<Rightarrow> int) \<Rightarrow> bench_cfg list \<Rightarrow> bench_cfg list" where
  "demo_sort cmp xs = sort_key (\<lambda>c. - bg_Count c) xs"

lemma demo_key: "i < 200 \<Longrightarrow> IndexAsKey demo_cfgs i = replicate i CHR ''a''"
  by (simp add: IndexAsKey_def demo_cfgs_def)

lemma fill_script:
  assumes "distinct idxs" "\<forall>i \<in> set idxs. i < 200 \<and> map_of m (replicate i CHR ''a'') = None" "length m + length idxs = maxConsuming"
  shows "\<exists>m'. fill_rest script demo_cfgs m idxs = Some (m', [])"
  using assms
proof (induction idxs arbitrary: m)
  case Nil
  then show ?case by (subst fill_rest.simps) simp
next
  case (Cons i idxs)
  let ?m = "AList.update (replicate i CHR ''a'') (use_at demo_cfgs i) m"
  have l: "length demo_cfgs = 200" by (simp add: demo_cfgs_def)
  have i: "i < 200" "map_of m (replicate i CHR ''a'') = None" using Cons.prems(2) by simp_all
  have "map_of ?m (replicate j CHR ''a'') = None" if "j \<in> set idxs" for j
  proof -
    have "replicate j CHR ''a'' \<noteq> replicate i CHR ''a''" using Cons.prems(1) that by (metis distinct.simps(2) length_replicate)
    then show ?thesis using Cons.prems(2) that by (simp add: update_conv')
  qed
  then have "\<exists>m'. fill_rest script demo_cfgs ?m idxs = Some (m', [])"
    using Cons.prems i(2) by (intro Cons.IH) (simp_all add: length_AList_update)
  moreover have "fill_rest script demo_cfgs m (i # idxs) = fill_rest script demo_cfgs ?m idxs"
    using Cons.prems(3) i l by (subst fill_rest.simps) (simp add: script_def consume_at_def demo_key)
  ultimately show ?case by simp
qed

theorem statistics_exact_witness:
  "\<exists>cs r'. clients_loop script (\<lambda>m. m) demo_cfgs 1 ([1, 1, 0, 0, 0, 0] @ [102..<200]) = Some (cs, r') \<and> length cs = 1 \<and>
    totalConsuming (GenerateStatistics demo_sort demo_cfgs cs) = 100"
proof -
  let ?m = "AList.update (IndexAsKey demo_cfgs 101) (use_at demo_cfgs 101) (AList.update (IndexAsKey demo_cfgs 11) (use_at demo_cfgs 11) [])"
  have l: "length demo_cfgs = 200" by (simp add: demo_cfgs_def)
  have d: "draw_first script demo_cfgs ([], 1 # r) = Some ([], r)"
    "draw_one script demo_cfgs (20 div 10) 10 1 ([], 1 # r) = Some ([], r)"
    "draw_one script demo_cfgs (100 div 90) 90 11 (m, 0 # 0 # r) =
      Some (AList.update (IndexAsKey demo_cfgs 11) (use_at demo_cfgs 11) m, r)"
    "draw_one script demo_cfgs (1000 div 900) 900 101 (m, 0 # 0 # r) =
      Some (AList.update (IndexAsKey demo_cfgs 101) (use_at demo_cfgs 101) m, r)" for m r
    by (simp_all add: draw_first_def draw_one_def script_def consume_at_def l)
  have k: "IndexAsKey demo_cfgs 101 = replicate 101 CHR ''a''" "IndexAsKey demo_cfgs 11 = replicate 11 CHR ''a''"
    by (rule demo_key, simp)+
  have ne: "replicate i CHR ''a'' \<noteq> replicate j CHR ''a''" if "i \<noteq> j" for i j using that by (metis length_replicate)
  have "\<exists>m'. fill_rest script demo_cfgs ?m [102..<200] = Some (m', [])"
  proof (rule fill_script)
    show "\<forall>i \<in> set [102..<200]. i < 200 \<and> map_of ?m (replicate i CHR ''a'') = None"
    proof
      fix i :: nat assume "i \<in> set [102..<200]"
      then have i: "102 \<le> i" "i < 200" by auto
      then show "i < 200 \<and> map_of ?m (replicate i CHR ''a'') = None"
        using ne [of i 101] ne [of i 11] by (simp only: update_conv' k fun_upd_apply map_of.simps) auto
    qed
    show "length ?m + length [102..<200] = maxConsuming"
      using ne [of 101 11] by (simp only: length_AList_update k update_conv' fun_upd_apply map_of.simps length_upt) (simp add: maxConsuming_def)
  qed (rule distinct_upt)
  then obtain m' where "fill_rest script demo_cfgs ?m [102..<200] = Some (m', [])" by blast
  then have "generate_client script (\<lambda>m. m) demo_cfgs ([1, 1, 0, 0, 0, 0] @ [102..<200]) = Some (map snd m', [])"
    unfolding generate_client_def append_Cons append_Nil d bind.bind_lunit by (simp only: d bind.bind_lunit prod.case)
  then have c: "clients_loop script (\<lambda>m. m) demo_cfgs 1 ([1, 1, 0, 0, 0, 0] @ [102..<200]) = Some ([map snd m'], [])"
    by (simp only: One_nat_def clients_loop.simps bind.bind_lunit prod.case)
  have "sorts_desc demo_sort"
    unfolding sorts_desc_def demo_sort_def
  proof (intro allI conjI)
    fix xs :: "bench_cfg list"
    have "sorted (map (\<lambda>c. - bg_Count c) (sort_key (\<lambda>c. - bg_Count c) xs))" by simp
    then show "sorted_wrt (\<lambda>a b. bg_Count b \<le> bg_Count a) (sort_key (\<lambda>c. - bg_Count c) xs)" by (simp only: sorted_map neg_le_iff_le)
  qed simp
  moreover have "\<forall>x \<in> set demo_cfgs. bg_Count x = 0" by (simp add: demo_cfgs_def)
  ultimately show ?thesis using statistics_exact [OF c, of demo_sort] c by (auto simp: maxConsuming_def)
qed

end
