(* ===== verification/Spec2Isabelle.thy ===== *)
theory Spec2Isabelle
  imports IdGen ConfigProps ConfigPublish ConfigSeed PumpLife WalLoop SecretProps ClientProps EnvClient BoltStore EtcdStore
    SecretLifecycle InitLocal GeneralProps ChiApi BenchData
begin

text \<open>
  A verification library for nekoq-component, a collection of Go components: a configuration service (server, database
  writer and pump, clients), a secret service (key storage, certificates, tokens, its server and client), two stores,
  a write-ahead log, HTTP layers and an id generator.

  \<^bold>\<open>Conventions\<close> (\<open>Prelude\<close>, \<open>GoText\<close>, \<open>GoScan\<close>, \<open>Codec\<close>, \<open>HttpTypes\<close>, \<open>KvTable\<close>). A Go function that returns an error is a
  function into \<open>'a res\<close>, the sum of \<open>go_error\<close> and the result; one that may panic or wait for ever is a function into
  \<open>'a run\<close> with \<open>Done\<close>, \<open>Panic\<close> and \<open>Block\<close>. State is passed and returned. Integers are words of their width where they
  wrap (\<open>int64\<close>, \<open>int32\<close>, bytes), and HOL integers where the value comes from the database or only is compared. A Go map is a
  function if it is only looked up, and a \<open>gomap\<close>, an association list with distinct keys whose order stands for one order
  of iteration, if it is ranged over. Texts are lists of characters, one for each byte. The parts of the standard library
  that the code computes with are defined: \<open>TrimSpace\<close>, \<open>Split\<close>, \<open>FormatInt\<close>, \<open>ParseInt\<close>, \<open>Sscanf\<close> for the formats in use,
  hexadecimal and base64, adler32, big-endian numbers. Third-party code and cryptography (CBOR and JSON
  encoders, PostgreSQL, etcd, bbolt, the routers, x509, AES-GCM, JWT) are arguments, as records of functions; what a
  property needs of them is a named hypothesis such as \<open>codec_ok\<close>, \<open>keylib_ok\<close>, \<open>etcd_ok\<close> or \<open>append_ok\<close>, and its witness
  gives a concrete instance.

  \<^bold>\<open>Id generator\<close> (\<open>IdGen\<close>; \<open>utility/idgen/id.go\<close>): the id as two words, \<open>Next\<close> and \<open>NextN\<close> on the state with the clock's
  readings as an argument, hexadecimal text. Ids increase, their fields keep within their bits, \<open>NextN\<close> on both of its paths.
  \<open>tillNextMillisecond\<close> consumes the list of readings and returns \<open>None\<close> when the list ends first.

  \<^bold>\<open>Configuration service.\<close> \<open>ConfigApi\<close> has selectors, configurations and signatures (\<open>configapi\<close>); \<open>ConfigStore\<close> and \<open>ConfigServer\<close>
  the stores, the notification channels, \<open>RetrieveOrWait\<close>, the pump batch (\<open>configserver/server.core.go\<close>), each function that holds
  the lock in one step; \<open>ConfigChannels\<close> and \<open>ConfigWaits\<close> the invariants of the channels and of the whole as a transition
  system of retrievals, batches, receives and cancellations; \<open>ConfigProps\<close> what follows: every waiting request is notified, no send
  blocks, when a batch panics, the contents as an abstract map. \<open>ConfigHttp\<close> has the handlers (\<open>server.go\<close>), \<open>ConfigDb\<close> the table, the
  writer's transactions, the dump and the scans (\<open>cfgimpl\<close>), \<open>ConfigSync\<close> the way from the writer to the server, with the refinement that
  the server follows the table; \<open>ConfigPublish\<close> the write server (\<open>server.write.go\<close>) and the composition: what was posted is served.
  \<open>PumpLife\<close> splits a scan into the steps between which \<open>Stop\<close> may fall, shows that a stop is clean, and that an undisturbed
  round is the atomic scan of \<open>ConfigDb\<close>. \<open>ConfigSeed\<close> has the two tools that write a test configuration, \<open>BenchData\<close> the generator of
  the benchmark's data. \<open>NRetry\<close> (10) bounds the writer's attempts as in the code; a dump that meets a row it cannot decode
  repeats the query for ever, which is \<open>None\<close>. \<open>ConfigClient\<close>, \<open>ClientProps\<close> and \<open>EnvClient\<close> (\<open>configclient\<close>) have the client: its registry as a
  step relation with its invariant, a turn of its loop against the server's own handler, and the environment's variables.

  \<^bold>\<open>Secret service.\<close> \<open>KeyTypes\<close>, \<open>Unseal\<close>, \<open>KeyTable\<close>, \<open>KeyStorage\<close> (\<open>secretapi\<close>, \<open>secret/unseal.local.go\<close>, \<open>secretimpl/secret.pg.go\<close>) have key sets
  with their checksums, envelopes, the two key tables and the storage with its transactions; \<open>KeyRotation\<close> its invariant over
  all reachable states; \<open>KeyService\<close> the laws of the Go interface as the locale \<open>key_storage\<close>, interpreted by the PostgreSQL storage, on
  which \<open>CipherTool\<close>, \<open>JwtAddon\<close> and \<open>JwtProps\<close> rest; \<open>KeyProps\<close> the properties. \<open>Certs\<close>, \<open>CertStore\<close>, \<open>CertTable\<close>, \<open>CertChain\<close>, \<open>CertProps\<close> do the
  same for certificates with the locale \<open>cert_storage\<close>; the walk of the storage is bounded by \<open>MaxLevels\<close> (10, as in the code),
  that of the controller is a partial function that is shown to end. \<open>Permissions\<close>, \<open>Chi2\<close>, \<open>SecretApi\<close>, \<open>SecretCerts\<close>, \<open>SecretGuard\<close>, \<open>SecretPg\<close> and
  \<open>SecretProps\<close> have the permissions of tokens, the controller layer (\<open>http/chi2\<close>), every controller (\<open>secretserver\<close>), the guard of the
  routes and, with the storages behind it, what the server as a whole promises. \<open>StdServer\<close> (\<open>http/stdserver\<close>) and \<open>SecretLifecycle\<close> have the
  endpoints that are open over start and stop; \<open>InitLocal\<close> the tool that makes the key files (\<open>secretcmd/initlocal\<close>) and their way into the
  unseal provider; \<open>GeneralClient\<close> and \<open>GeneralProps\<close> (\<open>generalclient\<close>) the client and its composition with the server's routes.

  \<^bold>\<open>Stores and log.\<close> \<open>BoltStore\<close> (\<open>db/simple/bbolt\<close>) refines a map whatever calls fail; \<open>EtcdStore\<close> (\<open>db/consistent/etcd\<close>) has the election with the
  steps of other nodes between its own, and the watch of a folder; \<open>Wal\<close> (\<open>db/alpha/replication\<close>) positions, entries, recovery and
  start-up; \<open>WalLoop\<close> the write loop among its callers, as a step relation.

  \<^bold>\<open>HTTP layers.\<close> Besides \<open>Chi2\<close> there is \<open>ChiApi\<close> (\<open>http/chi\<close>), with the response writer of \<open>net/http\<close>.

  \<^bold>\<open>Locales.\<close> \<open>kv_table\<close> (stores of the configuration server, simple store), \<open>version_comparator\<close>, \<open>text_codec\<close> (hexadecimal, base64), \<open>key_storage\<close>,
  \<open>cert_storage\<close>, \<open>data_writer\<close> (what the write API relies on); each is interpreted on the definitions of the component that provides it.

  \<^bold>\<open>Not modelled.\<close> Log lines, sleeps and timeouts as times (a timeout is a choice of the environment); the drivers' connections and their
  opening and closing; the \<open>main\<close> of the configuration server; declarations of interfaces; the type \<open>Replication\<close>, the reader for replays of the log
  and \<open>GetConfigurationSync\<close>, which are unfinished in the code; the default storage type, whose every function panics; the
  parsing of a revocation list and the random string of \<open>utility/random\<close>, which nothing but tests calls. Memory effects below the locks
  and atomics (the model takes each protected section as one step) are outside of the model.
\<close>

end
